(* ===== verification/Prelude.thy ===== *)
theory Prelude imports Main "HOL-Library.Word" "HOL-Library.Char_ord" "HOL-Library.List_Lexorder" begin

text \<open>
  Shared vocabulary of the development: the Go types the program uses, the
  decimal printer behind the \<open>%d\<close> verb, \<open>strings.Join\<close>, \<open>strings.TrimPrefix\<close> and
  \<open>strings.TrimRight\<close>, the order on strings used by \<open>slices.Sort\<close>, the iteration of a
  Go map in an arbitrary order, and the locale \<open>bounded_log\<close> that states what every
  capped history of the program promises.

  A Go string is a sequence of bytes, so it is a HOL \<open>string\<close> (a list of 8-bit
  characters); \<open>uint64\<close> and \<open>int64\<close> are 64-bit words; a Go \<open>int\<close> that the code only
  counts with is a \<open>nat\<close> or an \<open>int\<close>.  A \<open>time.Time\<close> is the number of nanoseconds
  since Go's zero time (1 January of year 1, UTC), so the zero time is 0.
\<close>

named_theorems go_defs \<open>definitions the component proofs unfold\<close>
named_theorems frame \<open>what an operation leaves unchanged\<close>

type_synonym u64 = "64 word"
type_synonym time = int

section \<open>Numbers in decimal\<close>

definition digit_char :: "nat \<Rightarrow> char" where
  "digit_char d = char_of (48 + d)"

definition is_digit :: "char \<Rightarrow> bool" where
  "is_digit c \<longleftrightarrow> 48 \<le> (of_char c :: nat) \<and> of_char c \<le> (57 :: nat)"

definition digit_val :: "char \<Rightarrow> nat" where
  "digit_val c = of_char c - 48"

fun itoa :: "nat \<Rightarrow> string" where
  "itoa n = (if n < 10 then [digit_char n] else itoa (n div 10) @ [digit_char (n mod 10)])"

declare itoa.simps [simp del]

definition digits_val :: "string \<Rightarrow> nat" where
  "digits_val s = foldl (\<lambda>a c. 10 * a + digit_val c) 0 s"

lemma is_digit_digit_char [simp]: "d < 10 \<Longrightarrow> is_digit (digit_char d)"
  by (simp add: is_digit_def digit_char_def)

lemma digit_val_digit_char [simp]: "d < 10 \<Longrightarrow> digit_val (digit_char d) = d"
  by (simp add: digit_val_def digit_char_def)

lemma itoa_nonempty [simp]: "itoa n \<noteq> []"
  by (subst itoa.simps) simp

lemma itoa_digits: "\<forall>c \<in> set (itoa n). is_digit c"
proof (induction n rule: itoa.induct)
  case (1 n)
  then show ?case by (subst itoa.simps) auto
qed

lemma digits_val_itoa [simp]: "digits_val (itoa n) = n"
proof (induction n rule: itoa.induct)
  case (1 n)
  then show ?case by (subst itoa.simps) (auto simp: digits_val_def)
qed

lemma itoa_inj [simp]: "itoa m = itoa n \<longleftrightarrow> m = n"
  by (metis digits_val_itoa)

lemma itoa_not_in: "\<not> is_digit c \<Longrightarrow> c \<notin> set (itoa n)"
  using itoa_digits by blast

text \<open>\<open>%d\<close> of a signed integer.\<close>

definition itoa_int :: "int \<Rightarrow> string" where
  "itoa_int i = (if i < 0 then CHR ''-'' # itoa (nat (- i)) else itoa (nat i))"

text \<open>\<open>%d\<close> of a \<open>uint64\<close>.\<close>

definition itoa_u64 :: "u64 \<Rightarrow> string" where
  "itoa_u64 w = itoa (unat w)"

section \<open>Strings\<close>

fun join_with :: "string \<Rightarrow> string list \<Rightarrow> string" where
  "join_with sep [] = []"
| "join_with sep [x] = x"
| "join_with sep (x # y # xs) = x @ sep @ join_with sep (y # xs)"

definition trim_prefix :: "string \<Rightarrow> string \<Rightarrow> string" where
  "trim_prefix s p = (if take (length p) s = p then drop (length p) s else s)"

definition trim_right :: "string \<Rightarrow> char \<Rightarrow> string" where
  "trim_right s c = rev (dropWhile (\<lambda>x. x = c) (rev s))"

lemma trim_prefix_append [simp]: "trim_prefix (p @ s) p = s"
  by (simp add: trim_prefix_def)

lemma trim_right_last: "trim_right s c = [] \<or> last (trim_right s c) \<noteq> c"
proof (cases "dropWhile (\<lambda>x. x = c) (rev s)")
  case (Cons a list)
  then have "a \<noteq> c" by (metis (mono_tags) hd_dropWhile list.sel(1) list.distinct(1))
  then show ?thesis using Cons by (simp add: trim_right_def)
qed (simp add: trim_right_def)

text \<open>\<open>slices.Sort\<close> on the keys of a map: the sorted list of a finite set of strings.\<close>

definition sorted_keys :: "string set \<Rightarrow> string list" where
  "sorted_keys A = sorted_list_of_set A"

lemma sorted_keys_set [simp]: "finite A \<Longrightarrow> set (sorted_keys A) = A"
  by (simp add: sorted_keys_def)

lemma sorted_keys_distinct [simp]: "distinct (sorted_keys A)"
  by (simp add: sorted_keys_def)

lemma sorted_keys_sorted [simp]: "sorted (sorted_keys A)"
  by (simp add: sorted_keys_def)

lemma sorted_keys_unique:
  "sorted xs \<Longrightarrow> distinct xs \<Longrightarrow> set xs = A \<Longrightarrow> sorted_keys A = xs"
  by (auto simp: sorted_keys_def sorted_list_of_set.idem_if_sorted_distinct)

section \<open>Iteration over a Go map\<close>

text \<open>
  \<open>for k, v := range m\<close> visits every key of \<open>m\<close> once, in an order the runtime picks.
  A loop over a map takes that order as an argument; \<open>map_order\<close> says the argument is
  one of the orders the runtime may pick.
\<close>

definition map_order :: "string list \<Rightarrow> (string \<rightharpoonup> 'v) \<Rightarrow> bool" where
  "map_order ks m \<longleftrightarrow> distinct ks \<and> set ks = dom m"

lemma map_order_set: "map_order ks m \<Longrightarrow> set ks = dom m"
  by (simp add: map_order_def)

lemma map_order_distinct: "map_order ks m \<Longrightarrow> distinct ks"
  by (simp add: map_order_def)

lemma map_order_exists: "finite (dom m) \<Longrightarrow> \<exists>ks. map_order ks m"
  by (metis map_order_def finite_distinct_list)

section \<open>Capped histories\<close>

definition last_n :: "nat \<Rightarrow> 'a list \<Rightarrow> 'a list" where
  "last_n n xs = drop (length xs - n) xs"

lemma length_last_n [simp]: "length (last_n n xs) = min n (length xs)"
  by (simp add: last_n_def)

lemma last_n_all [simp]: "length xs \<le> n \<Longrightarrow> last_n n xs = xs"
  by (simp add: last_n_def)

lemma set_last_n: "set (last_n n xs) \<subseteq> set xs"
  by (simp add: last_n_def set_drop_subset)

lemma map_last_n: "map f (last_n n xs) = last_n n (map f xs)"
  by (simp add: last_n_def drop_map)

lemma last_n_snoc: "0 < n \<Longrightarrow> last_n n (last_n n xs @ [x]) = last_n n (xs @ [x])"
  by (cases "n \<le> length xs") (auto simp: last_n_def Suc_diff_le)

lemma last_n_append: "last_n n (last_n n xs @ ys) = last_n n (xs @ ys)"
proof (cases "length xs \<le> n")
  case False
  then show ?thesis by (simp add: last_n_def) (simp add: add.commute)
qed simp

lemma last_n_snoc_full: "length xs = n \<Longrightarrow> 0 < n \<Longrightarrow> last_n n (xs @ [x]) = tl xs @ [x]"
  by (cases xs) (auto simp: last_n_def)

text \<open>
  The contract of a capped history: pushing an entry keeps the newest \<open>cap\<close> entries.
  The lemmas of the locale follow for every history of the program, whichever way its
  code trims.
\<close>

locale bounded_log =
  fixes push :: "'a list \<Rightarrow> 'a \<Rightarrow> 'a list"
    and cap :: nat
  assumes cap_pos: "0 < cap"
    and push_last_n: "length xs \<le> cap \<Longrightarrow> push xs x = last_n cap (xs @ [x])"
begin

lemma push_bound: "length xs \<le> cap \<Longrightarrow> length (push xs x) \<le> cap"
  by (simp add: push_last_n)

lemma push_last: "length xs \<le> cap \<Longrightarrow> push xs x \<noteq> [] \<and> last (push xs x) = x"
  using cap_pos by (auto simp: push_last_n last_n_def last_drop)

lemma push_grows: "length xs < cap \<Longrightarrow> push xs x = xs @ [x]"
  by (simp add: push_last_n)

lemma push_evicts_oldest: "length xs = cap \<Longrightarrow> push xs x = tl xs @ [x]"
  using cap_pos by (simp add: push_last_n last_n_snoc_full)

lemma push_set: "length xs \<le> cap \<Longrightarrow> set (push xs x) \<subseteq> insert x (set xs)"
  using set_last_n [of cap "xs @ [x]"] by (auto simp: push_last_n)

lemma foldl_push:
  assumes "length ys \<le> cap"
  shows "foldl push ys xs = last_n cap (ys @ xs)"
proof (induction xs rule: rev_induct)
  case Nil
  then show ?case using assms by simp
next
  case (snoc x xs)
  then show ?case
    using last_n_snoc [OF cap_pos, of "ys @ xs" x] by (simp add: push_last_n)
qed

lemma foldl_push_Nil: "foldl push [] xs = last_n cap xs"
  using foldl_push [of "[]" xs] by simp

end

end
