(* ===== verification/Replicated_Machine.thy ===== *)
theory Replicated_Machine imports Prelude begin

text \<open>
  What the consensus engine asks of a state machine, as a locale: a step per log entry,
  an abstract view, and the law that a step moves the view by the entry's operation
  alone.  The lemmas are the reasons replication works: replicas that agree keep
  agreeing, and a state restored from a snapshot of a prefix catches up by the suffix.

  The abstract specification of the store is \<open>kv_exec\<close> on partial maps.
\<close>

datatype kv_op = KvSet string string | KvDelete string

fun kv_exec :: "kv_op \<Rightarrow> (string \<rightharpoonup> string) \<Rightarrow> (string \<rightharpoonup> string)" where
  "kv_exec (KvSet k v) m = m(k \<mapsto> v)"
| "kv_exec (KvDelete k) m = m(k := None)"

definition kv_exec_opt :: "kv_op option \<Rightarrow> (string \<rightharpoonup> string) \<Rightarrow> (string \<rightharpoonup> string)" where
  "kv_exec_opt oo m = (case oo of None \<Rightarrow> m | Some k \<Rightarrow> kv_exec k m)"

lemma kv_exec_opt_simps [simp]: "kv_exec_opt None m = m" "kv_exec_opt (Some k) m = kv_exec k m"
  by (simp_all add: kv_exec_opt_def)

locale replicated_machine =
  fixes step :: "'s \<Rightarrow> 'l \<Rightarrow> 's"
    and view :: "'s \<Rightarrow> (string \<rightharpoonup> string)"
    and operation :: "'l \<Rightarrow> kv_op option"
    and inv :: "'s \<Rightarrow> bool"
  assumes inv_step: "inv s \<Longrightarrow> inv (step s l)"
    and view_step: "inv s \<Longrightarrow> view (step s l) = kv_exec_opt (operation l) (view s)"
begin

lemma inv_run: "inv s \<Longrightarrow> inv (foldl step s ls)"
  by (induction ls arbitrary: s) (auto simp: inv_step)

lemma view_run:
  "inv s \<Longrightarrow> view (foldl step s ls) = fold (\<lambda>l. kv_exec_opt (operation l)) ls (view s)"
  by (induction ls arbitrary: s) (auto simp: inv_step view_step)

lemma replicas_agree:
  assumes "inv s" and "inv t" and "view s = view t" and "map operation ls = map operation ks"
  shows "view (foldl step s ls) = view (foldl step t ks)"
  using assms
proof (induction ls arbitrary: s t ks)
  case (Cons l ls)
  then obtain k ks' where ks: "ks = k # ks'" by (cases ks) auto
  have "view (step s l) = view (step t k)" using Cons.prems ks by (simp add: view_step)
  then show ?case
    using Cons.IH [of "step s l" "step t k" ks'] Cons.prems ks by (simp add: inv_step)
qed simp

lemma catch_up:
  assumes "inv s" and "inv r" and "view r = view (foldl step s ls)"
  shows "view (foldl step r ks) = view (foldl step s (ls @ ks))"
  using replicas_agree [OF assms(2) inv_run [OF assms(1)] assms(3), of ks ks] by simp

end

end
