(* ===== verification/Go_Utf8.thy ===== *)
theory Go_Utf8 imports Prelude begin

text \<open>
  UTF-8 as Go's \<open>unicode/utf8\<close> decodes and encodes it, on byte strings: the next rune of
  a string, well-formed strings, and the encoding of a code point.  The JSON codec
  replaces malformed bytes by U+FFFD, so which strings survive a write and a read
  depends on this notion.
\<close>

abbreviation byte :: "char \<Rightarrow> nat" where
  "byte c \<equiv> of_char c"

lemma byte_char_of: "n < 256 \<Longrightarrow> byte (char_of n) = n"
  by simp

definition cont :: "char \<Rightarrow> bool" where
  "cont c \<longleftrightarrow> 0x80 \<le> byte c \<and> byte c \<le> 0xBF"

text \<open>The range of the second byte depends on the first: no overlong forms, no
  surrogates, nothing above U+10FFFF.\<close>

definition second_ok :: "char \<Rightarrow> char \<Rightarrow> bool" where
  "second_ok a b \<longleftrightarrow>
     (if byte a = 0xE0 then 0xA0 else if byte a = 0xF0 then 0x90 else 0x80) \<le> byte b \<and>
     byte b \<le> (if byte a = 0xED then 0x9F else if byte a = 0xF4 then 0x8F else 0xBF)"

text \<open>\<open>utf8.DecodeRune\<close>: the bytes of the first rune and the rest, \<open>None\<close> where the
  library answers \<open>(RuneError, 1)\<close>.\<close>

fun utf8_next :: "string \<Rightarrow> (string \<times> string) option" where
  "utf8_next [] = None"
| "utf8_next (a # s) =
     (if byte a < 0x80 then Some ([a], s)
      else if 0xC2 \<le> byte a \<and> byte a \<le> 0xDF then
        (case s of b # t \<Rightarrow> if cont b then Some ([a, b], t) else None | _ \<Rightarrow> None)
      else if 0xE0 \<le> byte a \<and> byte a \<le> 0xEF then
        (case s of b # c # t \<Rightarrow> if second_ok a b \<and> cont c then Some ([a, b, c], t) else None
         | _ \<Rightarrow> None)
      else if 0xF0 \<le> byte a \<and> byte a \<le> 0xF4 then
        (case s of b # c # d # t \<Rightarrow>
           if second_ok a b \<and> cont c \<and> cont d then Some ([a, b, c, d], t) else None
         | _ \<Rightarrow> None)
      else None)"

lemma utf8_next_split: "utf8_next s = Some (r, t) \<Longrightarrow> s = r @ t \<and> r \<noteq> []"
  by (cases s) (auto split: if_splits list.splits)

lemma utf8_next_extend: "utf8_next s = Some (r, t) \<Longrightarrow> utf8_next (r @ u) = Some (r, u)"
  by (cases s) (auto split: if_splits list.splits)

lemma utf8_next_shorter: "utf8_next s = Some (r, t) \<Longrightarrow> length t < length s"
  by (auto dest: utf8_next_split)

lemma utf8_next_ascii [simp]: "byte c < 0x80 \<Longrightarrow> utf8_next (c # s) = Some ([c], s)"
  by simp

lemma utf8_next_head:
  "utf8_next s = Some (r, t) \<Longrightarrow>
     (\<exists>c. r = [c] \<and> byte c < 0x80) \<or> (0x80 \<le> byte (hd r) \<and> 2 \<le> length r)"
  by (cases s) (auto split: if_splits list.splits)

declare utf8_next.simps(2) [simp del]

function valid_utf8 :: "string \<Rightarrow> bool" where
  "valid_utf8 s =
     (if s = [] then True
      else case utf8_next s of None \<Rightarrow> False | Some (r, t) \<Rightarrow> valid_utf8 t)"
  by pat_completeness auto
termination
  by (relation "measure length") (auto dest: utf8_next_shorter)

declare valid_utf8.simps [simp del]

lemma valid_utf8_Nil [simp]: "valid_utf8 []"
  by (simp add: valid_utf8.simps)

lemma valid_utf8_next:
  "utf8_next s = Some (r, t) \<Longrightarrow> valid_utf8 (r @ u) = valid_utf8 u"
proof -
  assume n: "utf8_next s = Some (r, t)"
  then have "r @ u \<noteq> []" and "utf8_next (r @ u) = Some (r, u)"
    using utf8_next_split utf8_next_extend by blast+
  then show ?thesis by (subst valid_utf8.simps) simp
qed

lemma valid_utf8_ascii_Cons [simp]: "byte c < 0x80 \<Longrightarrow> valid_utf8 (c # s) = valid_utf8 s"
  using valid_utf8_next [of "c # s" "[c]" s s] by simp

lemma valid_utf8_ascii: "list_all (\<lambda>c. byte c < 0x80) s \<Longrightarrow> valid_utf8 s"
  by (induction s) auto

lemma valid_utf8_append: "valid_utf8 s \<Longrightarrow> valid_utf8 t \<Longrightarrow> valid_utf8 (s @ t)"
proof (induction s rule: valid_utf8.induct)
  case (1 s)
  show ?case
  proof (cases "s = []")
    case False
    with "1.prems" obtain r u where ru: "utf8_next s = Some (r, u)" "valid_utf8 u"
      by (subst (asm) valid_utf8.simps) (auto split: option.splits)
    then have "valid_utf8 (u @ t)" using "1.IH" [OF False ru(1)] "1.prems" by simp
    moreover have "s @ t = r @ (u @ t)" using utf8_next_split [OF ru(1)] by simp
    ultimately show ?thesis using valid_utf8_next [OF ru(1), of "u @ t"] by simp
  qed (simp add: "1.prems")
qed

text \<open>\<open>utf8.EncodeRune\<close> for the code points of the Basic Multilingual Plane and beyond.\<close>

definition utf8_enc :: "nat \<Rightarrow> string" where
  "utf8_enc n =
     (if n < 0x80 then [char_of n]
      else if n < 0x800 then [char_of (0xC0 + n div 64), char_of (0x80 + n mod 64)]
      else if n < 0x10000 then
        [char_of (0xE0 + n div 4096), char_of (0x80 + n div 64 mod 64), char_of (0x80 + n mod 64)]
      else
        [char_of (0xF0 + n div 262144), char_of (0x80 + n div 4096 mod 64),
         char_of (0x80 + n div 64 mod 64), char_of (0x80 + n mod 64)])"

definition scalar :: "nat \<Rightarrow> bool" where
  "scalar n \<longleftrightarrow> n < 0xD800 \<or> (0xE000 \<le> n \<and> n < 0x110000)"

text \<open>Decoding two, three and four encoded bytes, stated over the byte values.\<close>

lemma utf8_next_bytes2:
  fixes a b :: nat
  assumes "0xC2 \<le> a" "a \<le> 0xDF" "0x80 \<le> b" "b \<le> 0xBF"
  shows "utf8_next (char_of a # char_of b # t) = Some ([char_of a, char_of b], t)"
  using assms by (simp add: utf8_next.simps(2) cont_def)

lemma utf8_next_bytes3:
  fixes a b c :: nat
  assumes "0xE0 \<le> a" "a \<le> 0xEF" "0x80 \<le> b" "b \<le> 0xBF" "0x80 \<le> c" "c \<le> 0xBF"
    and "a = 0xE0 \<Longrightarrow> 0xA0 \<le> b" and "a = 0xED \<Longrightarrow> b \<le> 0x9F"
  shows "utf8_next (char_of a # char_of b # char_of c # t)
           = Some ([char_of a, char_of b, char_of c], t)"
  using assms by (simp add: utf8_next.simps(2) cont_def second_ok_def)

lemma utf8_next_bytes4:
  fixes a b c d :: nat
  assumes "0xF0 \<le> a" "a \<le> 0xF4" "0x80 \<le> b" "b \<le> 0xBF" "0x80 \<le> c" "c \<le> 0xBF"
    and "0x80 \<le> d" "d \<le> 0xBF"
    and "a = 0xF0 \<Longrightarrow> 0x90 \<le> b" and "a = 0xF4 \<Longrightarrow> b \<le> 0x8F"
  shows "utf8_next (char_of a # char_of b # char_of c # char_of d # t)
           = Some ([char_of a, char_of b, char_of c, char_of d], t)"
  using assms by (simp add: utf8_next.simps(2) cont_def second_ok_def)

lemma mod64_cont: "0x80 \<le> 0x80 + n mod 64" "0x80 + n mod 64 \<le> (0xBF :: nat)"
proof -
  have "n mod 64 < 64" by simp
  then show "0x80 \<le> 0x80 + n mod 64" "0x80 + n mod 64 \<le> (0xBF :: nat)" by linarith+
qed

lemma digit64: "(m :: nat) = 64 * (m div 64) + m mod 64"
  by simp

lemma div4096: "(n :: nat) div 4096 = n div 64 div 64"
  by (simp add: div_mult2_eq [symmetric])

lemma div262144: "(n :: nat) div 262144 = n div 4096 div 64"
  by (simp add: div_mult2_eq [symmetric])

lemma utf8_next_enc2:
  assumes "0x80 \<le> n" and "n < 0x800"
  shows "utf8_next (utf8_enc n @ t) = Some (utf8_enc n, t)"
proof -
  have "0xC2 \<le> 0xC0 + n div 64" "0xC0 + n div 64 \<le> 0xDF" using assms by linarith+
  from utf8_next_bytes2 [OF this mod64_cont [of n]] show ?thesis
    using assms unfolding utf8_enc_def by (simp only: if_not_P not_less if_P append.simps)
qed

lemma utf8_next_enc3:
  assumes "0x800 \<le> n" and "n < 0x10000" and "scalar n"
  shows "utf8_next (utf8_enc n @ t) = Some (utf8_enc n, t)"
proof -
  let ?b = "0x80 + n div 64 mod 64"
  have a: "0xE0 \<le> 0xE0 + n div 4096" "0xE0 + n div 4096 \<le> 0xEF" using assms by linarith+
  have lo: "0xA0 \<le> ?b" if "0xE0 + n div 4096 = 0xE0"
  proof -
    have "32 \<le> n div 64" using assms(1) by linarith
    then show ?thesis using that digit64 [of "n div 64"] div4096 [of n] by linarith
  qed
  have hi: "?b \<le> 0x9F" if "0xE0 + n div 4096 = 0xED"
  proof -
    have "n < 0xD800" using that assms(3) unfolding scalar_def by linarith
    then have "n div 64 < 864" by linarith
    then show ?thesis using that digit64 [of "n div 64"] div4096 [of n] by linarith
  qed
  have "\<not> n < 0x80" "\<not> n < 0x800" using assms by linarith+
  then have enc: "utf8_enc n = [char_of (0xE0 + n div 4096), char_of ?b, char_of (0x80 + n mod 64)]"
    using assms(2) by (simp only: utf8_enc_def if_False if_True)
  show ?thesis unfolding enc append.simps
    by (rule utf8_next_bytes3 [OF a mod64_cont mod64_cont lo hi])
qed

lemma utf8_next_enc4:
  assumes "0x10000 \<le> n" and "n < 0x110000"
  shows "utf8_next (utf8_enc n @ t) = Some (utf8_enc n, t)"
proof -
  let ?b = "0x80 + n div 4096 mod 64"
  have a: "0xF0 \<le> 0xF0 + n div 262144" "0xF0 + n div 262144 \<le> 0xF4" using assms by linarith+
  have lo: "0x90 \<le> ?b" if "0xF0 + n div 262144 = 0xF0"
  proof -
    have "16 \<le> n div 4096" using assms(1) by linarith
    then show ?thesis using that digit64 [of "n div 4096"] div262144 [of n] by linarith
  qed
  have hi: "?b \<le> 0x8F" if "0xF0 + n div 262144 = 0xF4"
  proof -
    have "n div 4096 < 272" using assms(2) by linarith
    then show ?thesis using that digit64 [of "n div 4096"] div262144 [of n] by linarith
  qed
  have "\<not> n < 0x80" "\<not> n < 0x800" "\<not> n < 0x10000" using assms by linarith+
  then have enc: "utf8_enc n = [char_of (0xF0 + n div 262144), char_of ?b,
      char_of (0x80 + n div 64 mod 64), char_of (0x80 + n mod 64)]"
    by (simp only: utf8_enc_def if_False if_True)
  show ?thesis unfolding enc append.simps
    by (rule utf8_next_bytes4 [OF a mod64_cont mod64_cont mod64_cont lo hi])
qed

lemma utf8_enc_ascii [simp]: "n < 0x80 \<Longrightarrow> utf8_enc n = [char_of n]"
  by (simp add: utf8_enc_def)

lemma utf8_next_enc: "scalar n \<Longrightarrow> utf8_next (utf8_enc n @ t) = Some (utf8_enc n, t)"
proof -
  assume s: "scalar n"
  consider "n < 0x80" | "0x80 \<le> n" "n < 0x800" | "0x800 \<le> n" "n < 0x10000"
    | "0x10000 \<le> n" "n < 0x110000"
    using s unfolding scalar_def by linarith
  then show ?thesis
  proof cases
    case 1
    then show ?thesis by simp
  qed (use s in \<open>blast intro: utf8_next_enc2 utf8_next_enc3 utf8_next_enc4\<close>)+
qed

lemma valid_utf8_enc [simp]: "scalar n \<Longrightarrow> valid_utf8 (utf8_enc n @ t) = valid_utf8 t"
  using valid_utf8_next [OF utf8_next_enc] by blast

text \<open>U+FFFD, which replaces every malformed byte.\<close>

definition replacement :: string where
  "replacement = utf8_enc 0xFFFD"

lemma valid_replacement [simp]: "valid_utf8 (replacement @ t) = valid_utf8 t"
  by (simp add: replacement_def scalar_def)

end
