(* ===== verification/Go_Json_String.thy ===== *)
theory Go_Json_String imports Go_Utf8 begin

text \<open>
  JSON string literals as \<open>encoding/json\<close> writes and reads them, byte by byte: the
  escapes of the encoder (HTML escaping on), the unquoting of the decoder with its
  replacement of malformed bytes, and the two facts the FSM rests on: a well-formed
  UTF-8 string survives a write and a read, and whatever is read is well-formed.
\<close>

abbreviation dquote :: char where "dquote \<equiv> CHR 0x22"
abbreviation bslash :: char where "bslash \<equiv> CHR 0x5C"

section \<open>Hexadecimal digits\<close>

definition hex_digit :: "nat \<Rightarrow> char" where
  "hex_digit d = (if d < 10 then char_of (48 + d) else char_of (87 + d))"

definition hex_val :: "char \<Rightarrow> nat option" where
  "hex_val c =
     (if 48 \<le> byte c \<and> byte c \<le> 57 then Some (byte c - 48)
      else if 97 \<le> byte c \<and> byte c \<le> 102 then Some (byte c - 87)
      else if 65 \<le> byte c \<and> byte c \<le> 70 then Some (byte c - 55)
      else None)"

lemma hex_val_digit [simp]: "d < 16 \<Longrightarrow> hex_val (hex_digit d) = Some d"
  by (simp add: hex_val_def hex_digit_def)

lemma hex_val_less: "hex_val c = Some d \<Longrightarrow> d < 16"
  by (auto simp: hex_val_def split: if_splits)

text \<open>\<open>getu4\<close>: four hexadecimal digits.\<close>

fun hex4 :: "string \<Rightarrow> (nat \<times> string) option" where
  "hex4 (a # b # c # d # t) =
     (case (hex_val a, hex_val b, hex_val c, hex_val d) of
        (Some w, Some x, Some y, Some z) \<Rightarrow> Some (4096 * w + 256 * x + 16 * y + z, t)
      | _ \<Rightarrow> None)"
| "hex4 _ = None"

lemma hex4_Some: "hex4 s = Some (n, t) \<Longrightarrow> n < 0x10000 \<and> length t < length s"
proof (induction s rule: hex4.induct)
  case (1 a b c d t')
  then obtain w x y z where "hex_val a = Some w" "hex_val b = Some x" "hex_val c = Some y"
    "hex_val d = Some z" and nt: "n = 4096 * w + 256 * x + 16 * y + z" "t = t'"
    by (auto split: option.splits)
  then have "w < 16" "x < 16" "y < 16" "z < 16" using hex_val_less by auto
  then show ?case using nt by simp
qed simp_all

section \<open>Encoding\<close>

text \<open>\<open>appendString\<close> with \<open>escapeHTML\<close>: how one rune is written.\<close>

definition esc_rune :: "string \<Rightarrow> string" where
  "esc_rune r =
     (case r of
        [c] \<Rightarrow>
          if c = dquote \<or> c = bslash then [bslash, c]
          else if byte c = 8 then [bslash, CHR ''b'']
          else if byte c = 12 then [bslash, CHR ''f'']
          else if byte c = 10 then [bslash, CHR ''n'']
          else if byte c = 13 then [bslash, CHR ''r'']
          else if byte c = 9 then [bslash, CHR ''t'']
          else if byte c < 32 \<or> c = CHR ''<'' \<or> c = CHR ''>'' \<or> c = CHR ''&''
          then [bslash, CHR ''u'', CHR ''0'', CHR ''0'',
                hex_digit (byte c div 16), hex_digit (byte c mod 16)]
          else [c]
      | _ \<Rightarrow>
          if r = utf8_enc 0x2028 then bslash # ''u2028''
          else if r = utf8_enc 0x2029 then bslash # ''u2029''
          else r)"

function quote_body :: "string \<Rightarrow> string" where
  "quote_body s =
     (if s = [] then []
      else case utf8_next s of
             None \<Rightarrow> bslash # ''ufffd'' @ quote_body (tl s)
           | Some (r, t) \<Rightarrow> esc_rune r @ quote_body t)"
  by pat_completeness auto
termination
  by (relation "measure length") (auto dest: utf8_next_shorter)

declare quote_body.simps [simp del]

definition json_quote :: "string \<Rightarrow> string" where
  "json_quote s = dquote # quote_body s @ [dquote]"

section \<open>Decoding\<close>

definition is_surrogate :: "nat \<Rightarrow> bool" where
  "is_surrogate n \<longleftrightarrow> 0xD800 \<le> n \<and> n < 0xE000"

text \<open>The part of an escape after the backslash: its bytes and the rest.  A surrogate
  pair is one code point, a lone surrogate is U+FFFD.\<close>

definition unescape :: "string \<Rightarrow> (string \<times> string) option" where
  "unescape s =
     (case s of
        [] \<Rightarrow> None
      | e # u \<Rightarrow>
          if e = dquote \<or> e = bslash \<or> e = CHR ''/'' then Some ([e], u)
          else if e = CHR ''b'' then Some ([char_of (8::nat)], u)
          else if e = CHR ''f'' then Some ([char_of (12::nat)], u)
          else if e = CHR ''n'' then Some ([char_of (10::nat)], u)
          else if e = CHR ''r'' then Some ([char_of (13::nat)], u)
          else if e = CHR ''t'' then Some ([char_of (9::nat)], u)
          else if e = CHR ''u'' then
            (case hex4 u of
               None \<Rightarrow> None
             | Some (n, v) \<Rightarrow>
                 if \<not> is_surrogate n then Some (utf8_enc n, v)
                 else (case v of
                         x # y # w \<Rightarrow>
                           if x = bslash \<and> y = CHR ''u'' then
                             (case hex4 w of
                                Some (m, z) \<Rightarrow>
                                  if n < 0xDC00 \<and> 0xDC00 \<le> m \<and> m < 0xE000
                                  then Some (utf8_enc (0x10000 + (n - 0xD800) * 0x400 + (m - 0xDC00)), z)
                                  else Some (replacement, v)
                              | None \<Rightarrow> Some (replacement, v))
                           else Some (replacement, v)
                       | _ \<Rightarrow> Some (replacement, v)))
          else None)"

lemma unescape_shorter: "unescape s = Some (r, u) \<Longrightarrow> length u < length s"
  unfolding unescape_def
  by (auto split: list.splits if_splits option.splits dest!: hex4_Some)

lemma scalar_surrogate_pair:
  "\<lbrakk>0xD800 \<le> n; n < 0xDC00; 0xDC00 \<le> m; m < 0xE000\<rbrakk>
   \<Longrightarrow> scalar (0x10000 + (n - 0xD800) * 0x400 + (m - 0xDC00))"
  by (simp add: scalar_def)

lemma unescape_valid: "unescape s = Some (r, u) \<Longrightarrow> valid_utf8 (r @ t) = valid_utf8 t"
  unfolding unescape_def
  by (auto split: list.splits if_splits option.splits dest!: hex4_Some
      simp: is_surrogate_def scalar_def scalar_surrogate_pair)

text \<open>A string literal after its opening quote: its value and what follows the closing
  quote, \<open>None\<close> on a syntax error.\<close>

function parse_string :: "string \<Rightarrow> (string \<times> string) option" where
  "parse_string s =
     (case s of
        [] \<Rightarrow> None
      | c # t \<Rightarrow>
          if c = dquote then Some ([], t)
          else if c = bslash then
            (case unescape t of
               None \<Rightarrow> None
             | Some (r, u) \<Rightarrow> map_option (apfst ((@) r)) (parse_string u))
          else if byte c < 32 then None
          else (case utf8_next s of
                  None \<Rightarrow> map_option (apfst ((@) replacement)) (parse_string t)
                | Some (r, u) \<Rightarrow> map_option (apfst ((@) r)) (parse_string u)))"
  by pat_completeness auto
termination
  by (relation "measure length") (auto dest: utf8_next_shorter unescape_shorter)

declare parse_string.simps [simp del]

lemma parse_string_shorter: "parse_string s = Some (x, t) \<Longrightarrow> length t < length s"
proof (induction s arbitrary: x t rule: parse_string.induct)
  case (1 s)
  obtain c u where s: "s = c # u"
    using "1.prems" by (subst (asm) parse_string.simps) (auto split: list.splits)
  show ?case
    using "1.prems" "1.IH" [OF s] unfolding s
    by (subst (asm) parse_string.simps)
       (fastforce split: if_splits option.splits
         dest: unescape_shorter utf8_next_shorter simp: apfst_def map_prod_def)
qed

theorem parse_string_valid: "parse_string s = Some (x, t) \<Longrightarrow> valid_utf8 x"
proof (induction s arbitrary: x t rule: parse_string.induct)
  case (1 s)
  obtain c u where s: "s = c # u"
    using "1.prems" by (subst (asm) parse_string.simps) (auto split: list.splits)
  show ?case
    using "1.prems" "1.IH" [OF s] unfolding s
    by (subst (asm) parse_string.simps)
       (auto split: if_splits option.splits
         simp: unescape_valid valid_utf8_next)
qed

section \<open>The round trip\<close>

lemma parse_string_escape:
  "unescape u = Some (r, v) \<Longrightarrow>
   parse_string (bslash # u) = map_option (apfst ((@) r)) (parse_string v)"
  by (subst parse_string.simps) simp

lemma unescape_u00:
  assumes "byte c < 128"
  shows "unescape (CHR ''u'' # CHR ''0'' # CHR ''0'' # hex_digit (byte c div 16)
           # hex_digit (byte c mod 16) # t) = Some ([c], t)"
proof -
  have "hex_val (CHR ''0'') = Some 0" by (simp add: hex_val_def)
  moreover have "byte c div 16 < 16" "byte c mod 16 < 16" using assms by auto
  ultimately have "hex4 (CHR ''0'' # CHR ''0'' # hex_digit (byte c div 16) # hex_digit (byte c mod 16) # t)
      = Some (byte c, t)" by simp
  then show ?thesis using assms by (simp add: unescape_def is_surrogate_def)
qed

lemma char_eq_byte: "byte c = n \<Longrightarrow> n < 256 \<Longrightarrow> char_of n = c"
  by auto

lemma parse_string_esc_ascii:
  assumes "byte c < 0x80"
  shows "parse_string (esc_rune [c] @ t) = map_option (apfst ((@) [c])) (parse_string t)"
proof -
  let ?short = "c = dquote \<or> c = bslash \<or> byte c \<in> {8, 12, 10, 13, 9}"
  consider (short) "?short" | (uni) "\<not> ?short" "byte c < 32 \<or> c \<in> {CHR ''<'', CHR ''>'', CHR ''&''}"
    | (plain) "\<not> ?short" "\<not> byte c < 32" "c \<notin> {CHR ''<'', CHR ''>'', CHR ''&''}"
    by blast
  then show ?thesis
  proof cases
    case short
    then have "\<exists>e. esc_rune [c] = [bslash, e] \<and> unescape (e # t) = Some ([c], t)"
      by (auto simp: esc_rune_def unescape_def char_of_eq_iff dest!: char_eq_byte)
    then show ?thesis by (auto simp: parse_string_escape)
  next
    case uni
    then have "esc_rune [c] = [bslash, CHR ''u'', CHR ''0'', CHR ''0'',
        hex_digit (byte c div 16), hex_digit (byte c mod 16)]"
      by (auto simp: esc_rune_def)
    then show ?thesis using parse_string_escape [OF unescape_u00 [OF assms]] by simp
  next
    case plain
    then have "esc_rune [c] = [c]" by (auto simp: esc_rune_def)
    then show ?thesis using plain assms by (subst parse_string.simps) auto
  qed
qed

lemma unescape_2028: "unescape (''u2028'' @ t) = Some (utf8_enc 0x2028, t)"
  by (simp add: unescape_def hex_val_def is_surrogate_def)

lemma unescape_2029: "unescape (''u2029'' @ t) = Some (utf8_enc 0x2029, t)"
  by (simp add: unescape_def hex_val_def is_surrogate_def)

lemma esc_rune_long:
  "2 \<le> length r \<Longrightarrow> esc_rune r =
     (if r = utf8_enc 0x2028 then bslash # ''u2028''
      else if r = utf8_enc 0x2029 then bslash # ''u2029'' else r)"
proof -
  assume "2 \<le> length r"
  then obtain c d w where r: "r = c # d # w" by (cases r; cases "tl r") auto
  show ?thesis unfolding r esc_rune_def by (simp only: list.case)
qed

lemma parse_string_esc_rune:
  assumes "utf8_next s = Some (r, u)"
  shows "parse_string (esc_rune r @ t) = map_option (apfst ((@) r)) (parse_string t)"
proof (cases "\<exists>c. r = [c] \<and> byte c < 0x80")
  case True
  then show ?thesis using parse_string_esc_ascii by auto
next
  case False
  then have h: "0x80 \<le> byte (hd r)" "2 \<le> length r" using utf8_next_head [OF assms] by auto
  then obtain c d w where r: "r = c # d # w" by (cases r; cases "tl r") auto
  consider "r = utf8_enc 0x2028" | "r \<noteq> utf8_enc 0x2028" "r = utf8_enc 0x2029"
    | "r \<noteq> utf8_enc 0x2028" "r \<noteq> utf8_enc 0x2029" by blast
  then show ?thesis
  proof cases
    case 1
    then have "esc_rune r = bslash # ''u2028''" using esc_rune_long [OF h(2)] by simp
    then show ?thesis using parse_string_escape [OF unescape_2028 [of t]] 1 by simp
  next
    case 2
    then have "esc_rune r = bslash # ''u2029''" using esc_rune_long [OF h(2)] by simp
    then show ?thesis using parse_string_escape [OF unescape_2029 [of t]] 2 by simp
  next
    case 3
    then have esc: "esc_rune r = r" using esc_rune_long [OF h(2)] by simp
    have "c \<noteq> dquote" "c \<noteq> bslash" "\<not> byte c < 32" using h(1) r by auto
    moreover have "utf8_next (r @ t) = Some (r, t)" by (rule utf8_next_extend [OF assms])
    ultimately show ?thesis using r unfolding esc by (subst parse_string.simps) simp
  qed
qed

theorem parse_string_quote:
  "valid_utf8 s \<Longrightarrow> parse_string (quote_body s @ dquote # t) = Some (s, t)"
proof (induction s rule: valid_utf8.induct)
  case (1 s)
  show ?case
  proof (cases "s = []")
    case True
    then show ?thesis by (subst quote_body.simps) (subst parse_string.simps, simp)
  next
    case False
    with "1.prems" obtain r u where ru: "utf8_next s = Some (r, u)" "valid_utf8 u"
      by (subst (asm) valid_utf8.simps) (auto split: option.splits)
    then have "parse_string (quote_body u @ dquote # t) = Some (u, t)"
      using "1.IH" [OF False ru(1)] by simp
    moreover have "quote_body s = esc_rune r @ quote_body u"
      using False ru by (subst quote_body.simps) simp
    ultimately show ?thesis
      using parse_string_esc_rune [OF ru(1), of "quote_body u @ dquote # t"] utf8_next_split [OF ru(1)]
      by simp
  qed
qed

end
