(* ===== verification/Go_Json.thy ===== *)
theory Go_Json imports Go_Json_String begin

text \<open>
  JSON documents: the compact printer of \<open>json.Marshal\<close>, the reader shared by
  \<open>json.Unmarshal\<close> (the whole input) and \<open>json.Decoder\<close> (the first value), and the
  assignment of an object's members to the fields of a Go struct.

  The reader carries fuel because its three functions call each other; \<open>parse_fuel\<close>
  of an input is enough (\<open>parse_fuel_enough\<close>: no larger amount changes the result).
  The nesting limit of the library, 10000, is the argument \<open>d\<close>.
\<close>

datatype json =
    JNull
  | JBool bool
  | JNum string
  | JStr string
  | JArr "json list"
  | JObj "(string \<times> json) list"

section \<open>Printing\<close>

fun json_print :: "json \<Rightarrow> string" and json_elems :: "json list \<Rightarrow> string"
  and json_members :: "(string \<times> json) list \<Rightarrow> string" where
  "json_print JNull = ''null''"
| "json_print (JBool b) = (if b then ''true'' else ''false'')"
| "json_print (JNum n) = n"
| "json_print (JStr s) = json_quote s"
| "json_print (JArr xs) = CHR ''['' # json_elems xs"
| "json_print (JObj ms) = CHR ''{'' # json_members ms"
| "json_elems [] = '']''"
| "json_elems [x] = json_print x @ '']''"
| "json_elems (x # y # xs) = json_print x @ '','' @ json_elems (y # xs)"
| "json_members [] = ''}''"
| "json_members [(k, v)] = json_quote k @ '':'' @ json_print v @ ''}''"
| "json_members ((k, v) # m # ms) =
     json_quote k @ '':'' @ json_print v @ '','' @ json_members (m # ms)"

section \<open>Reading\<close>

definition is_space :: "char \<Rightarrow> bool" where
  "is_space c \<longleftrightarrow> byte c = 32 \<or> byte c = 9 \<or> byte c = 10 \<or> byte c = 13"

definition skip_ws :: "string \<Rightarrow> string" where
  "skip_ws s = dropWhile is_space s"

lemma skip_ws_length: "length (skip_ws s) \<le> length s"
  by (simp add: skip_ws_def length_dropWhile_le)

text \<open>Number literals: sign, integer part, fraction, exponent.\<close>

definition num_digits :: "string \<Rightarrow> (string \<times> string) option" where
  "num_digits s =
     (if takeWhile is_digit s = [] then None
      else Some (takeWhile is_digit s, dropWhile is_digit s))"

definition num_frac :: "string \<Rightarrow> (string \<times> string) option" where
  "num_frac s =
     (case s of
        c # t \<Rightarrow> if c = CHR ''.'' then map_option (apfst ((#) c)) (num_digits t) else Some ([], s)
      | [] \<Rightarrow> Some ([], s))"

definition num_exp :: "string \<Rightarrow> (string \<times> string) option" where
  "num_exp s =
     (case s of
        e # t \<Rightarrow>
          if e = CHR ''e'' \<or> e = CHR ''E'' then
            (case t of
               g # u \<Rightarrow>
                 if g = CHR ''+'' \<or> g = CHR ''-''
                 then map_option (apfst (\<lambda>x. e # g # x)) (num_digits u)
                 else map_option (apfst ((#) e)) (num_digits t)
             | [] \<Rightarrow> None)
          else Some ([], s)
      | [] \<Rightarrow> Some ([], s))"

definition num_int :: "string \<Rightarrow> (string \<times> string) option" where
  "num_int s =
     (case s of
        c # t \<Rightarrow> if c = CHR ''0'' then Some ([c], t) else num_digits s
      | [] \<Rightarrow> None)"

definition num_sign :: "string \<Rightarrow> string \<times> string" where
  "num_sign s = (case s of c # t \<Rightarrow> if c = CHR ''-'' then ([c], t) else ([], s) | [] \<Rightarrow> ([], s))"

definition parse_num :: "string \<Rightarrow> (string \<times> string) option" where
  "parse_num s =
     (let (g, s0) = num_sign s
      in case num_int s0 of None \<Rightarrow> None
         | Some (i, s1) \<Rightarrow>
             (case num_frac s1 of None \<Rightarrow> None
              | Some (f, s2) \<Rightarrow>
                  (case num_exp s2 of None \<Rightarrow> None
                   | Some (e, s3) \<Rightarrow> Some (g @ i @ f @ e, s3))))"

definition strip :: "string \<Rightarrow> string \<Rightarrow> string option" where
  "strip p s = (if take (length p) s = p then Some (drop (length p) s) else None)"

text \<open>Values, the elements of an array after \<open>[\<close>, the members of an object after \<open>{\<close>.\<close>

fun parse_value :: "nat \<Rightarrow> nat \<Rightarrow> string \<Rightarrow> (json \<times> string) option"
  and parse_elems :: "nat \<Rightarrow> nat \<Rightarrow> string \<Rightarrow> (json list \<times> string) option"
  and parse_members :: "nat \<Rightarrow> nat \<Rightarrow> string \<Rightarrow> ((string \<times> json) list \<times> string) option" where
  "parse_value 0 d s = None"
| "parse_value (Suc f) d s =
     (case skip_ws s of
        [] \<Rightarrow> None
      | c # t \<Rightarrow>
          if c = dquote then map_option (apfst JStr) (parse_string t)
          else if c = CHR ''['' then
            (if d = 0 then None
             else case skip_ws t of
                    [] \<Rightarrow> None
                  | c2 # t2 \<Rightarrow>
                      if c2 = CHR '']'' then Some (JArr [], t2)
                      else map_option (apfst JArr) (parse_elems f (d - 1) t))
          else if c = CHR ''{'' then
            (if d = 0 then None
             else case skip_ws t of
                    [] \<Rightarrow> None
                  | c2 # t2 \<Rightarrow>
                      if c2 = CHR ''}'' then Some (JObj [], t2)
                      else map_option (apfst JObj) (parse_members f (d - 1) t))
          else if c = CHR ''n'' then map_option (Pair JNull) (strip ''ull'' t)
          else if c = CHR ''t'' then map_option (Pair (JBool True)) (strip ''rue'' t)
          else if c = CHR ''f'' then map_option (Pair (JBool False)) (strip ''alse'' t)
          else map_option (apfst JNum) (parse_num (c # t)))"
| "parse_elems 0 d s = None"
| "parse_elems (Suc f) d s =
     (case parse_value f d s of
        None \<Rightarrow> None
      | Some (x, r) \<Rightarrow>
          (case skip_ws r of
             [] \<Rightarrow> None
           | c # t \<Rightarrow>
               if c = CHR '','' then map_option (apfst ((#) x)) (parse_elems f d t)
               else if c = CHR '']'' then Some ([x], t)
               else None))"
| "parse_members 0 d s = None"
| "parse_members (Suc f) d s =
     (case skip_ws s of
        [] \<Rightarrow> None
      | q # t \<Rightarrow>
          if q \<noteq> dquote then None
          else case parse_string t of
                 None \<Rightarrow> None
               | Some (k, r) \<Rightarrow>
                   (case skip_ws r of
                      [] \<Rightarrow> None
                    | c # u \<Rightarrow>
                        if c \<noteq> CHR '':'' then None
                        else case parse_value f d u of
                               None \<Rightarrow> None
                             | Some (v, w) \<Rightarrow>
                                 (case skip_ws w of
                                    [] \<Rightarrow> None
                                  | c2 # x \<Rightarrow>
                                      if c2 = CHR '','' then
                                        map_option (apfst ((#) (k, v))) (parse_members f d x)
                                      else if c2 = CHR ''}'' then Some ([(k, v)], x)
                                      else None)))"

definition max_nesting :: nat where "max_nesting = 10000"

definition parse_fuel :: "string \<Rightarrow> nat" where
  "parse_fuel s = 2 * length s + 2"

definition json_first :: "string \<Rightarrow> (json \<times> string) option" where
  "json_first s = parse_value (parse_fuel s) max_nesting s"

text \<open>\<open>json.NewDecoder(r).Decode\<close>: the first value, whatever follows it.\<close>

definition json_decode :: "string \<Rightarrow> json option" where
  "json_decode s = map_option fst (json_first s)"

text \<open>\<open>json.Unmarshal\<close>: one value and nothing but white space after it.\<close>

definition json_unmarshal :: "string \<Rightarrow> json option" where
  "json_unmarshal s =
     (case json_first s of
        Some (v, r) \<Rightarrow> if skip_ws r = [] then Some v else None
      | None \<Rightarrow> None)"

section \<open>The fuel is enough\<close>

lemma strip_shorter: "strip p s = Some t \<Longrightarrow> length t \<le> length s"
  by (auto simp: strip_def split: if_splits)

lemma num_digits_shorter: "num_digits s = Some (x, t) \<Longrightarrow> length t < length s"
proof -
  assume a: "num_digits s = Some (x, t)"
  then have "takeWhile is_digit s \<noteq> []" "t = dropWhile is_digit s"
    by (auto simp: num_digits_def split: if_splits)
  moreover have "length s = length (takeWhile is_digit s) + length (dropWhile is_digit s)"
    by (metis length_append takeWhile_dropWhile_id)
  ultimately show ?thesis by (cases "takeWhile is_digit s") auto
qed

lemma num_sign_shorter: "num_sign s = (x, t) \<Longrightarrow> length t \<le> length s"
  by (auto simp: num_sign_def split: list.splits if_splits)

lemma num_int_shorter: "num_int s = Some (x, t) \<Longrightarrow> length t < length s"
  by (auto simp: num_int_def split: list.splits if_splits dest: num_digits_shorter)

lemma num_frac_shorter: "num_frac s = Some (x, t) \<Longrightarrow> length t \<le> length s"
  by (auto simp: num_frac_def split: list.splits if_splits dest!: num_digits_shorter)

lemma num_exp_shorter: "num_exp s = Some (x, t) \<Longrightarrow> length t \<le> length s"
  by (auto simp: num_exp_def split: list.splits if_splits dest!: num_digits_shorter)

lemma parse_num_shorter: "parse_num s = Some (x, t) \<Longrightarrow> length t < length s"
  unfolding parse_num_def
  by (fastforce split: option.splits prod.splits
      dest: num_sign_shorter num_int_shorter num_frac_shorter num_exp_shorter)

lemma skip_ws_ConsD: "skip_ws s = c # t \<Longrightarrow> length t < length s"
  using skip_ws_length [of s] by simp

lemmas parse_shorter_dests =
  skip_ws_ConsD parse_string_shorter strip_shorter parse_num_shorter

lemma parse_shorter:
  "parse_value f d s = Some (v, t) \<Longrightarrow> length t < length s"
  "parse_elems f d s = Some (vs, t') \<Longrightarrow> length t' < length s"
  "parse_members f d s = Some (ms, t'') \<Longrightarrow> length t'' < length s"
proof (induction f d s and f d s and f d s arbitrary: v t and vs t' and ms t''
    rule: parse_value_parse_elems_parse_members.induct)
  case (2 f d s)
  then show ?case
    by (fastforce split: list.splits if_splits option.splits dest: parse_shorter_dests)
next
  case (4 f d s)
  then show ?case
    by (fastforce split: list.splits if_splits option.splits dest: parse_shorter_dests)
next
  case (6 f d s)
  then show ?case
    by (fastforce split: list.splits if_splits option.splits dest: parse_shorter_dests)
qed simp_all

text \<open>Two amounts of fuel above the bound agree on every input shorter than \<open>n\<close>.\<close>

definition fuel_agrees :: "nat \<Rightarrow> bool" where
  "fuel_agrees n \<longleftrightarrow>
     (\<forall>s d f g. length s < n \<longrightarrow>
        (2 * length s + 1 \<le> f \<longrightarrow> 2 * length s + 1 \<le> g \<longrightarrow>
           parse_value f d s = parse_value g d s) \<and>
        (2 * length s + 2 \<le> f \<longrightarrow> 2 * length s + 2 \<le> g \<longrightarrow>
           parse_elems f d s = parse_elems g d s \<and> parse_members f d s = parse_members g d s))"

lemma fuel_agreesD:
  assumes "fuel_agrees n" and "length s < n"
  shows "2 * length s + 1 \<le> f \<Longrightarrow> 2 * length s + 1 \<le> g \<Longrightarrow> parse_value f d s = parse_value g d s"
    and "2 * length s + 2 \<le> f \<Longrightarrow> 2 * length s + 2 \<le> g \<Longrightarrow> parse_elems f d s = parse_elems g d s"
    and "2 * length s + 2 \<le> f \<Longrightarrow> 2 * length s + 2 \<le> g \<Longrightarrow> parse_members f d s = parse_members g d s"
  using assms unfolding fuel_agrees_def by blast+

lemma fuel_step_value:
  assumes ih: "fuel_agrees (length s)"
    and f: "2 * length s + 1 \<le> f" and g: "2 * length s + 1 \<le> g"
  shows "parse_value f d s = parse_value g d s"
proof (cases "skip_ws s")
  case Nil
  then show ?thesis using f g by (cases f; cases g) auto
next
  case (Cons c t)
  then have t: "length t < length s" by (rule skip_ws_ConsD)
  obtain f' g' where fg: "f = Suc f'" "g = Suc g'" using f g by (cases f; cases g) auto
  then have "2 * length t + 2 \<le> f'" "2 * length t + 2 \<le> g'" using f g t by auto
  then have "parse_elems f' e t = parse_elems g' e t" "parse_members f' e t = parse_members g' e t" for e
    using fuel_agreesD(2,3) [OF ih t] by blast+
  then show ?thesis unfolding fg by (simp add: Cons split: list.split)
qed

lemma fuel_step_elems:
  assumes ih: "fuel_agrees (length s)"
    and f: "2 * length s + 2 \<le> f" and g: "2 * length s + 2 \<le> g"
  shows "parse_elems f d s = parse_elems g d s"
proof -
  obtain f' g' where fg: "f = Suc f'" "g = Suc g'" using f g by (cases f; cases g) auto
  have v: "parse_value f' d s = parse_value g' d s"
    using f g fg by (intro fuel_step_value ih) auto
  have "parse_elems f' d t = parse_elems g' d t"
    if "parse_value g' d s = Some (x, r)" "skip_ws r = c # t" for x r c t
    using parse_shorter(1) [OF that(1)] skip_ws_ConsD [OF that(2)] f g fg
    by (intro fuel_agreesD(2) [OF ih]) auto
  then show ?thesis unfolding fg by (auto simp: v split: option.splits list.splits)
qed

lemma fuel_step_members:
  assumes ih: "fuel_agrees (length s)"
    and f: "2 * length s + 2 \<le> f" and g: "2 * length s + 2 \<le> g"
  shows "parse_members f d s = parse_members g d s"
proof -
  obtain f' g' where fg: "f = Suc f'" "g = Suc g'" using f g by (cases f; cases g) auto
  have v: "parse_value f' d u = parse_value g' d u"
    if "skip_ws s = q # t" "parse_string t = Some (k, r)" "skip_ws r = c # u" for q t k r c u
    using skip_ws_ConsD [OF that(1)] parse_string_shorter [OF that(2)] skip_ws_ConsD [OF that(3)] f g fg
    by (intro fuel_agreesD(1) [OF ih]) auto
  have "parse_members f' d x = parse_members g' d x"
    if "skip_ws s = q # t" "parse_string t = Some (k, r)" "skip_ws r = c # u"
      "parse_value g' d u = Some (y, w)" "skip_ws w = c2 # x" for q t k r c u y w c2 x
    using skip_ws_ConsD [OF that(1)] parse_string_shorter [OF that(2)] skip_ws_ConsD [OF that(3)]
      parse_shorter(1) [OF that(4)] skip_ws_ConsD [OF that(5)] f g fg
    by (intro fuel_agreesD(3) [OF ih]) auto
  then show ?thesis unfolding fg by (auto simp: v split: option.splits list.splits)
qed

lemma fuel_agrees_all: "fuel_agrees n"
proof (induction n)
  case 0
  then show ?case by (simp add: fuel_agrees_def)
next
  case (Suc n)
  have agrees: "fuel_agrees (length s)" if "length s < Suc n" for s :: string
    unfolding fuel_agrees_def
  proof (intro allI impI)
    fix u :: string and d f g
    assume "length u < length s"
    then have "length u < n" using that by simp
    from fuel_agreesD [OF Suc this]
    show "(2 * length u + 1 \<le> f \<longrightarrow> 2 * length u + 1 \<le> g \<longrightarrow>
             parse_value f d u = parse_value g d u) \<and>
          (2 * length u + 2 \<le> f \<longrightarrow> 2 * length u + 2 \<le> g \<longrightarrow>
             parse_elems f d u = parse_elems g d u \<and> parse_members f d u = parse_members g d u)"
      by blast
  qed
  show ?case
    unfolding fuel_agrees_def
    by (intro allI impI conjI fuel_step_value fuel_step_elems fuel_step_members agrees) assumption+
qed

theorem parse_fuel_enough:
  "2 * length s + 1 \<le> f \<Longrightarrow> parse_value f d s = parse_value (parse_fuel s) d s"
  by (rule fuel_agreesD(1) [OF fuel_agrees_all [of "Suc (length s)"]]) (auto simp: parse_fuel_def)

section \<open>The round trip\<close>

text \<open>What a printed document may hold: well-formed strings, decimal integers, and a
  nesting within the limit.\<close>

definition int_literal :: "string \<Rightarrow> bool" where
  "int_literal n \<longleftrightarrow>
     n = itoa (digits_val n) \<or> (n \<noteq> [] \<and> hd n = CHR ''-'' \<and> tl n = itoa (digits_val (tl n)))"

fun wf_json :: "json \<Rightarrow> bool" and wf_elems :: "json list \<Rightarrow> bool"
  and wf_members :: "(string \<times> json) list \<Rightarrow> bool" where
  "wf_json JNull \<longleftrightarrow> True"
| "wf_json (JBool b) \<longleftrightarrow> True"
| "wf_json (JNum n) \<longleftrightarrow> int_literal n"
| "wf_json (JStr s) \<longleftrightarrow> valid_utf8 s"
| "wf_json (JArr xs) \<longleftrightarrow> wf_elems xs"
| "wf_json (JObj ms) \<longleftrightarrow> wf_members ms"
| "wf_elems [] \<longleftrightarrow> True"
| "wf_elems (x # xs) \<longleftrightarrow> wf_json x \<and> wf_elems xs"
| "wf_members [] \<longleftrightarrow> True"
| "wf_members ((k, v) # ms) \<longleftrightarrow> valid_utf8 k \<and> wf_json v \<and> wf_members ms"

fun json_depth :: "json \<Rightarrow> nat" and elems_depth :: "json list \<Rightarrow> nat"
  and members_depth :: "(string \<times> json) list \<Rightarrow> nat" where
  "json_depth (JArr xs) = Suc (elems_depth xs)"
| "json_depth (JObj ms) = Suc (members_depth ms)"
| "json_depth _ = 0"
| "elems_depth [] = 0"
| "elems_depth (x # xs) = max (json_depth x) (elems_depth xs)"
| "members_depth [] = 0"
| "members_depth ((k, v) # ms) = max (json_depth v) (members_depth ms)"

definition num_stop :: "string \<Rightarrow> bool" where
  "num_stop t \<longleftrightarrow>
     t = [] \<or> (\<not> is_digit (hd t) \<and> hd t \<noteq> CHR ''.'' \<and> hd t \<noteq> CHR ''e'' \<and> hd t \<noteq> CHR ''E'')"

lemma num_stop_simps [simp]: "num_stop []" "num_stop (CHR '','' # t)" "num_stop (CHR '']'' # t)"
  "num_stop (CHR ''}'' # t)" "num_stop (CHR 0x0A # t)"
  by (simp_all add: num_stop_def is_digit_def)

lemma hd_itoa_zero: "hd (itoa k) = CHR ''0'' \<Longrightarrow> k = 0"
proof (induction k rule: itoa.induct)
  case (1 k)
  show ?case
  proof (cases "k < 10")
    case True
    then show ?thesis
      using "1.prems" digit_val_digit_char [of k] by (subst (asm) itoa.simps) (simp add: digit_val_def)
  next
    case False
    then have "hd (itoa k) = hd (itoa (k div 10))" by (subst itoa.simps) (simp add: hd_append)
    then show ?thesis using "1.IH" [OF False] "1.prems" False by simp
  qed
qed

lemma itoa_0 [simp]: "itoa 0 = ''0''"
  by (simp add: itoa.simps digit_char_def char_of_eq_iff)

lemma num_digits_itoa: "num_stop t \<Longrightarrow> num_digits (itoa k @ t) = Some (itoa k, t)"
proof -
  assume "num_stop t"
  then have "takeWhile is_digit t = []" by (cases t) (auto simp: num_stop_def)
  moreover have "dropWhile is_digit t = t" using \<open>num_stop t\<close> by (cases t) (auto simp: num_stop_def)
  ultimately show ?thesis using itoa_digits [of k] by (simp add: num_digits_def)
qed

lemma itoa_Cons: "\<exists>c u. itoa k = c # u \<and> is_digit c"
  using itoa_nonempty [of k] itoa_digits [of k] by (cases "itoa k") auto

lemma num_int_itoa: "num_stop t \<Longrightarrow> num_int (itoa k @ t) = Some (itoa k, t)"
proof (cases "hd (itoa k) = CHR ''0''")
  case True
  then show ?thesis using hd_itoa_zero [of k] by (simp add: num_int_def)
next
  case False
  assume "num_stop t"
  then show ?thesis
    using num_digits_itoa [of t k] False itoa_Cons [of k] by (auto simp: num_int_def)
qed

lemma not_digit_minus: "\<not> is_digit (CHR ''-'')"
  by (simp add: is_digit_def)

lemma parse_num_itoa: "num_stop t \<Longrightarrow> parse_num (itoa k @ t) = Some (itoa k, t)"
  using num_int_itoa [of t k] itoa_Cons [of k] not_digit_minus
  by (auto simp: parse_num_def num_sign_def num_frac_def num_exp_def num_stop_def split: list.splits)

lemma parse_num_neg: "num_stop t \<Longrightarrow> parse_num (CHR ''-'' # itoa k @ t) = Some (CHR ''-'' # itoa k, t)"
  using num_int_itoa [of t k]
  by (auto simp: parse_num_def num_sign_def num_frac_def num_exp_def num_stop_def split: list.splits)

lemma skip_ws_Cons [simp]: "\<not> is_space c \<Longrightarrow> skip_ws (c # t) = c # t"
  by (simp add: skip_ws_def)

lemma digit_not_space: "is_digit c \<Longrightarrow> \<not> is_space c"
  by (auto simp: is_digit_def is_space_def)

lemma not_space [simp]: "\<not> is_space dquote" "\<not> is_space (CHR ''['')" "\<not> is_space (CHR ''{'')"
  "\<not> is_space (CHR '','')" "\<not> is_space (CHR '']'')" "\<not> is_space (CHR ''}'')" "\<not> is_space (CHR '':'')"
  "\<not> is_space (CHR ''n'')" "\<not> is_space (CHR ''t'')" "\<not> is_space (CHR ''f'')" "\<not> is_space (CHR ''-'')"
  by (simp_all add: is_space_def)

text \<open>What a value starts with is neither white space nor a closing bracket.\<close>

lemma json_print_head:
  "wf_json j \<Longrightarrow> \<exists>c u. json_print j @ t = c # u \<and> \<not> is_space c \<and> c \<noteq> CHR '']'' \<and> c \<noteq> CHR ''}''"
proof (cases j)
  case (JNum n)
  assume "wf_json j"
  then show ?thesis
    using JNum itoa_Cons [of "digits_val n"] digit_not_space
    by (cases n) (auto simp: int_literal_def is_digit_def)
qed (auto simp: json_quote_def)

lemma parse_quote [simp]:
  "valid_utf8 s \<Longrightarrow> parse_string (quote_body s @ dquote # t) = Some (s, t)"
  by (rule parse_string_quote)

text \<open>With enough fuel, reading back what was printed gives the document and the rest.\<close>

definition reads_back :: "nat \<Rightarrow> nat \<Rightarrow> json \<Rightarrow> bool" where
  "reads_back f d j \<longleftrightarrow> (\<forall>t. num_stop t \<longrightarrow> parse_value f d (json_print j @ t) = Some (j, t))"

definition elems_back :: "nat \<Rightarrow> nat \<Rightarrow> json list \<Rightarrow> bool" where
  "elems_back f d xs \<longleftrightarrow> (\<forall>t. parse_elems f d (json_elems xs @ t) = Some (xs, t))"

definition members_back :: "nat \<Rightarrow> nat \<Rightarrow> (string \<times> json) list \<Rightarrow> bool" where
  "members_back f d ms \<longleftrightarrow> (\<forall>t. parse_members f d (json_members ms @ t) = Some (ms, t))"

lemma elems_back_single: "reads_back f d x \<Longrightarrow> elems_back (Suc f) d [x]"
  by (simp add: reads_back_def elems_back_def)

lemma elems_back_Cons: "reads_back f d x \<Longrightarrow> elems_back f d (y # xs) \<Longrightarrow> elems_back (Suc f) d (x # y # xs)"
  by (simp add: reads_back_def elems_back_def)

lemma members_back_single: "reads_back f d v \<Longrightarrow> valid_utf8 k \<Longrightarrow> members_back (Suc f) d [(k, v)]"
  by (simp add: reads_back_def members_back_def json_quote_def)

lemma members_back_Cons:
  "reads_back f d v \<Longrightarrow> valid_utf8 k \<Longrightarrow> members_back f d (m # ms) \<Longrightarrow> members_back (Suc f) d ((k, v) # m # ms)"
  by (simp add: reads_back_def members_back_def json_quote_def)

lemma json_elems_head:
  "wf_elems (x # xs) \<Longrightarrow> \<exists>c u. json_elems (x # xs) @ t = c # u \<and> \<not> is_space c \<and> c \<noteq> CHR '']''"
  using json_print_head [of x "CHR '']'' # t"]
    json_print_head [of x "CHR '','' # json_elems xs @ t"]
  by (cases xs) (fastforce dest: json_print_head)+

lemma reads_back_arr:
  assumes "wf_elems (x # xs)" and "elems_back f d (x # xs)"
  shows "reads_back (Suc f) (Suc d) (JArr (x # xs))"
  unfolding reads_back_def
proof (intro allI impI)
  fix t
  obtain c u where "json_elems (x # xs) @ t = c # u" "\<not> is_space c" "c \<noteq> CHR '']''"
    using json_elems_head [OF assms(1)] by blast
  moreover have "parse_elems f d (json_elems (x # xs) @ t) = Some (x # xs, t)"
    using assms(2) by (simp add: elems_back_def)
  ultimately show "parse_value (Suc f) (Suc d) (json_print (JArr (x # xs)) @ t) = Some (JArr (x # xs), t)"
    by (simp del: json_elems.simps)
qed

lemma reads_back_obj:
  assumes "members_back f d (m # ms)"
  shows "reads_back (Suc f) (Suc d) (JObj (m # ms))"
  unfolding reads_back_def
proof (intro allI impI)
  fix t
  have "\<exists>u. json_members (m # ms) @ t = dquote # u"
    by (cases m; cases ms) (auto simp: json_quote_def)
  moreover have "parse_members f d (json_members (m # ms) @ t) = Some (m # ms, t)"
    using assms by (simp add: members_back_def)
  ultimately show "parse_value (Suc f) (Suc d) (json_print (JObj (m # ms)) @ t) = Some (JObj (m # ms), t)"
    by (auto simp del: json_members.simps)
qed

lemma strip_append [simp]: "strip p (p @ t) = Some t"
  by (simp add: strip_def)

lemma reads_back_num:
  assumes "int_literal n"
  shows "reads_back (Suc f) d (JNum n)"
  unfolding reads_back_def
proof (intro allI impI)
  fix t
  assume t: "num_stop t"
  define k where "k = digits_val n"
  obtain c u where cu: "itoa k = c # u" "is_digit c" using itoa_Cons by blast
  have digit: "\<not> is_space c" "c \<notin> {dquote, CHR ''['', CHR ''{'', CHR ''n'', CHR ''t'', CHR ''f''}"
    using cu(2) digit_not_space by (auto simp: is_digit_def)
  show "parse_value (Suc f) d (json_print (JNum n) @ t) = Some (JNum n, t)"
  proof (cases "n = itoa k")
    case True
    then show ?thesis using parse_num_itoa [OF t, of k] cu digit by simp
  next
    case False
    with assms obtain m where "n = CHR ''-'' # itoa m"
      unfolding int_literal_def k_def by (metis list.collapse)
    then show ?thesis using parse_num_neg [OF t, of m] by simp
  qed
qed

lemma reads_back_atoms:
  "reads_back (Suc f) d JNull" "reads_back (Suc f) d (JBool b)"
  "valid_utf8 s \<Longrightarrow> reads_back (Suc f) d (JStr s)"
  "reads_back (Suc f) (Suc d) (JArr [])" "reads_back (Suc f) (Suc d) (JObj [])"
  using strip_append [of "''ull''"] strip_append [of "''rue''"] strip_append [of "''alse''"]
  by (simp_all add: reads_back_def json_quote_def)

text \<open>"With enough fuel" is "for all but finitely many amounts", so that facts about
  the parts combine by conjunction.\<close>

abbreviation enough :: "(nat \<Rightarrow> bool) \<Rightarrow> bool" where
  "enough P \<equiv> eventually P sequentially"

lemma enough_SucI: "enough P \<Longrightarrow> (\<And>f. P f \<Longrightarrow> Q (Suc f)) \<Longrightarrow> enough Q"
  by (metis (mono_tags, lifting) eventually_mono eventually_sequentially_Suc)

lemma enough_Suc2I:
  "enough P \<Longrightarrow> enough R \<Longrightarrow> (\<And>f. P f \<Longrightarrow> R f \<Longrightarrow> Q (Suc f)) \<Longrightarrow> enough Q"
  using enough_SucI [of "\<lambda>f. P f \<and> R f" Q] by (simp add: eventually_conj)

lemma enough_Suc0I: "(\<And>f. Q (Suc f)) \<Longrightarrow> enough Q"
  using enough_SucI [of "\<lambda>_. True" Q] by simp

lemma back_enough:
  "wf_json j \<Longrightarrow> json_depth j \<le> d \<Longrightarrow> enough (\<lambda>f. reads_back f d j)"
  "xs \<noteq> [] \<Longrightarrow> wf_elems xs \<Longrightarrow> elems_depth xs \<le> d \<Longrightarrow> enough (\<lambda>f. elems_back f d xs)"
  "ms \<noteq> [] \<Longrightarrow> wf_members ms \<Longrightarrow> members_depth ms \<le> d \<Longrightarrow> enough (\<lambda>f. members_back f d ms)"
proof (induction j and xs and ms arbitrary: d and d and d
    rule: json_print_json_elems_json_members.induct)
  case (5 xs)
  then obtain e where d: "d = Suc e" "elems_depth xs \<le> e" by (cases d) auto
  show ?case
  proof (cases xs)
    case (Cons y ys)
    with 5 d have "enough (\<lambda>f. elems_back f e (y # ys))" and wf: "wf_elems (y # ys)" by auto
    from this(1) show ?thesis
      unfolding d Cons by (rule enough_SucI) (rule reads_back_arr [OF wf])
  qed (auto simp: d intro!: enough_Suc0I reads_back_atoms)
next
  case (6 ms)
  then obtain e where d: "d = Suc e" "members_depth ms \<le> e" by (cases d) auto
  show ?case
  proof (cases ms)
    case (Cons y ys)
    with 6 d have "enough (\<lambda>f. members_back f e (y # ys))" by simp
    then show ?thesis
      unfolding d Cons by (rule enough_SucI) (rule reads_back_obj)
  qed (auto simp: d intro!: enough_Suc0I reads_back_atoms)
next
  case (8 x)
  then have "enough (\<lambda>f. reads_back f d x)" by simp
  then show ?case by (rule enough_SucI) (rule elems_back_single)
next
  case (9 x y xs)
  then have "enough (\<lambda>f. reads_back f d x)" "enough (\<lambda>f. elems_back f d (y # xs))" by simp_all
  then show ?case by (rule enough_Suc2I) (rule elems_back_Cons)
next
  case (11 k v)
  then have "enough (\<lambda>f. reads_back f d v)" and "valid_utf8 k" by simp_all
  from this(1) show ?case by (rule enough_SucI) (rule members_back_single [OF _ \<open>valid_utf8 k\<close>])
next
  case (12 k v m ms)
  then have "enough (\<lambda>f. reads_back f d v)" "enough (\<lambda>f. members_back f d (m # ms))" and "valid_utf8 k"
    by simp_all
  from this(1,2) show ?case
    by (rule enough_Suc2I) (rule members_back_Cons [OF _ \<open>valid_utf8 k\<close>])
qed (auto intro!: enough_Suc0I reads_back_atoms reads_back_num)

theorem json_first_print:
  assumes "wf_json j" and "json_depth j \<le> max_nesting" and "num_stop t"
  shows "json_first (json_print j @ t) = Some (j, t)"
proof -
  let ?s = "json_print j @ t"
  from back_enough(1) [OF assms(1,2)] obtain f0 where "\<And>f. f0 \<le> f \<Longrightarrow> reads_back f max_nesting j"
    by (auto simp: eventually_sequentially)
  then have "parse_value (max f0 (parse_fuel ?s)) max_nesting ?s = Some (j, t)"
    using assms(3) unfolding reads_back_def by (meson max.cobounded1)
  moreover have "2 * length ?s + 1 \<le> max f0 (parse_fuel ?s)" by (simp add: parse_fuel_def)
  ultimately show ?thesis using parse_fuel_enough unfolding json_first_def by metis
qed

corollary json_unmarshal_print:
  "wf_json j \<Longrightarrow> json_depth j \<le> max_nesting \<Longrightarrow> json_unmarshal (json_print j) = Some j"
  using json_first_print [of j "[]"] by (simp add: json_unmarshal_def skip_ws_def)

text \<open>An \<open>Encoder\<close> ends the value with a newline; a \<open>Decoder\<close> reads the value before it.\<close>

corollary json_decode_encode:
  "wf_json j \<Longrightarrow> json_depth j \<le> max_nesting \<Longrightarrow> json_decode (json_print j @ [CHR 0x0A]) = Some j"
  using json_first_print [of j "[CHR 0x0A]"] by (simp add: json_decode_def)

section \<open>What a reader returns is well-formed UTF-8\<close>

fun utf8_json :: "json \<Rightarrow> bool" and utf8_elems :: "json list \<Rightarrow> bool"
  and utf8_members :: "(string \<times> json) list \<Rightarrow> bool" where
  "utf8_json (JStr s) \<longleftrightarrow> valid_utf8 s"
| "utf8_json (JArr xs) \<longleftrightarrow> utf8_elems xs"
| "utf8_json (JObj ms) \<longleftrightarrow> utf8_members ms"
| "utf8_json _ \<longleftrightarrow> True"
| "utf8_elems [] \<longleftrightarrow> True"
| "utf8_elems (x # xs) \<longleftrightarrow> utf8_json x \<and> utf8_elems xs"
| "utf8_members [] \<longleftrightarrow> True"
| "utf8_members ((k, v) # ms) \<longleftrightarrow> valid_utf8 k \<and> utf8_json v \<and> utf8_members ms"

lemma parse_utf8:
  "parse_value f d s = Some (v, t) \<Longrightarrow> utf8_json v"
  "parse_elems f d s = Some (vs, t') \<Longrightarrow> utf8_elems vs"
  "parse_members f d s = Some (ms, t'') \<Longrightarrow> utf8_members ms"
proof (induction f d s and f d s and f d s arbitrary: v t and vs t' and ms t''
    rule: parse_value_parse_elems_parse_members.induct)
  case (2 f d s)
  then show ?case
    by (fastforce split: list.splits if_splits option.splits dest: parse_string_valid)
next
  case (4 f d s)
  then show ?case
    by (fastforce split: list.splits if_splits option.splits)
next
  case (6 f d s)
  then show ?case
    by (fastforce split: list.splits if_splits option.splits dest: parse_string_valid)
qed simp_all

lemma json_first_utf8: "json_first s = Some (v, t) \<Longrightarrow> utf8_json v"
  unfolding json_first_def by (rule parse_utf8)

lemma json_unmarshal_utf8: "json_unmarshal s = Some v \<Longrightarrow> utf8_json v"
  by (auto simp: json_unmarshal_def split: option.splits if_splits dest: json_first_utf8)

lemma json_decode_utf8: "json_decode s = Some v \<Longrightarrow> utf8_json v"
  by (auto simp: json_decode_def dest: json_first_utf8)

lemma utf8_members_iff: "utf8_members ms \<longleftrightarrow> (\<forall>(k, v) \<in> set ms. valid_utf8 k \<and> utf8_json v)"
  by (induction ms) auto

lemma wf_members_iff: "wf_members ms \<longleftrightarrow> (\<forall>(k, v) \<in> set ms. valid_utf8 k \<and> wf_json v)"
  by (induction ms) auto

lemma wf_elems_iff: "wf_elems xs \<longleftrightarrow> (\<forall>x \<in> set xs. wf_json x)"
  by (induction xs) auto

lemma int_literal_itoa [simp]: "int_literal (itoa n)"
  by (simp add: int_literal_def)

section \<open>Struct fields\<close>

text \<open>
  An object member goes to the field with its exact name, else to the first field whose
  name matches under case folding; other members are ignored.  Folding a name to ASCII
  takes \<open>U+017F\<close> (long s) to \<open>s\<close> and \<open>U+212A\<close> (Kelvin) to \<open>k\<close>.
\<close>

definition lower :: "char \<Rightarrow> char" where
  "lower c = (if 65 \<le> byte c \<and> byte c \<le> 90 then char_of (byte c + 32) else c)"

fun fold_name :: "string \<Rightarrow> string" where
  "fold_name (a # b # c # t) =
     (if [a, b] = utf8_enc 0x17F then CHR ''s'' # fold_name (c # t)
      else if [a, b, c] = utf8_enc 0x212A then CHR ''k'' # fold_name t
      else lower a # fold_name (b # c # t))"
| "fold_name [a, b] = (if [a, b] = utf8_enc 0x17F then ''s'' else [lower a, lower b])"
| "fold_name [a] = [lower a]"
| "fold_name [] = []"

definition match_field :: "string list \<Rightarrow> string \<Rightarrow> string option" where
  "match_field fields name =
     (if name \<in> set fields then Some name
      else find (\<lambda>f. fold_name f = fold_name name) fields)"

lemma match_field_exact [simp]: "name \<in> set fields \<Longrightarrow> match_field fields name = Some name"
  by (simp add: match_field_def)

text \<open>Decoding into a struct: \<open>set_field f v x\<close> stores the value \<open>v\<close> in field \<open>f\<close> of \<open>x\<close>, or
  reports a type mismatch, on which the decoder goes on and returns the error at the end.
  JSON \<open>null\<close> leaves a struct as it is; any other value that is no object is an error.\<close>

fun decode_members ::
  "string list \<Rightarrow> (string \<Rightarrow> json \<Rightarrow> 'a \<Rightarrow> 'a \<times> bool) \<Rightarrow> (string \<times> json) list \<Rightarrow> 'a \<Rightarrow> 'a \<times> bool" where
  "decode_members fields set_field [] x = (x, True)"
| "decode_members fields set_field ((k, v) # ms) x =
     (case match_field fields k of
        None \<Rightarrow> decode_members fields set_field ms x
      | Some f \<Rightarrow>
          let (y, ok) = set_field f v x; (z, ok') = decode_members fields set_field ms y
          in (z, ok \<and> ok'))"

definition decode_struct ::
  "string list \<Rightarrow> (string \<Rightarrow> json \<Rightarrow> 'a \<Rightarrow> 'a \<times> bool) \<Rightarrow> json \<Rightarrow> 'a \<Rightarrow> 'a \<times> bool" where
  "decode_struct fields set_field j x =
     (case j of
        JObj ms \<Rightarrow> decode_members fields set_field ms x
      | JNull \<Rightarrow> (x, True)
      | _ \<Rightarrow> (x, False))"

text \<open>A value for a string field: a string is stored, \<open>null\<close> changes nothing.\<close>

definition string_value :: "json \<Rightarrow> string \<Rightarrow> string \<times> bool" where
  "string_value v old = (case v of JStr s \<Rightarrow> (s, True) | JNull \<Rightarrow> (old, True) | _ \<Rightarrow> (old, False))"

text \<open>An invariant that every field assignment keeps holds of the decoded struct.\<close>

lemma decode_members_invariant:
  assumes "P x" and "\<forall>(k, v) \<in> set ms. Q v"
    and "\<And>f v y. f \<in> set fields \<Longrightarrow> Q v \<Longrightarrow> P y \<Longrightarrow> P (fst (set_field f v y))"
  shows "P (fst (decode_members fields set_field ms x))"
  using assms(1,2)
proof (induction ms arbitrary: x)
  case (Cons m ms)
  obtain k v where m: "m = (k, v)" by force
  show ?case
  proof (cases "match_field fields k")
    case (Some f)
    then have "f \<in> set fields"
      by (auto simp: match_field_def find_Some_iff split: if_splits)
    with Cons.prems m have "P (fst (set_field f v x))" by (intro assms(3)) auto
    with Cons m Some show ?thesis by (simp add: case_prod_beta Let_def)
  qed (use Cons m in simp)
qed simp

end
