(* ===== verification/Kv_Fsm.thy ===== *)
theory Kv_Fsm imports Replicated_Machine Go_Json begin

text \<open>
  \<open>internal/fsm/fsm.go\<close>: the key-value state machine that every node feeds with the
  committed log.  A command travels as JSON in \<open>log.Data\<close>; \<open>Apply\<close> decodes it, changes the
  map, records it in a history of 100 entries and starts the listeners; \<open>Snapshot\<close>,
  \<open>Persist\<close> and \<open>Restore\<close> move the map through a snapshot file.

  A nil Go map is \<open>None\<close>: reading it is allowed, writing it panics, and a panic is the
  result \<open>None\<close>.  A goroutine that runs a listener is an entry of the returned list.
  The mutex makes every method one atomic step.

  \<open>time.Time\<close> is written and read as RFC 3339 text in the process's time zone, which is
  the argument \<open>tz\<close>.  The library reads that text from the raw bytes of the JSON string,
  the model from the decoded string: the two differ on a time stamp written with escapes,
  which the program never writes and the library refuses.
\<close>

section \<open>Data\<close>

definition OpSet :: string where "OpSet = ''SET''"
definition OpDelete :: string where "OpDelete = ''DELETE''"

record command =
  cmd_Op :: string
  cmd_Key :: string
  cmd_Value :: string
  cmd_Timestamp :: time
  cmd_ClientID :: string

record applied_entry =
  ae_Index :: u64
  ae_Term :: u64
  ae_Command :: command
  ae_AppliedAt :: time

record fsm_server =
  sv_ID :: string
  sv_Address :: string
  sv_Voter :: bool

record config_entry =
  ce_Index :: u64
  ce_Servers :: "fsm_server list"

text \<open>From \<open>hashicorp/raft\<close>: a log entry and a configuration.\<close>

record raft_log =
  log_Index :: u64
  log_Term :: u64
  log_Data :: string

datatype suffrage = Voter | Nonvoter | Staging

record raft_server =
  rs_ID :: string
  rs_Address :: string
  rs_Suffrage :: suffrage

text \<open>A listener is known by a number; a goroutine that calls it carries its argument.\<close>

datatype fsm_go = GoApply nat applied_entry | GoConfig nat config_entry | GoRestore nat nat

datatype fsm_error = UnmarshalFailed | UnknownOperation string | SnapshotDecodeFailed | SinkFailed

record kv_fsm =
  f_data :: "(string \<rightharpoonup> string) option"
  f_history :: "applied_entry list"
  f_callbacks :: "nat list"
  f_configCallbacks :: "nat list"
  f_restoreCallback :: "nat option"

definition NewKVStoreFSM :: kv_fsm where
  "NewKVStoreFSM =
     \<lparr>f_data = Some Map.empty, f_history = [], f_callbacks = [], f_configCallbacks = [],
      f_restoreCallback = None\<rparr>"

definition RegisterApplyCallback :: "kv_fsm \<Rightarrow> nat \<Rightarrow> kv_fsm" where
  "RegisterApplyCallback f cb = f\<lparr>f_callbacks := f_callbacks f @ [cb]\<rparr>"

definition RegisterApplyConfigCallback :: "kv_fsm \<Rightarrow> nat \<Rightarrow> kv_fsm" where
  "RegisterApplyConfigCallback f cb = f\<lparr>f_configCallbacks := f_configCallbacks f @ [cb]\<rparr>"

definition RegisterRestoreCallback :: "kv_fsm \<Rightarrow> nat \<Rightarrow> kv_fsm" where
  "RegisterRestoreCallback f cb = f\<lparr>f_restoreCallback := Some cb\<rparr>"

section \<open>Commands as JSON\<close>

record time_zone =
  tz_format :: "time \<Rightarrow> string"
  tz_parse :: "string \<Rightarrow> time option"

definition zero_command :: command where
  "zero_command =
     \<lparr>cmd_Op = [], cmd_Key = [], cmd_Value = [], cmd_Timestamp = 0, cmd_ClientID = []\<rparr>"

text \<open>The struct tags: \<open>value\<close> and \<open>client_id\<close> are left out when empty.\<close>

definition omit_empty :: "string \<Rightarrow> string \<Rightarrow> (string \<times> json) list" where
  "omit_empty name s = (if s = [] then [] else [(name, JStr s)])"

definition command_json :: "time_zone \<Rightarrow> command \<Rightarrow> json" where
  "command_json tz c =
     JObj ([(''op'', JStr (cmd_Op c)), (''key'', JStr (cmd_Key c))]
           @ omit_empty ''value'' (cmd_Value c)
           @ [(''timestamp'', JStr (tz_format tz (cmd_Timestamp c)))]
           @ omit_empty ''client_id'' (cmd_ClientID c))"

definition marshal_command :: "time_zone \<Rightarrow> command \<Rightarrow> string" where
  "marshal_command tz c = json_print (command_json tz c)"

definition command_fields :: "string list" where
  "command_fields = [''op'', ''key'', ''value'', ''timestamp'', ''client_id'']"

definition set_command_field :: "time_zone \<Rightarrow> string \<Rightarrow> json \<Rightarrow> command \<Rightarrow> command \<times> bool" where
  "set_command_field tz f v c =
     (if f = ''op'' then let (s, ok) = string_value v (cmd_Op c) in (c\<lparr>cmd_Op := s\<rparr>, ok)
      else if f = ''key'' then let (s, ok) = string_value v (cmd_Key c) in (c\<lparr>cmd_Key := s\<rparr>, ok)
      else if f = ''value'' then let (s, ok) = string_value v (cmd_Value c) in (c\<lparr>cmd_Value := s\<rparr>, ok)
      else if f = ''client_id'' then
        let (s, ok) = string_value v (cmd_ClientID c) in (c\<lparr>cmd_ClientID := s\<rparr>, ok)
      else
        (case v of
           JNull \<Rightarrow> (c, True)
         | JStr s \<Rightarrow>
             (case tz_parse tz s of Some t \<Rightarrow> (c\<lparr>cmd_Timestamp := t\<rparr>, True) | None \<Rightarrow> (c, False))
         | _ \<Rightarrow> (c, False)))"

definition unmarshal_command :: "time_zone \<Rightarrow> string \<Rightarrow> command option" where
  "unmarshal_command tz s =
     (case json_unmarshal s of
        None \<Rightarrow> None
      | Some j \<Rightarrow>
          let (c, ok) = decode_struct command_fields (set_command_field tz) j zero_command
          in if ok then Some c else None)"

section \<open>Apply\<close>

text \<open>The history keeps 100 entries: the oldest goes when a new one comes.\<close>

definition push_history :: "applied_entry list \<Rightarrow> applied_entry \<Rightarrow> applied_entry list" where
  "push_history h e = (if 100 \<le> length h then tl h else h) @ [e]"

interpretation fsm_history: bounded_log push_history 100
  by unfold_locales (auto simp: push_history_def last_n_def drop_Suc)

definition Apply ::
  "time_zone \<Rightarrow> time \<Rightarrow> raft_log \<Rightarrow> kv_fsm \<Rightarrow> (kv_fsm \<times> fsm_error option \<times> fsm_go list) option" where
  "Apply tz now log f =
     (case unmarshal_command tz (log_Data log) of
        None \<Rightarrow> Some (f, Some UnmarshalFailed, [])
      | Some cmd \<Rightarrow>
          let applied = \<lparr>ae_Index = log_Index log, ae_Term = log_Term log, ae_Command = cmd,
                         ae_AppliedAt = now\<rparr>;
              record_it = (\<lambda>f'. (f'\<lparr>f_history := push_history (f_history f') applied\<rparr>, None,
                                 map (\<lambda>cb. GoApply cb applied) (f_callbacks f')))
          in if cmd_Op cmd = OpSet then
               (case f_data f of
                  None \<Rightarrow> None
                | Some m \<Rightarrow> Some (record_it (f\<lparr>f_data := Some (m(cmd_Key cmd \<mapsto> cmd_Value cmd))\<rparr>)))
             else if cmd_Op cmd = OpDelete then
               Some (record_it (f\<lparr>f_data := map_option (\<lambda>m. m(cmd_Key cmd := None)) (f_data f)\<rparr>))
             else Some (f, Some (UnknownOperation (cmd_Op cmd)), []))"

section \<open>Membership changes\<close>

definition applyConfigurationFromLog ::
  "u64 \<Rightarrow> raft_server list \<Rightarrow> kv_fsm \<Rightarrow> fsm_go list" where
  "applyConfigurationFromLog index config f =
     (let servers = map (\<lambda>s. \<lparr>sv_ID = rs_ID s, sv_Address = rs_Address s,
                              sv_Voter = (rs_Suffrage s = Voter)\<rparr>) config;
          entry = \<lparr>ce_Index = index, ce_Servers = servers\<rparr>
      in map (\<lambda>cb. GoConfig cb entry) (f_configCallbacks f))"

definition StoreConfiguration :: "u64 \<Rightarrow> raft_server list \<Rightarrow> kv_fsm \<Rightarrow> fsm_go list" where
  "StoreConfiguration index config f = applyConfigurationFromLog index config f"

section \<open>Reads\<close>

definition fsm_Get :: "kv_fsm \<Rightarrow> string \<Rightarrow> string \<times> bool" where
  "fsm_Get f k =
     (case f_data f of
        None \<Rightarrow> ([], False)
      | Some m \<Rightarrow> (case m k of None \<Rightarrow> ([], False) | Some v \<Rightarrow> (v, True)))"

definition fsm_GetAll :: "kv_fsm \<Rightarrow> (string \<rightharpoonup> string) option" where
  "fsm_GetAll f = f_data f"

definition fsm_GetHistory :: "kv_fsm \<Rightarrow> applied_entry list" where
  "fsm_GetHistory f = f_history f"

section \<open>Snapshots\<close>

record kv_snapshot =
  ks_data :: "(string \<rightharpoonup> string) option"

definition Snapshot :: "kv_fsm \<Rightarrow> kv_snapshot" where
  "Snapshot f = \<lparr>ks_data = f_data f\<rparr>"

text \<open>A Go map is written with its keys in order, a nil map as \<open>null\<close>.\<close>

definition string_map_json :: "(string \<rightharpoonup> string) option \<Rightarrow> json" where
  "string_map_json d =
     (case d of
        None \<Rightarrow> JNull
      | Some m \<Rightarrow> JObj (map (\<lambda>k. (k, JStr (the (m k)))) (sorted_keys (dom m))))"

record snapshot_sink =
  sink_data :: string
  sink_closed :: bool
  sink_cancelled :: bool

text \<open>What the sink answers: how many bytes a failing \<open>Write\<close> still took (\<open>None\<close> for one
  that succeeds), and whether \<open>Close\<close> succeeds.\<close>

definition Persist ::
  "nat option \<Rightarrow> bool \<Rightarrow> kv_snapshot \<Rightarrow> snapshot_sink \<Rightarrow> snapshot_sink \<times> fsm_error option" where
  "Persist write_failure close_ok s sink =
     (let bytes = json_print (string_map_json (ks_data s)) @ [CHR 0x0A] in
      case write_failure of
        Some k \<Rightarrow> (sink\<lparr>sink_data := sink_data sink @ take k bytes, sink_cancelled := True\<rparr>, Some SinkFailed)
      | None \<Rightarrow>
           let sink1 = sink\<lparr>sink_data := sink_data sink @ bytes\<rparr>
           in if \<not> close_ok then (sink1\<lparr>sink_cancelled := True\<rparr>, Some SinkFailed)
              else (sink1\<lparr>sink_closed := True\<rparr>, None))"

fun decode_string_members :: "(string \<times> json) list \<Rightarrow> (string \<rightharpoonup> string) \<Rightarrow> (string \<rightharpoonup> string) option" where
  "decode_string_members [] m = Some m"
| "decode_string_members ((k, v) # ms) m =
     (case v of
        JStr s \<Rightarrow> decode_string_members ms (m(k \<mapsto> s))
      | JNull \<Rightarrow> decode_string_members ms (m(k \<mapsto> []))
      | _ \<Rightarrow> None)"

text \<open>\<open>Decode(&data)\<close> into a nil \<open>map[string]string\<close>: an object makes a map, \<open>null\<close> leaves
  it nil, anything else is an error.\<close>

definition decode_string_map :: "json \<Rightarrow> (string \<rightharpoonup> string) option option" where
  "decode_string_map j =
     (case j of
        JObj ms \<Rightarrow> map_option Some (decode_string_members ms Map.empty)
      | JNull \<Rightarrow> Some None
      | _ \<Rightarrow> None)"

definition map_len :: "(string \<rightharpoonup> 'v) option \<Rightarrow> nat" where
  "map_len d = (case d of None \<Rightarrow> 0 | Some m \<Rightarrow> card (dom m))"

definition Restore :: "string \<Rightarrow> kv_fsm \<Rightarrow> kv_fsm \<times> fsm_error option \<times> fsm_go list" where
  "Restore rc f =
     (case json_decode rc of
        None \<Rightarrow> (f, Some SnapshotDecodeFailed, [])
      | Some j \<Rightarrow>
          (case decode_string_map j of
             None \<Rightarrow> (f, Some SnapshotDecodeFailed, [])
           | Some data \<Rightarrow>
               (f\<lparr>f_data := data\<rparr>, None,
                case f_restoreCallback f of None \<Rightarrow> [] | Some cb \<Rightarrow> [GoRestore cb (map_len data)])))"

end
