(* ===== verification/Kv_Fsm_Props.thy ===== *)
theory Kv_Fsm_Props imports Kv_Fsm begin

text \<open>
  Lemmas on the state machine of \<open>internal/fsm/fsm.go\<close>: its well-formedness and that
  every operation keeps it, the round trips of commands and snapshots, and the
  interpretation of \<open>replicated_machine\<close> on \<open>Apply\<close>.
\<close>

section \<open>Well-formed states\<close>

definition utf8_map :: "(string \<rightharpoonup> string) \<Rightarrow> bool" where
  "utf8_map m \<longleftrightarrow> finite (dom m) \<and> (\<forall>k v. m k = Some v \<longrightarrow> valid_utf8 k \<and> valid_utf8 v)"

text \<open>The map is never nil, holds well-formed strings only, and the history is capped.\<close>

definition fsm_ok :: "kv_fsm \<Rightarrow> bool" where
  "fsm_ok f \<longleftrightarrow> (\<exists>m. f_data f = Some m \<and> utf8_map m) \<and> length (f_history f) \<le> 100"

definition view :: "kv_fsm \<Rightarrow> (string \<rightharpoonup> string)" where
  "view f = (case f_data f of None \<Rightarrow> Map.empty | Some m \<Rightarrow> m)"

lemma data_is_view: "fsm_ok f \<Longrightarrow> f_data f = Some (view f)"
  by (auto simp: fsm_ok_def view_def)

lemma utf8_map_empty [simp]: "utf8_map Map.empty"
  by (simp add: utf8_map_def)

lemma utf8_map_upd: "utf8_map m \<Longrightarrow> valid_utf8 k \<Longrightarrow> valid_utf8 v \<Longrightarrow> utf8_map (m(k \<mapsto> v))"
  by (auto simp: utf8_map_def)

lemma utf8_map_del: "utf8_map m \<Longrightarrow> utf8_map (m(k := None))"
  by (auto simp: utf8_map_def)

lemma fsm_okE:
  assumes "fsm_ok f"
  obtains m where "f_data f = Some m" "utf8_map m" "length (f_history f) \<le> 100"
  using assms by (auto simp: fsm_ok_def)

lemma New_fields [simp]:
  "f_data NewKVStoreFSM = Some Map.empty" "f_history NewKVStoreFSM = []"
  "f_callbacks NewKVStoreFSM = []" "f_configCallbacks NewKVStoreFSM = []"
  "f_restoreCallback NewKVStoreFSM = None"
  by (simp_all add: NewKVStoreFSM_def)

lemma fsm_ok_New [simp]: "fsm_ok NewKVStoreFSM"
  by (simp add: fsm_ok_def)

lemma fsm_ok_Register [simp]:
  "fsm_ok (RegisterApplyCallback f cb) = fsm_ok f"
  "fsm_ok (RegisterApplyConfigCallback f cb) = fsm_ok f"
  "fsm_ok (RegisterRestoreCallback f cb) = fsm_ok f"
  by (simp_all add: fsm_ok_def RegisterApplyCallback_def RegisterApplyConfigCallback_def
      RegisterRestoreCallback_def)

section \<open>Decoded commands\<close>

lemma string_value_utf8:
  "utf8_json v \<Longrightarrow> valid_utf8 old \<Longrightarrow> valid_utf8 (fst (string_value v old))"
  by (cases v) (auto simp: string_value_def)

definition utf8_command :: "command \<Rightarrow> bool" where
  "utf8_command c \<longleftrightarrow> valid_utf8 (cmd_Op c) \<and> valid_utf8 (cmd_Key c) \<and> valid_utf8 (cmd_Value c)"

lemma set_command_field_utf8:
  assumes "utf8_json v" and "utf8_command c"
  shows "utf8_command (fst (set_command_field tz f v c))"
  using assms string_value_utf8 [OF assms(1)]
  by (auto simp: set_command_field_def utf8_command_def case_prod_beta Let_def
      split: json.splits option.splits)

text \<open>Whatever bytes a log entry holds, the key and value decoded from it are well-formed.\<close>

lemma unmarshal_command_utf8:
  assumes "unmarshal_command tz s = Some c"
  shows "valid_utf8 (cmd_Key c)" "valid_utf8 (cmd_Value c)"
proof -
  from assms obtain j where j: "json_unmarshal s = Some j"
    and c: "c = fst (decode_struct command_fields (set_command_field tz) j zero_command)"
    by (auto simp: unmarshal_command_def case_prod_beta Let_def split: option.splits if_splits)
  have u: "utf8_json j" by (rule json_unmarshal_utf8 [OF j])
  have z: "utf8_command zero_command" by (simp add: utf8_command_def zero_command_def)
  have "utf8_command c"
  proof (cases j)
    case (JObj ms)
    then have "\<forall>(k, v) \<in> set ms. utf8_json v" using u by (auto simp: utf8_members_iff)
    from decode_members_invariant [where P = utf8_command and Q = utf8_json, OF z this]
    show ?thesis unfolding c using JObj by (simp add: decode_struct_def set_command_field_utf8)
  qed (use z c in \<open>simp_all add: decode_struct_def\<close>)
  then show "valid_utf8 (cmd_Key c)" "valid_utf8 (cmd_Value c)" by (simp_all add: utf8_command_def)
qed

section \<open>Apply, branch by branch\<close>

definition operation :: "time_zone \<Rightarrow> raft_log \<Rightarrow> kv_op option" where
  "operation tz log =
     (case unmarshal_command tz (log_Data log) of
        None \<Rightarrow> None
      | Some c \<Rightarrow>
          if cmd_Op c = OpSet then Some (KvSet (cmd_Key c) (cmd_Value c))
          else if cmd_Op c = OpDelete then Some (KvDelete (cmd_Key c))
          else None)"

lemma OpSet_OpDelete [simp]: "OpSet \<noteq> OpDelete" "OpDelete \<noteq> OpSet"
  by (simp_all add: OpSet_def OpDelete_def)

definition entry_of :: "time_zone \<Rightarrow> time \<Rightarrow> raft_log \<Rightarrow> applied_entry" where
  "entry_of tz now log =
     \<lparr>ae_Index = log_Index log, ae_Term = log_Term log,
      ae_Command = the (unmarshal_command tz (log_Data log)), ae_AppliedAt = now\<rparr>"

text \<open>An entry with an operation changes the map, grows the history and starts every
  listener with the entry; any other entry reports an error and changes nothing.\<close>

lemma Apply_operation:
  assumes "fsm_ok f" and "operation tz log = Some k"
  shows "Apply tz now log f =
     Some (f\<lparr>f_data := Some (kv_exec k (view f)),
             f_history := push_history (f_history f) (entry_of tz now log)\<rparr>,
           None, map (\<lambda>cb. GoApply cb (entry_of tz now log)) (f_callbacks f))"
  using assms
  by (auto simp: fsm_ok_def operation_def Apply_def view_def entry_of_def Let_def
      split: option.splits if_splits)

lemma Apply_no_operation:
  assumes "operation tz log = None"
  shows "\<exists>e. Apply tz now log f = Some (f, Some e, [])"
  using assms by (auto simp: operation_def Apply_def Let_def split: option.splits if_splits)

lemma operation_utf8:
  assumes "operation tz log = Some k" and "utf8_map m"
  shows "utf8_map (kv_exec k m)"
  using assms unmarshal_command_utf8
  by (auto simp: operation_def utf8_map_upd utf8_map_del split: option.splits if_splits)

definition apply_step :: "time_zone \<Rightarrow> kv_fsm \<Rightarrow> raft_log \<times> time \<Rightarrow> kv_fsm" where
  "apply_step tz f l = (case Apply tz (snd l) (fst l) f of None \<Rightarrow> f | Some (f', _) \<Rightarrow> f')"

lemma Apply_ok:
  assumes "fsm_ok f"
  shows "\<exists>f' e gs. Apply tz now log f = Some (f', e, gs) \<and> fsm_ok f' \<and>
           view f' = kv_exec_opt (operation tz log) (view f)"
proof (cases "operation tz log")
  case None
  then show ?thesis using Apply_no_operation [of tz log now f] assms by auto
next
  case (Some k)
  obtain m where m: "f_data f = Some m" "utf8_map m" "length (f_history f) \<le> 100"
    using assms by (rule fsm_okE)
  then have "utf8_map (kv_exec k m)" using operation_utf8 [OF Some] by blast
  then show ?thesis
    using Apply_operation [OF assms Some] m fsm_history.push_bound
    by (simp add: fsm_ok_def view_def Some)
qed

interpretation rsm: replicated_machine "apply_step tz" view "\<lambda>l. operation tz (fst l)" fsm_ok
proof unfold_locales
  fix f :: kv_fsm and l :: "raft_log \<times> time"
  assume "fsm_ok f"
  then obtain f' e gs where "Apply tz (snd l) (fst l) f = Some (f', e, gs)" "fsm_ok f'"
    "view f' = kv_exec_opt (operation tz (fst l)) (view f)"
    using Apply_ok by blast
  then show "fsm_ok (apply_step tz f l)"
    and "view (apply_step tz f l) = kv_exec_opt (operation tz (fst l)) (view f)"
    by (simp_all add: apply_step_def)
qed

section \<open>Commands survive the log\<close>

definition time_survives :: "time_zone \<Rightarrow> time \<Rightarrow> bool" where
  "time_survives tz t \<longleftrightarrow> tz_parse tz (tz_format tz t) = Some t \<and> valid_utf8 (tz_format tz t)"

lemma valid_utf8_names [simp]:
  "valid_utf8 ''op''" "valid_utf8 ''key''" "valid_utf8 ''value''" "valid_utf8 ''timestamp''"
  "valid_utf8 ''client_id''"
  by simp_all

lemma match_command_field [simp]: "name \<in> set command_fields \<Longrightarrow> match_field command_fields name = Some name"
  by (rule match_field_exact)

theorem unmarshal_marshal_command:
  assumes "valid_utf8 (cmd_Op c)" "valid_utf8 (cmd_Key c)" "valid_utf8 (cmd_Value c)"
    "valid_utf8 (cmd_ClientID c)" and "time_survives tz (cmd_Timestamp c)"
  shows "unmarshal_command tz (marshal_command tz c) = Some c"
proof -
  have "wf_json (command_json tz c)" "json_depth (command_json tz c) \<le> max_nesting"
    using assms by (auto simp: command_json_def omit_empty_def time_survives_def max_nesting_def)
  then have "json_unmarshal (marshal_command tz c) = Some (command_json tz c)"
    unfolding marshal_command_def by (rule json_unmarshal_print)
  moreover have "decode_struct command_fields (set_command_field tz) (command_json tz c) zero_command
      = (c, True)"
    using assms(5)
    by (auto simp: command_json_def omit_empty_def decode_struct_def set_command_field_def
        command_fields_def zero_command_def string_value_def time_survives_def Let_def)
  ultimately show ?thesis by (simp add: unmarshal_command_def)
qed

section \<open>Snapshots\<close>

lemma string_map_json_wf:
  assumes "utf8_map m"
  shows "wf_json (string_map_json (Some m))" "json_depth (string_map_json (Some m)) \<le> max_nesting"
proof -
  have d: "members_depth (map (\<lambda>k. (k, JStr (the (m k)))) ks) = 0" for ks by (induction ks) auto
  show "wf_json (string_map_json (Some m))"
    using assms by (auto simp: string_map_json_def wf_members_iff utf8_map_def)
  show "json_depth (string_map_json (Some m)) \<le> max_nesting"
    by (simp add: string_map_json_def d max_nesting_def)
qed

lemma decode_string_members_map:
  "decode_string_members (map (\<lambda>k. (k, JStr (f k))) ks) m = Some (m ++ map_of (map (\<lambda>k. (k, f k)) (rev ks)))"
  by (induction ks arbitrary: m) (auto simp: map_add_def map_of_append split: option.splits)

lemma decode_string_map_json:
  assumes "finite (dom m)"
  shows "decode_string_map (string_map_json (Some m)) = Some (Some m)"
proof -
  have "map_of (map (\<lambda>k. (k, the (m k))) (rev (sorted_keys (dom m)))) = m"
    using assms by (intro ext) (auto simp: map_of_map_restrict restrict_map_def domIff)
  then show ?thesis
    by (simp add: decode_string_map_def string_map_json_def decode_string_members_map)
qed

text \<open>Reading the bytes a snapshot persisted gives the map back.\<close>

lemma Restore_Persist:
  assumes "utf8_map m" and "f_data f = Some m" and "sink_data sink = []"
    and "Persist None True (Snapshot f) sink = (sink', None)"
  shows "Restore (sink_data sink') g =
     (g\<lparr>f_data := Some m\<rparr>, None,
      case f_restoreCallback g of None \<Rightarrow> [] | Some cb \<Rightarrow> [GoRestore cb (card (dom m))])"
proof -
  have "sink_data sink' = json_print (string_map_json (Some m)) @ [CHR 0x0A]"
    using assms(2-4) by (auto simp: Persist_def Snapshot_def Let_def)
  then have "json_decode (sink_data sink') = Some (string_map_json (Some m))"
    using json_decode_encode [OF string_map_json_wf [OF assms(1)]] by simp
  moreover have "decode_string_map (string_map_json (Some m)) = Some (Some m)"
    using decode_string_map_json assms(1) by (simp add: utf8_map_def)
  ultimately show ?thesis by (simp add: Restore_def map_len_def split: option.split)
qed

lemma decode_string_members_utf8:
  "decode_string_members ms m = Some m' \<Longrightarrow> utf8_members ms \<Longrightarrow> utf8_map m \<Longrightarrow> utf8_map m'"
  by (induction ms m rule: decode_string_members.induct)
     (auto split: json.splits simp: utf8_map_upd)

lemma decode_string_map_utf8:
  "decode_string_map j = Some (Some m) \<Longrightarrow> utf8_json j \<Longrightarrow> utf8_map m"
  by (auto simp: decode_string_map_def split: json.splits dest: decode_string_members_utf8)

text \<open>A restore that keeps the map non-nil keeps the machine well-formed, whatever the file.\<close>

lemma Restore_ok:
  assumes "fsm_ok f" and "Restore rc f = (f', e, gs)" and "f_data f' \<noteq> None"
  shows "fsm_ok f'"
  using assms
  by (auto simp: Restore_def fsm_ok_def split: option.splits
      dest!: json_decode_utf8 decode_string_map_utf8)

end
