(* ===== verification/Event_Types.thy ===== *)
theory Event_Types imports Kv_Fsm begin

text \<open>
  \<open>internal/events/types.go\<close>: the kinds of events, the event itself, the peer and cluster
  records of a state snapshot, and how they are written as JSON for the event stream.

  The field \<open>Data any\<close> holds a value with its dynamic type: the constructor of
  \<open>go_value\<close>.  A type assertion such as \<open>data["term"].(uint64)\<close> is a match on it.
\<close>

datatype event_type =
    EventStateSnapshot | EventLeaderChanged | EventTermChanged | EventPeerJoined
  | EventPeerRemoved | EventLogReplicated | EventLogApplied | EventHeartbeatSent
  | EventHeartbeatReceived | EventAppendEntriesSent | EventAppendEntriesResult
  | EventAppendEntriesRecv | EventVoteRequested | EventVoteGranted | EventVoteRejected
  | EventLeadershipTransfer | EventSnapshotInstall | EventSnapshotCreated
  | EventFSMRestored | EventConfigChanged | EventProposalForwarded | EventProposalReceived
  | EventElectionStarted | EventLeadershipLost | EventNodeStatusChanged | EventSyncComplete

fun event_type_name :: "event_type \<Rightarrow> string" where
  "event_type_name EventStateSnapshot = ''STATE_SNAPSHOT''"
| "event_type_name EventLeaderChanged = ''LEADER_CHANGED''"
| "event_type_name EventTermChanged = ''TERM_CHANGED''"
| "event_type_name EventPeerJoined = ''PEER_JOINED''"
| "event_type_name EventPeerRemoved = ''PEER_REMOVED''"
| "event_type_name EventLogReplicated = ''LOG_REPLICATED''"
| "event_type_name EventLogApplied = ''LOG_APPLIED''"
| "event_type_name EventHeartbeatSent = ''HEARTBEAT_SENT''"
| "event_type_name EventHeartbeatReceived = ''HEARTBEAT_RECEIVED''"
| "event_type_name EventAppendEntriesSent = ''APPEND_ENTRIES_SENT''"
| "event_type_name EventAppendEntriesResult = ''APPEND_ENTRIES_RESULT''"
| "event_type_name EventAppendEntriesRecv = ''APPEND_ENTRIES_RECEIVED''"
| "event_type_name EventVoteRequested = ''VOTE_REQUESTED''"
| "event_type_name EventVoteGranted = ''VOTE_GRANTED''"
| "event_type_name EventVoteRejected = ''VOTE_REJECTED''"
| "event_type_name EventLeadershipTransfer = ''LEADERSHIP_TRANSFER''"
| "event_type_name EventSnapshotInstall = ''SNAPSHOT_INSTALL''"
| "event_type_name EventSnapshotCreated = ''SNAPSHOT_CREATED''"
| "event_type_name EventFSMRestored = ''FSM_RESTORED''"
| "event_type_name EventConfigChanged = ''CONFIG_CHANGED''"
| "event_type_name EventProposalForwarded = ''PROPOSAL_FORWARDED''"
| "event_type_name EventProposalReceived = ''PROPOSAL_RECEIVED''"
| "event_type_name EventElectionStarted = ''ELECTION_STARTED''"
| "event_type_name EventLeadershipLost = ''LEADERSHIP_LOST''"
| "event_type_name EventNodeStatusChanged = ''NODE_STATUS_CHANGED''"
| "event_type_name EventSyncComplete = ''SYNC_COMPLETE''"

record peer_info =
  pi_ID :: string
  pi_RaftAddr :: string
  pi_HTTPAddr :: string
  pi_Role :: string
  pi_Voter :: bool
  pi_IsLeader :: bool
  pi_IsSelf :: bool
  pi_Healthy :: bool

record cluster_state =
  cs_SelfID :: string
  cs_SelfRole :: string
  cs_RaftAddr :: string
  cs_HTTPAddr :: string
  cs_LeaderID :: string
  cs_LeaderRaftAddr :: string
  cs_LeaderHTTPAddr :: string
  cs_CurrentTerm :: u64
  cs_VotedFor :: string
  cs_CommitIndex :: u64
  cs_LastLogIndex :: u64
  cs_LastLogTerm :: u64
  cs_AppliedIndex :: u64
  cs_LastContactMS :: int
  cs_Peers :: "peer_info list"
  cs_ActiveClients :: nat
  cs_KVData :: "(string \<rightharpoonup> string) option"
  cs_RaftStats :: "(string \<rightharpoonup> string) option"
  cs_Timestamp :: time

datatype go_value =
    VNil
  | VString string
  | VOpType string
  | VU64 u64
  | VInt int
  | VBool bool
  | VStrings "string list"
  | VHealth "string \<rightharpoonup> bool"
  | VMap "(string \<times> go_value) list"
  | VApplied applied_entry
  | VConfig config_entry
  | VState cluster_state

record event =
  ev_ID :: string
  ev_Type :: event_type
  ev_Timestamp :: time
  ev_NodeID :: string
  ev_Term :: u64
  ev_Message :: string
  ev_Data :: go_value

text \<open>A literal \<open>Event{Type: t, NodeID: n, Term: w, Message: m, Data: d}\<close>; the other fields
  are zero.\<close>

definition mk_event :: "event_type \<Rightarrow> string \<Rightarrow> u64 \<Rightarrow> string \<Rightarrow> go_value \<Rightarrow> event" where
  "mk_event t n w m d =
     \<lparr>ev_ID = [], ev_Type = t, ev_Timestamp = 0, ev_NodeID = n, ev_Term = w, ev_Message = m,
      ev_Data = d\<rparr>"

lemma mk_event_sel [simp]:
  "ev_ID (mk_event t n w m d) = []" "ev_Type (mk_event t n w m d) = t"
  "ev_Timestamp (mk_event t n w m d) = 0" "ev_NodeID (mk_event t n w m d) = n"
  "ev_Term (mk_event t n w m d) = w" "ev_Message (mk_event t n w m d) = m"
  "ev_Data (mk_event t n w m d) = d"
  by (simp_all add: mk_event_def)

section \<open>The JSON of the event stream\<close>

definition num_u64 :: "u64 \<Rightarrow> json" where "num_u64 w = JNum (itoa_u64 w)"

definition server_json :: "fsm_server \<Rightarrow> json" where
  "server_json s = JObj [(''id'', JStr (sv_ID s)), (''address'', JStr (sv_Address s)), (''voter'', JBool (sv_Voter s))]"

definition config_entry_json :: "config_entry \<Rightarrow> json" where
  "config_entry_json c = JObj [(''index'', num_u64 (ce_Index c)), (''servers'', JArr (map server_json (ce_Servers c)))]"

definition applied_entry_json :: "time_zone \<Rightarrow> applied_entry \<Rightarrow> json" where
  "applied_entry_json tz a =
     JObj [(''index'', num_u64 (ae_Index a)), (''term'', num_u64 (ae_Term a)),
           (''command'', command_json tz (ae_Command a)),
           (''applied_at'', JStr (tz_format tz (ae_AppliedAt a)))]"

definition peer_info_json :: "peer_info \<Rightarrow> json" where
  "peer_info_json p =
     JObj [(''id'', JStr (pi_ID p)), (''raft_addr'', JStr (pi_RaftAddr p)),
           (''http_addr'', JStr (pi_HTTPAddr p)), (''role'', JStr (pi_Role p)),
           (''voter'', JBool (pi_Voter p)), (''is_leader'', JBool (pi_IsLeader p)),
           (''is_self'', JBool (pi_IsSelf p)), (''healthy'', JBool (pi_Healthy p))]"

text \<open>\<open>omitempty\<close> leaves out a map that is nil or has no keys.\<close>

definition omit_empty_map :: "string \<Rightarrow> (string \<rightharpoonup> string) option \<Rightarrow> (string \<times> json) list" where
  "omit_empty_map name d = (if map_len d = 0 then [] else [(name, string_map_json d)])"

definition cluster_state_json :: "time_zone \<Rightarrow> cluster_state \<Rightarrow> json" where
  "cluster_state_json tz s =
     JObj ([(''self_id'', JStr (cs_SelfID s)), (''self_role'', JStr (cs_SelfRole s)),
            (''raft_addr'', JStr (cs_RaftAddr s)), (''http_addr'', JStr (cs_HTTPAddr s)),
            (''leader_id'', JStr (cs_LeaderID s)), (''leader_raft_addr'', JStr (cs_LeaderRaftAddr s)),
            (''leader_http_addr'', JStr (cs_LeaderHTTPAddr s)),
            (''current_term'', num_u64 (cs_CurrentTerm s))]
           @ omit_empty ''voted_for'' (cs_VotedFor s)
           @ [(''commit_index'', num_u64 (cs_CommitIndex s)),
              (''last_log_index'', num_u64 (cs_LastLogIndex s)),
              (''last_log_term'', num_u64 (cs_LastLogTerm s)),
              (''applied_index'', num_u64 (cs_AppliedIndex s)),
              (''last_contact_ms'', JNum (itoa_int (cs_LastContactMS s))),
              (''peers'', JArr (map peer_info_json (cs_Peers s))),
              (''active_clients'', JNum (itoa (cs_ActiveClients s)))]
           @ omit_empty_map ''kv_data'' (cs_KVData s)
           @ omit_empty_map ''raft_stats'' (cs_RaftStats s)
           @ [(''timestamp'', JStr (tz_format tz (cs_Timestamp s)))])"

text \<open>The keys of a map are written in order.\<close>

fun go_value_json :: "time_zone \<Rightarrow> go_value \<Rightarrow> json"
  and go_members_json :: "time_zone \<Rightarrow> (string \<times> go_value) list \<Rightarrow> (string \<times> json) list" where
  "go_value_json tz VNil = JNull"
| "go_value_json tz (VString s) = JStr s"
| "go_value_json tz (VOpType s) = JStr s"
| "go_value_json tz (VU64 w) = num_u64 w"
| "go_value_json tz (VInt i) = JNum (itoa_int i)"
| "go_value_json tz (VBool b) = JBool b"
| "go_value_json tz (VStrings ss) = JArr (map JStr ss)"
| "go_value_json tz (VHealth m) = JObj (map (\<lambda>k. (k, JBool (the (m k)))) (sorted_keys (dom m)))"
| "go_value_json tz (VMap kvs) = JObj (sort_key fst (go_members_json tz kvs))"
| "go_value_json tz (VApplied a) = applied_entry_json tz a"
| "go_value_json tz (VConfig c) = config_entry_json c"
| "go_value_json tz (VState s) = cluster_state_json tz s"
| "go_members_json tz [] = []"
| "go_members_json tz ((k, v) # kvs) = (k, go_value_json tz v) # go_members_json tz kvs"

definition event_json :: "time_zone \<Rightarrow> event \<Rightarrow> json" where
  "event_json tz e =
     JObj ([(''id'', JStr (ev_ID e)), (''type'', JStr (event_type_name (ev_Type e))),
            (''timestamp'', JStr (tz_format tz (ev_Timestamp e))), (''node_id'', JStr (ev_NodeID e)),
            (''term'', num_u64 (ev_Term e)), (''message'', JStr (ev_Message e))]
           @ (if ev_Data e = VNil then [] else [(''data'', go_value_json tz (ev_Data e))]))"

section \<open>Facts on events\<close>

definition is_heartbeat :: "event \<Rightarrow> bool" where
  "is_heartbeat e \<longleftrightarrow> ev_Type e = EventHeartbeatSent \<or> ev_Type e = EventHeartbeatReceived"

definition is_lifecycle :: "event \<Rightarrow> bool" where
  "is_lifecycle e \<longleftrightarrow> \<not> is_heartbeat e \<and> ev_Type e \<noteq> EventStateSnapshot"

text \<open>An event without the identity and time the hub stamps on it.\<close>

definition unstamped :: "event \<Rightarrow> event" where
  "unstamped e = e\<lparr>ev_ID := [], ev_Timestamp := 0\<rparr>"

lemma unstamped_sel [simp]:
  "ev_Type (unstamped e) = ev_Type e" "ev_NodeID (unstamped e) = ev_NodeID e"
  "ev_Term (unstamped e) = ev_Term e" "ev_Message (unstamped e) = ev_Message e"
  "ev_Data (unstamped e) = ev_Data e"
  by (simp_all add: unstamped_def)

lemma unstamped_mk_event [simp]: "unstamped (mk_event t n w m d) = mk_event t n w m d"
  by (simp add: unstamped_def mk_event_def)

lemma mk_event_class [simp]:
  "is_heartbeat (mk_event t n w m d) \<longleftrightarrow> t = EventHeartbeatSent \<or> t = EventHeartbeatReceived"
  "is_lifecycle (mk_event t n w m d) \<longleftrightarrow>
     t \<noteq> EventHeartbeatSent \<and> t \<noteq> EventHeartbeatReceived \<and> t \<noteq> EventStateSnapshot"
  by (auto simp: is_heartbeat_def is_lifecycle_def)

lemma event_type_name_inj: "event_type_name a = event_type_name b \<Longrightarrow> a = b"
  by (cases a; cases b; simp)

end
