(* ===== verification/Go_Net.thy ===== *)
theory Go_Net imports Prelude begin

text \<open>
  The two standard-library functions behind address handling, \<open>strconv.Atoi\<close> and
  \<open>net.SplitHostPort\<close>, with the errors they return as \<open>None\<close>, and the lemmas on
  \<open>host:port\<close> strings that the node and the process manager share.
\<close>

section \<open>strconv.Atoi\<close>

text \<open>An optional sign, then at least one decimal digit and nothing else; a value outside
  \<open>int64\<close> is a range error.\<close>

definition int64_range :: "int \<Rightarrow> bool" where
  "int64_range i \<longleftrightarrow> - (2 ^ 63) \<le> i \<and> i < 2 ^ 63"

definition wrap64 :: "int \<Rightarrow> int" where
  "wrap64 i = (i + 2 ^ 63) mod 2 ^ 64 - 2 ^ 63"

lemma wrap64_in_range [simp]: "int64_range i \<Longrightarrow> wrap64 i = i"
  by (simp add: wrap64_def int64_range_def)

definition Atoi :: "string \<Rightarrow> int option" where
  "Atoi s =
     (let neg = (s \<noteq> [] \<and> hd s = CHR ''-'');
          ds = (if s \<noteq> [] \<and> (hd s = CHR ''-'' \<or> hd s = CHR ''+'') then tl s else s)
      in if ds = [] \<or> \<not> list_all is_digit ds then None
         else let v = (if neg then - int (digits_val ds) else int (digits_val ds))
              in if int64_range v then Some v else None)"

lemma not_digit_sign [simp]: "\<not> is_digit (CHR ''-'')" "\<not> is_digit (CHR ''+'')" "\<not> is_digit (CHR '':'')"
  "\<not> is_digit (CHR ''['')" "\<not> is_digit (CHR '']'')"
  by (simp_all add: is_digit_def)

lemma hd_itoa_digit [simp]: "is_digit (hd (itoa n))"
  using itoa_digits [of n] itoa_nonempty [of n] hd_in_set by blast

lemma Atoi_itoa [simp]: "n < 2 ^ 63 \<Longrightarrow> Atoi (itoa n) = Some (int n)"
proof -
  assume "n < 2 ^ 63"
  then have "int n < 2 ^ 63" by (metis of_nat_less_iff of_nat_numeral of_nat_power)
  moreover have "hd (itoa n) \<noteq> CHR ''-''" "hd (itoa n) \<noteq> CHR ''+''"
    using hd_itoa_digit [of n] not_digit_sign by metis+
  ultimately show ?thesis
    using itoa_digits [of n] by (simp add: Atoi_def int64_range_def list_all_iff)
qed

section \<open>net.SplitHostPort\<close>

fun index_of :: "char \<Rightarrow> string \<Rightarrow> nat option" where
  "index_of c [] = None"
| "index_of c (x # xs) = (if x = c then Some 0 else map_option Suc (index_of c xs))"

definition last_index_of :: "char \<Rightarrow> string \<Rightarrow> nat option" where
  "last_index_of c s = map_option (\<lambda>i. length s - Suc i) (index_of c (rev s))"

text \<open>The branches are those of the library function: no colon, a bracketed host, a plain
  host; then no stray bracket on either side.\<close>

definition SplitHostPort :: "string \<Rightarrow> (string \<times> string) option" where
  "SplitHostPort s =
     (case last_index_of (CHR '':'') s of
        None \<Rightarrow> None
      | Some i \<Rightarrow>
          let port = drop (Suc i) s in
          if s ! 0 = CHR ''['' then
            (case index_of (CHR '']'') s of
               None \<Rightarrow> None
             | Some e \<Rightarrow>
                 if Suc e = i \<and> index_of (CHR ''['') (drop 1 s) = None
                    \<and> index_of (CHR '']'') (drop (Suc e) s) = None
                 then Some (take (e - 1) (drop 1 s), port) else None)
          else if index_of (CHR '':'') (take i s) \<noteq> None
                  \<or> index_of (CHR ''['') s \<noteq> None \<or> index_of (CHR '']'') s \<noteq> None
          then None
          else Some (take i s, port))"

lemma index_of_None [simp]: "index_of c s = None \<longleftrightarrow> c \<notin> set s"
  by (induction s) auto

lemma index_of_append_fresh: "c \<notin> set s \<Longrightarrow> index_of c (s @ c # t) = Some (length s)"
  by (induction s) auto

lemma last_index_of_sep:
  "c \<notin> set p \<Longrightarrow> last_index_of c (h @ c # p) = Some (length h)"
  using index_of_append_fresh [of c "rev p" "rev h"] by (simp add: last_index_of_def)

text \<open>A host without colons or brackets followed by \<open>:\<close> and a port splits back.\<close>

definition plain_host :: "string \<Rightarrow> bool" where
  "plain_host h \<longleftrightarrow> CHR '':'' \<notin> set h \<and> CHR ''['' \<notin> set h \<and> CHR '']'' \<notin> set h"

definition host_port :: "string \<Rightarrow> string \<Rightarrow> string" where
  "host_port h p = h @ CHR '':'' # p"

lemma SplitHostPort_host_port:
  assumes "plain_host h" and "plain_host p"
  shows "SplitHostPort (host_port h p) = Some (h, p)"
proof -
  have "host_port h p ! 0 \<noteq> CHR ''[''"
    using assms(1) by (cases h) (auto simp: host_port_def plain_host_def)
  then show ?thesis
    using assms last_index_of_sep [of "CHR '':''" p h]
    by (auto simp: SplitHostPort_def host_port_def plain_host_def)
qed

lemma plain_host_itoa [simp]: "plain_host (itoa n)"
  by (simp add: plain_host_def itoa_not_in)

lemma SplitHostPort_Nil [simp]: "SplitHostPort [] = None"
  by (simp add: SplitHostPort_def last_index_of_def)

lemma host_port_inj:
  assumes "plain_host p" and "plain_host q" and "host_port h p = host_port g q"
  shows "h = g \<and> p = q"
proof -
  have "length h = length g"
    using assms last_index_of_sep [of "CHR '':''" p h] last_index_of_sep [of "CHR '':''" q g]
    by (simp add: host_port_def plain_host_def)
  then show ?thesis using assms(3) by (simp add: host_port_def)
qed

end
