(* ===== verification/Event_Hub.thy ===== *)
theory Event_Hub imports Event_Types Go_Net begin

text \<open>
  \<open>internal/events/hub.go\<close>: the hub that fans events out to the SSE clients, keeps the
  two histories (50 lifecycle events, 10 heartbeat batches) and coalesces heartbeats.

  A channel is a number; its buffer holds at most 64 events and it can be closed once.
  Sending on a closed channel or closing twice is a Go panic, which kills the process:
  the flag \<open>h_crashed\<close>.  The clock is part of the environment: \<open>h_clock h i\<close> is what the
  \<open>i\<close>-th next call of \<open>time.Now\<close> returns.  \<open>go h.onActivate()\<close> and
  \<open>go h.onDeactivate()\<close> are the goroutines an operation returns.
\<close>

definition maxHistory :: nat where "maxHistory = 50"
definition maxHBHistory :: nat where "maxHBHistory = 10"
definition chanCap :: nat where "chanCap = 64"

record hb_accum =
  hb_count :: nat
  hb_nodeID :: string
  hb_peerIDs :: "string set"
  hb_lastTerm :: u64
  hb_lastCommit :: u64

definition newHBAccum :: hb_accum where
  "newHBAccum = \<lparr>hb_count = 0, hb_nodeID = [], hb_peerIDs = {}, hb_lastTerm = 0, hb_lastCommit = 0\<rparr>"

record event_chan =
  ch_buf :: "event list"
  ch_closed :: bool

record hub =
  h_clients :: "nat set"
  h_chans :: "nat \<Rightarrow> event_chan"
  h_next :: nat
  h_onActivate :: bool
  h_onDeactivate :: bool
  h_sequence :: int
  h_history :: "event list"
  h_heartbeatHistory :: "event list"
  h_hbSent :: hb_accum
  h_hbRecv :: hb_accum
  h_clock :: "nat \<Rightarrow> time"
  h_crashed :: bool

datatype hub_go = GoActivate | GoDeactivate

definition NewHub :: "(nat \<Rightarrow> time) \<Rightarrow> bool \<Rightarrow> bool \<Rightarrow> hub" where
  "NewHub clock onActivate onDeactivate =
     \<lparr>h_clients = {}, h_chans = (\<lambda>_. \<lparr>ch_buf = [], ch_closed = False\<rparr>), h_next = 0,
      h_onActivate = onActivate, h_onDeactivate = onDeactivate, h_sequence = 0,
      h_history = [], h_heartbeatHistory = [], h_hbSent = newHBAccum, h_hbRecv = newHBAccum,
      h_clock = clock, h_crashed = False\<rparr>"

section \<open>Broadcasting\<close>

definition read_clock :: "hub \<Rightarrow> time \<times> hub" where
  "read_clock h = (h_clock h 0, h\<lparr>h_clock := (\<lambda>i. h_clock h (Suc i))\<rparr>)"

text \<open>\<open>Time.UnixMilli\<close>: milliseconds since 1970.\<close>

definition unix_milli :: "time \<Rightarrow> int" where
  "unix_milli t = t div 1000000 - 62135596800000"

definition event_id :: "time \<Rightarrow> int \<Rightarrow> string" where
  "event_id t s = ''evt-'' @ itoa_int (unix_milli t) @ ''-'' @ itoa_int s"

definition stamp_time :: "event \<Rightarrow> hub \<Rightarrow> event \<times> hub" where
  "stamp_time evt h =
     (if ev_Timestamp evt = 0
      then let (t, h') = read_clock h in (evt\<lparr>ev_Timestamp := t\<rparr>, h')
      else (evt, h))"

definition stamp_id :: "event \<Rightarrow> hub \<Rightarrow> event \<times> hub" where
  "stamp_id evt h =
     (if ev_ID evt = []
      then let (t, h') = read_clock h; s = wrap64 (h_sequence h' + 1)
           in (evt\<lparr>ev_ID := event_id t s\<rparr>, h'\<lparr>h_sequence := s\<rparr>)
      else (evt, h))"

definition trimToLast :: "'a list \<Rightarrow> nat \<Rightarrow> 'a list" where
  "trimToLast s n = (if length s > n then drop (length s - n) s else s)"

definition record_event :: "event \<Rightarrow> hub \<Rightarrow> hub" where
  "record_event evt h =
     (if is_heartbeat evt
      then h\<lparr>h_heartbeatHistory := trimToLast (h_heartbeatHistory h @ [evt]) maxHBHistory\<rparr>
      else if ev_Type evt \<noteq> EventStateSnapshot
      then h\<lparr>h_history := trimToLast (h_history h @ [evt]) maxHistory\<rparr>
      else h)"

definition IsActive :: "hub \<Rightarrow> bool" where
  "IsActive h \<longleftrightarrow> card (h_clients h) > 0"

definition SubscriberCount :: "hub \<Rightarrow> nat" where
  "SubscriberCount h = card (h_clients h)"

definition GetHistory :: "hub \<Rightarrow> event list" where
  "GetHistory h = h_history h"

definition GetHeartbeatHistory :: "hub \<Rightarrow> event list" where
  "GetHeartbeatHistory h = h_heartbeatHistory h"

text \<open>A non-blocking send: dropped when the buffer is full.\<close>

definition offer :: "event \<Rightarrow> event_chan \<Rightarrow> event_chan" where
  "offer evt c = (if length (ch_buf c) < chanCap then c\<lparr>ch_buf := ch_buf c @ [evt]\<rparr> else c)"

text \<open>The loop over the clients offers the event to each; a closed one is a panic.\<close>

definition deliver :: "event \<Rightarrow> hub \<Rightarrow> hub" where
  "deliver evt h =
     (if \<exists>c \<in> h_clients h. ch_closed (h_chans h c) then h\<lparr>h_crashed := True\<rparr>
      else h\<lparr>h_chans := (\<lambda>c. if c \<in> h_clients h then offer evt (h_chans h c) else h_chans h c)\<rparr>)"

definition broadcastDirect :: "event \<Rightarrow> hub \<Rightarrow> hub" where
  "broadcastDirect evt h =
     (let (evt1, h1) = stamp_time evt h;
          (evt2, h2) = stamp_id evt1 h1;
          h3 = record_event evt2 h2
      in if \<not> IsActive h3 then h3 else deliver evt2 h3)"

text \<open>One heartbeat folded into its accumulator.\<close>

definition fold_heartbeat :: "event \<Rightarrow> (string \<times> go_value) list \<Rightarrow> hb_accum \<Rightarrow> hb_accum" where
  "fold_heartbeat evt data a =
     a\<lparr>hb_count := hb_count a + 1,
       hb_nodeID := (if ev_NodeID evt \<noteq> [] then ev_NodeID evt else hb_nodeID a),
       hb_peerIDs := (case map_of data ''peer_id'' of
                        Some (VString p) \<Rightarrow> if p \<noteq> [] then insert p (hb_peerIDs a) else hb_peerIDs a
                      | _ \<Rightarrow> hb_peerIDs a),
       hb_lastTerm := (case map_of data ''term'' of Some (VU64 t) \<Rightarrow> t | _ \<Rightarrow> hb_lastTerm a),
       hb_lastCommit := (case map_of data ''commit_index'' of Some (VU64 c) \<Rightarrow> c | _ \<Rightarrow> hb_lastCommit a)\<rparr>"

definition accumulateHeartbeat :: "event \<Rightarrow> hub \<Rightarrow> hub" where
  "accumulateHeartbeat evt h =
     (case ev_Data evt of
        VMap data \<Rightarrow>
          if ev_Type evt = EventHeartbeatReceived
          then h\<lparr>h_hbRecv := fold_heartbeat evt data (h_hbRecv h)\<rparr>
          else h\<lparr>h_hbSent := fold_heartbeat evt data (h_hbSent h)\<rparr>
      | _ \<Rightarrow> h)"

definition Broadcast :: "event \<Rightarrow> hub \<Rightarrow> hub" where
  "Broadcast evt h =
     (if is_heartbeat evt then (if ev_Data evt \<noteq> VNil then accumulateHeartbeat evt h else h)
      else broadcastDirect evt h)"

section \<open>Heartbeat batches\<close>

definition batchEvent :: "event_type \<Rightarrow> hb_accum \<Rightarrow> event" where
  "batchEvent t a =
     (let ids = sorted_keys (hb_peerIDs a);
          common = [(''count'', VInt (int (hb_count a))), (''term'', VU64 (hb_lastTerm a)),
                    (''commit_index'', VU64 (hb_lastCommit a))]
      in if t = EventHeartbeatSent then
           mk_event t (hb_nodeID a) (hb_lastTerm a)
             (''Leader dispatched '' @ itoa (hb_count a) @ '' heartbeat(s) (AppendEntries) to ''
              @ join_with '', '' ids @ '' [Term '' @ itoa_u64 (hb_lastTerm a) @ '']'')
             (VMap (common @ [(''direction'', VString ''outgoing''), (''role'', VString ''Leader''),
                              (''targets'', VStrings ids)]))
         else
           mk_event t (hb_nodeID a) (hb_lastTerm a)
             (''Follower received '' @ itoa (hb_count a) @ '' heartbeat(s) (AppendEntries) from ''
              @ join_with '', '' ids @ '' [Term '' @ itoa_u64 (hb_lastTerm a) @ '', Commit ''
              @ itoa_u64 (hb_lastCommit a) @ '']'')
             (VMap (common @ [(''direction'', VString ''incoming''), (''role'', VString ''Follower''),
                              (''sources'', VStrings ids)])))"

definition hbFlushOnce :: "hub \<Rightarrow> hub" where
  "hbFlushOnce h =
     (let sent = h_hbSent h; recv = h_hbRecv h
      in if hb_count sent = 0 \<and> hb_count recv = 0 then h
         else
           let h1 = h\<lparr>h_hbSent := newHBAccum, h_hbRecv := newHBAccum\<rparr>;
               h2 = (if hb_count sent > 0 then broadcastDirect (batchEvent EventHeartbeatSent sent) h1 else h1)
           in if hb_count recv > 0 then broadcastDirect (batchEvent EventHeartbeatReceived recv) h2 else h2)"

text \<open>The flush loop runs it once per tick of the ticker.\<close>

fun hbFlushLoop :: "nat \<Rightarrow> hub \<Rightarrow> hub" where
  "hbFlushLoop 0 h = h"
| "hbFlushLoop (Suc ticks) h = hbFlushLoop ticks (hbFlushOnce h)"

section \<open>Clients\<close>

definition Subscribe :: "hub \<Rightarrow> nat \<times> hub \<times> hub_go list" where
  "Subscribe h =
     (let ch = h_next h;
          h' = h\<lparr>h_next := Suc ch, h_chans := (h_chans h)(ch := \<lparr>ch_buf = [], ch_closed = False\<rparr>),
                 h_clients := insert ch (h_clients h)\<rparr>;
          activate = (card (h_clients h') = 1)
      in (ch, h', if activate \<and> h_onActivate h then [GoActivate] else []))"

definition close_chan :: "nat \<Rightarrow> hub \<Rightarrow> hub" where
  "close_chan ch h =
     (if ch_closed (h_chans h ch) then h\<lparr>h_crashed := True\<rparr>
      else h\<lparr>h_chans := (h_chans h)(ch := (h_chans h ch)\<lparr>ch_closed := True\<rparr>)\<rparr>)"

definition unsubscribe :: "nat \<Rightarrow> hub \<Rightarrow> hub \<times> hub_go list" where
  "unsubscribe ch h =
     (if ch \<notin> h_clients h then (h, [])
      else
        let h' = close_chan ch (h\<lparr>h_clients := h_clients h - {ch}\<rparr>);
            deactivate = (card (h_clients h') = 0)
        in (h', if deactivate \<and> h_onDeactivate h then [GoDeactivate] else []))"

text \<open>A client takes the next event from its channel: \<open>None\<close> while the buffer is empty.\<close>

definition receive :: "nat \<Rightarrow> hub \<Rightarrow> event option \<times> hub" where
  "receive ch h =
     (case ch_buf (h_chans h ch) of
        [] \<Rightarrow> (None, h)
      | e # es \<Rightarrow> (Some e, h\<lparr>h_chans := (h_chans h)(ch := (h_chans h ch)\<lparr>ch_buf := es\<rparr>)\<rparr>))"

lemmas hub_defs =
  Broadcast_def broadcastDirect_def record_event_def deliver_def stamp_time_def stamp_id_def
  read_clock_def accumulateHeartbeat_def close_chan_def unsubscribe_def Subscribe_def receive_def

end
