(* ===== verification/Event_Hub_Props.thy ===== *)
theory Event_Hub_Props imports Event_Hub begin

text \<open>
  Lemmas on the hub of \<open>internal/events/hub.go\<close>: what stamping leaves alone, the
  well-formedness of a hub and that every operation keeps it, the two capped histories
  as interpretations of \<open>bounded_log\<close>, and the locale \<open>event_sink\<close>, the contract the
  node and the transport rely on when they announce events.
\<close>

section \<open>Stamping\<close>

definition stamped :: "event \<Rightarrow> hub \<Rightarrow> event" where
  "stamped evt h = fst (stamp_id (fst (stamp_time evt h)) (snd (stamp_time evt h)))"

definition stamping :: "event \<Rightarrow> hub \<Rightarrow> hub" where
  "stamping evt h = snd (stamp_id (fst (stamp_time evt h)) (snd (stamp_time evt h)))"

lemma broadcastDirect_stamped:
  "broadcastDirect evt h =
     (let h3 = record_event (stamped evt h) (stamping evt h)
      in if \<not> IsActive h3 then h3 else deliver (stamped evt h) h3)"
  by (simp add: broadcastDirect_def stamped_def stamping_def case_prod_beta Let_def)

lemma stamping_frame [simp]:
  "h_clients (stamping e h) = h_clients h" "h_chans (stamping e h) = h_chans h"
  "h_next (stamping e h) = h_next h" "h_history (stamping e h) = h_history h"
  "h_heartbeatHistory (stamping e h) = h_heartbeatHistory h"
  "h_hbSent (stamping e h) = h_hbSent h" "h_hbRecv (stamping e h) = h_hbRecv h"
  "h_crashed (stamping e h) = h_crashed h" "h_onActivate (stamping e h) = h_onActivate h"
  "h_onDeactivate (stamping e h) = h_onDeactivate h"
  by (simp_all add: stamping_def stamp_id_def stamp_time_def read_clock_def Let_def)

lemma unstamped_stamped [simp]: "unstamped (stamped e h) = unstamped e"
  by (simp add: stamped_def stamp_id_def stamp_time_def read_clock_def unstamped_def Let_def)

lemma type_stamped [simp]: "ev_Type (stamped e h) = ev_Type e"
  by (metis unstamped_stamped unstamped_sel(1))

lemma class_stamped [simp]:
  "is_heartbeat (stamped e h) = is_heartbeat e" "is_lifecycle (stamped e h) = is_lifecycle e"
  by (simp_all add: is_heartbeat_def is_lifecycle_def)

lemma class_unstamped [simp]:
  "is_heartbeat (unstamped e) = is_heartbeat e" "is_lifecycle (unstamped e) = is_lifecycle e"
  by (simp_all add: is_heartbeat_def is_lifecycle_def)

section \<open>The capped histories\<close>

lemma trimToLast_last_n: "trimToLast s n = last_n n s"
  by (simp add: trimToLast_def last_n_def)

interpretation hub_history: bounded_log "\<lambda>h e. trimToLast (h @ [e]) maxHistory" maxHistory
  by unfold_locales (simp_all add: trimToLast_last_n maxHistory_def)

interpretation hub_hb_history: bounded_log "\<lambda>h e. trimToLast (h @ [e]) maxHBHistory" maxHBHistory
  by unfold_locales (simp_all add: trimToLast_last_n maxHBHistory_def)

lemma record_event_frame [simp]:
  "h_clients (record_event e h) = h_clients h" "h_chans (record_event e h) = h_chans h"
  "h_next (record_event e h) = h_next h" "h_crashed (record_event e h) = h_crashed h"
  "h_hbSent (record_event e h) = h_hbSent h" "h_hbRecv (record_event e h) = h_hbRecv h"
  "h_onActivate (record_event e h) = h_onActivate h" "h_onDeactivate (record_event e h) = h_onDeactivate h"
  "h_sequence (record_event e h) = h_sequence h"
  by (simp_all add: record_event_def)

lemma record_event_histories:
  "h_history (record_event e h) =
     (if is_lifecycle e then last_n maxHistory (h_history h @ [e]) else h_history h)"
  "h_heartbeatHistory (record_event e h) =
     (if is_heartbeat e then last_n maxHBHistory (h_heartbeatHistory h @ [e]) else h_heartbeatHistory h)"
  by (auto simp: record_event_def is_lifecycle_def is_heartbeat_def trimToLast_last_n)

lemma deliver_frame [simp]:
  "h_clients (deliver e h) = h_clients h" "h_next (deliver e h) = h_next h"
  "h_history (deliver e h) = h_history h" "h_heartbeatHistory (deliver e h) = h_heartbeatHistory h"
  "h_hbSent (deliver e h) = h_hbSent h" "h_hbRecv (deliver e h) = h_hbRecv h"
  "h_onActivate (deliver e h) = h_onActivate h" "h_onDeactivate (deliver e h) = h_onDeactivate h"
  "h_sequence (deliver e h) = h_sequence h"
  by (simp_all add: deliver_def)

section \<open>Well-formed hubs\<close>

text \<open>Split by what the parts are about, so that each operation is checked part by part.\<close>

definition clients_ok :: "hub \<Rightarrow> bool" where
  "clients_ok h \<longleftrightarrow>
     finite (h_clients h) \<and> \<not> h_crashed h \<and>
     (\<forall>c \<in> h_clients h. \<not> ch_closed (h_chans h c) \<and> c < h_next h) \<and>
     (\<forall>c. length (ch_buf (h_chans h c)) \<le> chanCap)"

definition histories_ok :: "hub \<Rightarrow> bool" where
  "histories_ok h \<longleftrightarrow>
     length (h_history h) \<le> maxHistory \<and> (\<forall>e \<in> set (h_history h). is_lifecycle e) \<and>
     length (h_heartbeatHistory h) \<le> maxHBHistory \<and> (\<forall>e \<in> set (h_heartbeatHistory h). is_heartbeat e)"

definition accums_ok :: "hub \<Rightarrow> bool" where
  "accums_ok h \<longleftrightarrow> finite (hb_peerIDs (h_hbSent h)) \<and> finite (hb_peerIDs (h_hbRecv h))"

definition hub_ok :: "hub \<Rightarrow> bool" where
  "hub_ok h \<longleftrightarrow> clients_ok h \<and> histories_ok h \<and> accums_ok h"

lemma hub_ok_New [simp]: "hub_ok (NewHub clock a d)"
  by (simp add: hub_ok_def clients_ok_def histories_ok_def accums_ok_def NewHub_def newHBAccum_def)

lemma histories_ok_record: "histories_ok h \<Longrightarrow> histories_ok (record_event e h)"
  using set_last_n [of maxHistory "h_history h @ [e]"] set_last_n [of maxHBHistory "h_heartbeatHistory h @ [e]"]
  by (auto simp: histories_ok_def record_event_histories)

lemma histories_ok_cong:
  "h_history h' = h_history h \<Longrightarrow> h_heartbeatHistory h' = h_heartbeatHistory h \<Longrightarrow>
   histories_ok h' = histories_ok h"
  by (simp add: histories_ok_def)

lemma clients_ok_cong:
  "h_clients h' = h_clients h \<Longrightarrow> h_chans h' = h_chans h \<Longrightarrow> h_next h' = h_next h \<Longrightarrow>
   h_crashed h' = h_crashed h \<Longrightarrow> clients_ok h' = clients_ok h"
  by (simp add: clients_ok_def)

lemma accums_ok_cong:
  "h_hbSent h' = h_hbSent h \<Longrightarrow> h_hbRecv h' = h_hbRecv h \<Longrightarrow> accums_ok h' = accums_ok h"
  by (simp add: accums_ok_def)

lemma hub_ok_stamping [simp]: "hub_ok (stamping e h) = hub_ok h"
  unfolding hub_ok_def
  using clients_ok_cong [of "stamping e h" h] histories_ok_cong [of "stamping e h" h]
    accums_ok_cong [of "stamping e h" h] by simp

lemma hub_ok_record: "hub_ok h \<Longrightarrow> hub_ok (record_event e h)"
  unfolding hub_ok_def
  using clients_ok_cong [of "record_event e h" h] histories_ok_record [of h e]
    accums_ok_cong [of "record_event e h" h] by simp

lemma offer_props [simp]: "ch_closed (offer e c) = ch_closed c"
  by (simp add: offer_def)

lemma offer_bound: "length (ch_buf c) \<le> chanCap \<Longrightarrow> length (ch_buf (offer e c)) \<le> chanCap"
  by (simp add: offer_def)

lemma deliver_ok_eq:
  "clients_ok h \<Longrightarrow> deliver e h =
     h\<lparr>h_chans := (\<lambda>c. if c \<in> h_clients h then offer e (h_chans h c) else h_chans h c)\<rparr>"
  by (simp add: deliver_def clients_ok_def)

lemma clients_ok_deliver: "clients_ok h \<Longrightarrow> clients_ok (deliver e h)"
  by (auto simp: deliver_ok_eq) (simp add: clients_ok_def offer_bound)

lemma hub_ok_deliver: "hub_ok h \<Longrightarrow> hub_ok (deliver e h)"
  unfolding hub_ok_def
  using clients_ok_deliver [of h e] histories_ok_cong [of "deliver e h" h] accums_ok_cong [of "deliver e h" h]
  by simp

lemma hub_ok_broadcastDirect: "hub_ok h \<Longrightarrow> hub_ok (broadcastDirect e h)"
  by (simp add: broadcastDirect_stamped Let_def hub_ok_record hub_ok_deliver)

lemma finite_fold_heartbeat: "finite (hb_peerIDs a) \<Longrightarrow> finite (hb_peerIDs (fold_heartbeat e d a))"
  by (auto simp: fold_heartbeat_def split: option.splits go_value.splits)

lemma accumulateHeartbeat_frame [simp]:
  "h_clients (accumulateHeartbeat e h) = h_clients h" "h_chans (accumulateHeartbeat e h) = h_chans h"
  "h_next (accumulateHeartbeat e h) = h_next h" "h_crashed (accumulateHeartbeat e h) = h_crashed h"
  "h_history (accumulateHeartbeat e h) = h_history h"
  "h_heartbeatHistory (accumulateHeartbeat e h) = h_heartbeatHistory h"
  "h_onActivate (accumulateHeartbeat e h) = h_onActivate h"
  "h_onDeactivate (accumulateHeartbeat e h) = h_onDeactivate h"
  "h_sequence (accumulateHeartbeat e h) = h_sequence h"
  by (simp_all add: accumulateHeartbeat_def split: go_value.splits)

lemma hub_ok_accumulate: "hub_ok h \<Longrightarrow> hub_ok (accumulateHeartbeat e h)"
proof -
  assume h: "hub_ok h"
  then have "accums_ok (accumulateHeartbeat e h)"
    by (auto simp: hub_ok_def accums_ok_def accumulateHeartbeat_def finite_fold_heartbeat split: go_value.splits)
  then show ?thesis
    using h clients_ok_cong [of "accumulateHeartbeat e h" h] histories_ok_cong [of "accumulateHeartbeat e h" h]
    by (simp add: hub_ok_def)
qed

lemma hub_ok_Broadcast: "hub_ok h \<Longrightarrow> hub_ok (Broadcast e h)"
  by (simp add: Broadcast_def hub_ok_accumulate hub_ok_broadcastDirect)

lemma hub_ok_flush: "hub_ok h \<Longrightarrow> hub_ok (hbFlushOnce h)"
proof -
  assume h: "hub_ok h"
  let ?h1 = "h\<lparr>h_hbSent := newHBAccum, h_hbRecv := newHBAccum\<rparr>"
  have "hub_ok ?h1"
    using h clients_ok_cong [of ?h1 h] histories_ok_cong [of ?h1 h]
    by (simp add: hub_ok_def accums_ok_def newHBAccum_def)
  then show ?thesis using h by (simp add: hbFlushOnce_def Let_def hub_ok_broadcastDirect)
qed

lemma clients_ok_Subscribe: "clients_ok h \<Longrightarrow> clients_ok (fst (snd (Subscribe h)))"
  by (auto simp: Subscribe_def Let_def clients_ok_def less_SucI)

lemma hub_ok_Subscribe: "hub_ok h \<Longrightarrow> Subscribe h = (c, h', gs) \<Longrightarrow> hub_ok h'"
  using clients_ok_Subscribe [of h]
  by (auto simp: Subscribe_def Let_def hub_ok_def histories_ok_def accums_ok_def)

lemma unsubscribe_eq:
  "clients_ok h \<Longrightarrow> c \<in> h_clients h \<Longrightarrow> fst (unsubscribe c h) =
     h\<lparr>h_clients := h_clients h - {c}, h_chans := (h_chans h)(c := (h_chans h c)\<lparr>ch_closed := True\<rparr>)\<rparr>"
  by (auto simp: unsubscribe_def close_chan_def Let_def clients_ok_def)

lemma hub_ok_unsubscribe: "hub_ok h \<Longrightarrow> hub_ok (fst (unsubscribe c h))"
proof (cases "c \<in> h_clients h")
  case True
  assume "hub_ok h"
  then show ?thesis
    using True unsubscribe_eq [of h c]
    by (auto simp: hub_ok_def histories_ok_def accums_ok_def clients_ok_def)
qed (simp add: unsubscribe_def)

lemma hub_ok_receive: "hub_ok h \<Longrightarrow> hub_ok (snd (receive c h))"
proof (cases "ch_buf (h_chans h c)")
  case (Cons e es)
  assume h: "hub_ok h"
  then have "length es \<le> chanCap"
    using Cons by (auto simp: hub_ok_def clients_ok_def dest!: spec [of _ c])
  then show ?thesis
    using h Cons by (auto simp: receive_def hub_ok_def histories_ok_def accums_ok_def clients_ok_def)
qed (simp add: receive_def)

section \<open>The contract of an event sink\<close>

text \<open>What the rest of the node knows of the hub: announcing an event keeps the sink
  sound, and the journal is the newest lifecycle events announced, in order.\<close>

definition emit_all :: "(event \<Rightarrow> 'h \<Rightarrow> 'h) \<Rightarrow> event list \<Rightarrow> 'h \<Rightarrow> 'h" where
  "emit_all emit es h = fold emit es h"

lemma emit_all_simps [simp]:
  "emit_all emit [] h = h" "emit_all emit (e # es) h = emit_all emit es (emit e h)"
  "emit_all emit (es @ fs) h = emit_all emit fs (emit_all emit es h)"
  by (simp_all add: emit_all_def)

locale event_sink =
  fixes emit :: "event \<Rightarrow> 'h \<Rightarrow> 'h"
    and journal :: "'h \<Rightarrow> event list"
    and ok :: "'h \<Rightarrow> bool"
  assumes ok_emit: "ok h \<Longrightarrow> ok (emit e h)"
    and journal_bound: "ok h \<Longrightarrow> length (journal h) \<le> maxHistory"
    and journal_emit: "ok h \<Longrightarrow>
      journal (emit e h) =
        (if is_lifecycle e then last_n maxHistory (journal h @ [unstamped e]) else journal h)"
begin

lemma ok_emit_all: "ok h \<Longrightarrow> ok (emit_all emit es h)"
  by (induction es arbitrary: h) (simp_all add: ok_emit)

lemma journal_emit_all:
  assumes "ok h"
  shows "journal (emit_all emit es h) =
           last_n maxHistory (journal h @ map unstamped (filter is_lifecycle es))"
proof (induction es rule: rev_induct)
  case Nil
  then show ?case using assms journal_bound by simp
next
  case (snoc e es)
  then show ?case
    using journal_emit [OF ok_emit_all [OF assms], of e es]
      last_n_snoc [of maxHistory "journal h @ map unstamped (filter is_lifecycle es)" "unstamped e"]
    by (simp add: maxHistory_def)
qed

lemma journal_quiet: "ok h \<Longrightarrow> \<not> is_lifecycle e \<Longrightarrow> journal (emit e h) = journal h"
  by (simp add: journal_emit)

lemma journal_announces: "ok h \<Longrightarrow> is_lifecycle e \<Longrightarrow> last (journal (emit e h)) = unstamped e"
  by (simp add: journal_emit last_n_def maxHistory_def last_drop)

end

definition announced :: "hub \<Rightarrow> event list" where
  "announced h = map unstamped (h_history h)"

lemma announced_broadcastDirect:
  "announced (broadcastDirect e h) =
     (if is_lifecycle e then last_n maxHistory (announced h @ [unstamped e]) else announced h)"
  by (simp add: broadcastDirect_stamped Let_def announced_def record_event_histories map_last_n)

lemma is_lifecycle_not_heartbeat: "is_heartbeat e \<Longrightarrow> \<not> is_lifecycle e"
  by (simp add: is_lifecycle_def)

interpretation hub_sink: event_sink Broadcast announced hub_ok
proof unfold_locales
  fix h e
  assume h: "hub_ok h"
  show "hub_ok (Broadcast e h)" by (rule hub_ok_Broadcast [OF h])
  show "length (announced h) \<le> maxHistory"
    using h by (simp add: announced_def hub_ok_def histories_ok_def)
  show "announced (Broadcast e h) =
      (if is_lifecycle e then last_n maxHistory (announced h @ [unstamped e]) else announced h)"
    using is_lifecycle_not_heartbeat [of e]
    by (auto simp: Broadcast_def announced_broadcastDirect)
      (auto simp: announced_def)
qed

end
