(* ===== verification/Go_Path.thy ===== *)
theory Go_Path imports Prelude begin

text \<open>
  \<open>filepath.Join\<close> and \<open>filepath.Clean\<close> of the standard library on a Unix system, which
  decide where a node keeps its data.
\<close>

fun split_on :: "char \<Rightarrow> string \<Rightarrow> string list" where
  "split_on c [] = [[]]"
| "split_on c (x # xs) =
     (if x = c then [] # split_on c xs
      else case split_on c xs of [] \<Rightarrow> [[x]] | w # ws \<Rightarrow> (x # w) # ws)"

text \<open>One path element: \<open>.\<close> and empty elements vanish, \<open>..\<close> removes the element before it;
  at the front of a relative path it stays.  The stack is in reverse.\<close>

definition clean_step :: "bool \<Rightarrow> string list \<Rightarrow> string \<Rightarrow> string list" where
  "clean_step rooted st w =
     (if w = [] \<or> w = ''.'' then st
      else if w = ''..'' then
        (case st of
           [] \<Rightarrow> if rooted then [] else [''..'']
         | t # ts \<Rightarrow> if t = ''..'' then ''..'' # st else ts)
      else w # st)"

definition path_clean :: "string \<Rightarrow> string" where
  "path_clean p =
     (if p = [] then ''.''
      else
        let rooted = (hd p = CHR ''/'');
            body = join_with ''/'' (rev (foldl (clean_step rooted) [] (split_on (CHR ''/'') p)))
        in if rooted then ''/'' @ body else if body = [] then ''.'' else body)"

definition path_join :: "string list \<Rightarrow> string" where
  "path_join ws =
     (let us = filter (\<lambda>w. w \<noteq> []) ws in if us = [] then [] else path_clean (join_with ''/'' us))"

lemma split_on_fresh: "c \<notin> set s \<Longrightarrow> split_on c s = [s]"
  by (induction s) auto

lemma split_on_sep: "c \<notin> set s \<Longrightarrow> split_on c (s @ c # t) = s # split_on c t"
  by (induction s) auto

text \<open>An ordinary element is one the cleaning keeps.\<close>

definition plain_element :: "string \<Rightarrow> bool" where
  "plain_element w \<longleftrightarrow> w \<noteq> [] \<and> w \<noteq> ''.'' \<and> w \<noteq> ''..'' \<and> CHR ''/'' \<notin> set w"

lemma path_join_plain:
  assumes "plain_element a" and "plain_element b"
  shows "path_join [a, b] = a @ ''/'' @ b"
proof -
  have "split_on (CHR ''/'') (a @ ''/'' @ b) = [a, b]"
    using assms split_on_sep [of "CHR ''/''" a b] split_on_fresh [of "CHR ''/''" b]
    by (simp add: plain_element_def)
  moreover have "hd (a @ ''/'' @ b) \<noteq> CHR ''/''"
    using assms(1) by (cases a) (auto simp: plain_element_def)
  ultimately show ?thesis
    using assms by (simp add: path_join_def path_clean_def clean_step_def plain_element_def Let_def)
qed

end
