(* ===== verification/Raft_Node.thy ===== *)
theory Raft_Node imports Kv_Fsm_Props Event_Hub_Props Go_Path begin

text \<open>
  \<open>internal/raftnode/node.go\<close> and \<open>election.go\<close>: the node that owns the raft engine of
  \<open>hashicorp/raft\<close>, the state machine and the event hub.

  The engine runs on its own, so two questions to it may get answers from different
  moments.  An operation takes an \<open>engine\<close>: \<open>e i\<close> is what the engine, its stores and
  the clock answer at the operation's \<open>i\<close>-th question.  What the operation asks the
  engine to do (apply, add a voter) is a function argument that gives the future's
  outcome.  An error is its text; \<open>None\<close> is Go's nil error.
\<close>

section \<open>The engine\<close>

datatype raft_state = Follower | Candidate | Leader | Shutdown

fun raft_state_name :: "raft_state \<Rightarrow> string" where
  "raft_state_name Follower = ''Follower''"
| "raft_state_name Candidate = ''Candidate''"
| "raft_state_name Leader = ''Leader''"
| "raft_state_name Shutdown = ''Shutdown''"

type_synonym go_error = string

record reading =
  rd_State :: raft_state
  rd_LeaderAddr :: string
  rd_LeaderID :: string
  rd_CurrentTerm :: u64
  rd_Configuration :: "raft_server list option"
  rd_LastContact :: time
  rd_CommitIndex :: u64
  rd_LastIndex :: u64
  rd_AppliedIndex :: u64
  rd_Stats :: "string \<rightharpoonup> string"
  rd_StoreLastIndex :: "u64 option"
  rd_StoreGetLog :: "u64 \<Rightarrow> raft_log option"
  rd_StoreGet :: "string \<Rightarrow> string option"
  rd_Now :: time
  rd_Order :: "string list"

type_synonym engine = "nat \<Rightarrow> reading"

definition later :: "nat \<Rightarrow> engine \<Rightarrow> engine" where
  "later k e = (\<lambda>i. e (k + i))"

lemma later_apply [simp]: "later k e i = e (k + i)"
  by (simp add: later_def)

lemma later_const [simp]: "later k (\<lambda>_. v) = (\<lambda>_. v)"
  by (simp add: later_def)

section \<open>The node\<close>

record node_config =
  c_NodeID :: string
  c_RaftAddr :: string
  c_HTTPAddr :: string
  c_DataDir :: string
  c_Bootstrap :: bool
  c_JoinAddr :: string

text \<open>\<open>n_raft\<close> says that the field \<open>raft\<close> is not nil; a channel made for \<open>pollCancel\<close> is a
  number, the closed ones are in \<open>n_closedChans\<close>.\<close>

record node =
  n_cfg :: node_config
  n_raft :: bool
  n_fsm :: kv_fsm
  n_hub :: hub
  n_peerHTTPAddrs :: "string \<rightharpoonup> string"
  n_peerHealth :: "string \<rightharpoonup> bool"
  n_knownPeers :: "string \<rightharpoonup> string"
  n_hbFailedPeers :: "string \<rightharpoonup> bool"
  n_lastTerm :: u64
  n_lastLeader :: string
  n_lastState :: raft_state
  n_pollCancel :: "nat option"
  n_pollingRunning :: bool
  n_nextChan :: nat
  n_closedChans :: "nat set"
  n_stopClosed :: bool
  n_crashed :: bool

definition broadcast :: "event \<Rightarrow> node \<Rightarrow> node" where
  "broadcast evt n = n\<lparr>n_hub := Broadcast evt (n_hub n)\<rparr>"

definition node_ID :: "node \<Rightarrow> string" where
  "node_ID n = c_NodeID (n_cfg n)"

definition node_RaftAddr :: "node \<Rightarrow> string" where
  "node_RaftAddr n = c_RaftAddr (n_cfg n)"

definition node_HTTPAddr :: "node \<Rightarrow> string" where
  "node_HTTPAddr n = c_HTTPAddr (n_cfg n)"

definition node_Hub :: "node \<Rightarrow> hub" where
  "node_Hub n = n_hub n"

definition node_FSM :: "node \<Rightarrow> kv_fsm" where
  "node_FSM n = n_fsm n"

section \<open>The listeners on the state machine\<close>

definition on_applied :: "applied_entry \<Rightarrow> node \<Rightarrow> node" where
  "on_applied entry n =
     broadcast (mk_event EventLogApplied (node_ID n) (ae_Term entry)
       (''Applied log '' @ itoa_u64 (ae_Index entry) @ '' (Term '' @ itoa_u64 (ae_Term entry) @ ''): ''
        @ cmd_Op (ae_Command entry) @ '' key '' @ [CHR 0x27] @ cmd_Key (ae_Command entry) @ [CHR 0x27])
       (VApplied entry)) n"

text \<open>The configuration listener reads \<open>node.raft\<close> without asking whether it is nil; the
  restore listener asks.\<close>

definition on_config_applied :: "engine \<Rightarrow> config_entry \<Rightarrow> node \<Rightarrow> node" where
  "on_config_applied e entry n =
     (if \<not> n_raft n then n\<lparr>n_crashed := True\<rparr>
      else broadcast (mk_event EventConfigChanged (node_ID n) (rd_CurrentTerm (e 0))
             (''Cluster configuration changed (log '' @ itoa_u64 (ce_Index entry) @ ''): ''
              @ itoa (length (ce_Servers entry)) @ '' server(s)'')
             (VConfig entry)) n)"

definition on_restored :: "engine \<Rightarrow> nat \<Rightarrow> node \<Rightarrow> node" where
  "on_restored e keys n =
     (let term = (if n_raft n then rd_CurrentTerm (e 0) else 0)
      in broadcast (mk_event EventFSMRestored (node_ID n) term
           (''FSM restored from snapshot: '' @ itoa keys @ '' key(s) recovered'')
           (VMap [(''keys'', VInt (int keys))])) n)"

text \<open>A goroutine the state machine started.\<close>

fun run_fsm_go :: "engine \<Rightarrow> fsm_go \<Rightarrow> node \<Rightarrow> node" where
  "run_fsm_go e (GoApply cb entry) n = on_applied entry n"
| "run_fsm_go e (GoConfig cb entry) n = on_config_applied e entry n"
| "run_fsm_go e (GoRestore cb keys) n = on_restored e keys n"

section \<open>Creation\<close>

text \<open>What \<open>raft.NewRaft\<close> and the goroutines it starts may ask of the state machine before
  \<open>NewNode\<close> returns: to restore the newest snapshot of the store, to apply an entry, to
  take a configuration.\<close>

datatype fsm_call = CallRestore string | CallApply time raft_log | CallConfiguration u64 "raft_server list"

text \<open>\<open>None\<close>: a call panicked.  The listeners run as goroutines.\<close>

fun run_fsm_calls :: "time_zone \<Rightarrow> fsm_call list \<Rightarrow> kv_fsm \<Rightarrow> (kv_fsm \<times> fsm_go list) option" where
  "run_fsm_calls tz [] f = Some (f, [])"
| "run_fsm_calls tz (CallRestore rc # cs) f =
     (let (f1, err, gs) = Restore rc f
      in map_option (\<lambda>(f2, hs). (f2, gs @ hs)) (run_fsm_calls tz cs f1))"
| "run_fsm_calls tz (CallApply now log # cs) f =
     (case Apply tz now log f of
        None \<Rightarrow> None
      | Some (f1, err, gs) \<Rightarrow> map_option (\<lambda>(f2, hs). (f2, gs @ hs)) (run_fsm_calls tz cs f1))"
| "run_fsm_calls tz (CallConfiguration index config # cs) f =
     map_option (\<lambda>(f2, hs). (f2, StoreConfiguration index config f @ hs)) (run_fsm_calls tz cs f)"

text \<open>What the operating system and the libraries answer while a node starts; an error is
  \<open>Some\<close> text.  \<open>su_calls\<close> are the calls of the engine to the state machine; of the
  goroutines they start, those numbered in \<open>su_early\<close> run before \<open>node.raft\<close> is assigned, and
  the others after \<open>NewNode\<close> has returned.\<close>

record startup =
  su_MkdirAll :: "string \<Rightarrow> go_error option"
  su_ResolveTCPAddr :: "string \<Rightarrow> go_error option"
  su_NewTCPTransport :: "string \<Rightarrow> go_error option"
  su_NewBoltStore :: "string \<Rightarrow> go_error option"
  su_NewFileSnapshotStore :: "string \<Rightarrow> go_error option"
  su_HasExistingState :: "go_error + bool"
  su_BootstrapCluster :: "raft_server list \<Rightarrow> go_error option"
  su_NewRaft :: "go_error option"
  su_clock :: "nat \<Rightarrow> time"
  su_tz :: time_zone
  su_engine :: engine
  su_calls :: "fsm_call list"
  su_early :: "nat set"

definition with_DataDir :: "node_config \<Rightarrow> node_config" where
  "with_DataDir cfg =
     (if c_DataDir cfg = [] then cfg\<lparr>c_DataDir := path_join [''data'', c_NodeID cfg]\<rparr> else cfg)"

definition new_fsm :: kv_fsm where
  "new_fsm =
     RegisterRestoreCallback
       (RegisterApplyConfigCallback (RegisterApplyCallback NewKVStoreFSM 0) 0) 0"

definition initial_node :: "node_config \<Rightarrow> (nat \<Rightarrow> time) \<Rightarrow> node" where
  "initial_node cfg clock =
     \<lparr>n_cfg = cfg, n_raft = False, n_fsm = new_fsm, n_hub = NewHub clock True True,
      n_peerHTTPAddrs = [c_NodeID cfg \<mapsto> c_HTTPAddr cfg], n_peerHealth = [c_NodeID cfg \<mapsto> True],
      n_knownPeers = [c_NodeID cfg \<mapsto> c_RaftAddr cfg], n_hbFailedPeers = Map.empty,
      n_lastTerm = 0, n_lastLeader = [], n_lastState = Follower, n_pollCancel = None,
      n_pollingRunning = False, n_nextChan = 0, n_closedChans = {}, n_stopClosed = False,
      n_crashed = False\<rparr>"

definition bootstrap_servers :: "node_config \<Rightarrow> raft_server list" where
  "bootstrap_servers cfg =
     [\<lparr>rs_ID = c_NodeID cfg, rs_Address = c_RaftAddr cfg, rs_Suffrage = Voter\<rparr>]"

text \<open>The bootstrap step: the configuration written to a fresh store, if any.\<close>

definition bootstrap :: "startup \<Rightarrow> node_config \<Rightarrow> go_error + raft_server list option" where
  "bootstrap su cfg =
     (if \<not> c_Bootstrap cfg then Inr None
      else case su_HasExistingState su of
             Inl err \<Rightarrow> Inl (''failed to check existing state: '' @ err)
           | Inr True \<Rightarrow> Inr None
           | Inr False \<Rightarrow>
               (case su_BootstrapCluster su (bootstrap_servers cfg) of
                  Some err \<Rightarrow> Inl (''failed to bootstrap cluster: '' @ err)
                | None \<Rightarrow> Inr (Some (bootstrap_servers cfg))))"

text \<open>A panic in the state machine ends the process.\<close>

definition start_raft :: "startup \<Rightarrow> node \<Rightarrow> node \<times> fsm_go list" where
  "start_raft su n =
     (case run_fsm_calls (su_tz su) (su_calls su) (n_fsm n) of
        None \<Rightarrow> (n\<lparr>n_crashed := True\<rparr>, [])
      | Some (f, gs) \<Rightarrow>
          let n1 = fold (run_fsm_go (su_engine su)) (nths gs (su_early su)) (n\<lparr>n_fsm := f\<rparr>)
          in (n1\<lparr>n_raft := True\<rparr>, nths gs (- su_early su)))"

text \<open>The result: the node, the configuration a new cluster was bootstrapped with, and the
  goroutines of the state machine's listeners that are still to run.\<close>

definition NewNode :: "startup \<Rightarrow> node_config \<Rightarrow> go_error + node \<times> raft_server list option \<times> fsm_go list" where
  "NewNode su cfg0 =
     (if c_NodeID cfg0 = [] then Inl ''node-id is required''
      else if c_RaftAddr cfg0 = [] then Inl ''raft-addr is required''
      else if c_HTTPAddr cfg0 = [] then Inl ''http-addr is required''
      else
        let cfg = with_DataDir cfg0 in
        case su_MkdirAll su (c_DataDir cfg) of
          Some err \<Rightarrow> Inl (''failed to create data dir: '' @ err)
        | None \<Rightarrow>
        case su_ResolveTCPAddr su (c_RaftAddr cfg) of
          Some err \<Rightarrow> Inl (''failed to resolve raft addr: '' @ err)
        | None \<Rightarrow>
        case su_NewTCPTransport su (c_RaftAddr cfg) of
          Some err \<Rightarrow> Inl (''failed to create tcp transport: '' @ err)
        | None \<Rightarrow>
        case su_NewBoltStore su (path_join [c_DataDir cfg, ''raft.db'']) of
          Some err \<Rightarrow> Inl (''failed to create bolt store: '' @ err)
        | None \<Rightarrow>
        case su_NewFileSnapshotStore su (c_DataDir cfg) of
          Some err \<Rightarrow> Inl (''failed to create snapshot store: '' @ err)
        | None \<Rightarrow>
        case bootstrap su cfg of
          Inl err \<Rightarrow> Inl err
        | Inr boot \<Rightarrow>
        case su_NewRaft su of
          Some err \<Rightarrow> Inl (''failed to create raft: '' @ err)
        | None \<Rightarrow>
            let (n, gs) = start_raft su (initial_node cfg (su_clock su))
            in Inr (n, boot, gs))"

section \<open>Identities, terms and addresses\<close>

text \<open>\<open>ks\<close> is the order in which the runtime visits the map.\<close>

definition nodeIDForRaftAddr :: "string list \<Rightarrow> string \<Rightarrow> node \<Rightarrow> string" where
  "nodeIDForRaftAddr ks addr n =
     (case find (\<lambda>k. n_knownPeers n k = Some addr) ks of Some k \<Rightarrow> k | None \<Rightarrow> addr)"

text \<open>\<open>noteTerm\<close> has two steps: under the lock it raises the highest known term, and after the
  lock is released it announces the new one.\<close>

definition note_lock :: "u64 \<Rightarrow> node \<Rightarrow> node \<times> bool" where
  "note_lock term n =
     (if term = 0 then (n, False)
      else if term \<le> n_lastTerm n then (n, False)
      else (n\<lparr>n_lastTerm := term\<rparr>, True))"

definition note_announce :: "u64 \<Rightarrow> node \<Rightarrow> node" where
  "note_announce term n =
     broadcast (mk_event EventTermChanged (node_ID n) term
       (''Node '' @ node_ID n @ '' observed Raft term '' @ itoa_u64 term)
       (VMap [(''term'', VU64 term)])) n"

definition noteTerm :: "u64 \<Rightarrow> node \<Rightarrow> node" where
  "noteTerm term n = (let (n1, raised) = note_lock term n in if raised then note_announce term n1 else n1)"

definition IsLeader :: "engine \<Rightarrow> bool" where
  "IsLeader e \<longleftrightarrow> rd_State (e 0) = Leader"

definition RegisterPeerHTTP :: "string \<Rightarrow> string \<Rightarrow> node \<Rightarrow> node" where
  "RegisterPeerHTTP nodeID httpAddr n =
     (if httpAddr = [] then n
      else n\<lparr>n_peerHTTPAddrs := (n_peerHTTPAddrs n)(nodeID \<mapsto> httpAddr)\<rparr>)"

definition inferHTTPAddrFromRaft :: "string \<Rightarrow> string" where
  "inferHTTPAddrFromRaft raftAddr =
     (case SplitHostPort raftAddr of
        None \<Rightarrow> []
      | Some (host, portStr) \<Rightarrow>
          (case Atoi portStr of
             None \<Rightarrow> []
           | Some port \<Rightarrow> host @ '':'' @ itoa_int (wrap64 (port + 1000))))"

definition httpAddrFor :: "string \<Rightarrow> string \<Rightarrow> node \<Rightarrow> string" where
  "httpAddrFor nodeID raftAddr n =
     (case n_peerHTTPAddrs n nodeID of
        Some addr \<Rightarrow> if addr \<noteq> [] then addr else inferHTTPAddrFromRaft raftAddr
      | None \<Rightarrow> inferHTTPAddrFromRaft raftAddr)"

definition GetPeerHTTP :: "string \<Rightarrow> string \<Rightarrow> node \<Rightarrow> string" where
  "GetPeerHTTP nodeID raftAddr n = httpAddrFor nodeID raftAddr n"

section \<open>The vote in the stable store\<close>

definition big_endian64 :: "string \<Rightarrow> u64" where
  "big_endian64 bs = foldl (\<lambda>a c. 256 * a + of_nat (of_char c)) 0 bs"

definition votedForFromStore :: "engine \<Rightarrow> node \<Rightarrow> string" where
  "votedForFromStore e n =
     (case rd_StoreGet (e 0) ''LastVoteTerm'' of
        None \<Rightarrow> []
      | Some termBytes \<Rightarrow>
          if length termBytes \<noteq> 8 then []
          else if big_endian64 termBytes \<noteq> rd_CurrentTerm (e 1) then []
          else case rd_StoreGet (e 2) ''LastVoteCand'' of
                 None \<Rightarrow> []
               | Some candBytes \<Rightarrow>
                   if candBytes = [] then [] else nodeIDForRaftAddr (rd_Order (e 3)) candBytes n)"

section \<open>The state of the cluster\<close>

definition peer_of :: "string \<Rightarrow> string \<Rightarrow> raft_state \<Rightarrow> node \<Rightarrow> raft_server \<Rightarrow> peer_info" where
  "peer_of leaderID leaderAddr state n s =
     (let sID = rs_ID s; sAddr = rs_Address s;
          isSelf = (sID = node_ID n);
          isLeader = (sID = leaderID \<or> leaderID = [] \<and> sAddr = leaderAddr)
      in \<lparr>pi_ID = sID, pi_RaftAddr = sAddr, pi_HTTPAddr = httpAddrFor sID sAddr n,
          pi_Role = (if isLeader then ''Leader''
                     else if isSelf \<and> state = Candidate then ''Candidate'' else ''Follower''),
          pi_Voter = (rs_Suffrage s = Voter), pi_IsLeader = isLeader, pi_IsSelf = isSelf,
          pi_Healthy = (case n_peerHealth n sID of Some h \<Rightarrow> h | None \<Rightarrow> True)\<rparr>)"

definition last_log_term :: "engine \<Rightarrow> u64" where
  "last_log_term e =
     (case rd_StoreLastIndex (e 0) of
        Some lastIdx \<Rightarrow>
          if lastIdx > 0 then
            (case rd_StoreGetLog (e 1) lastIdx of Some lastLog \<Rightarrow> log_Term lastLog | None \<Rightarrow> 0)
          else 0
      | None \<Rightarrow> 0)"

text \<open>\<open>time.Since\<close> saturates at the bounds of a \<open>Duration\<close>; \<open>Milliseconds\<close> truncates
  towards zero.\<close>

definition duration_between :: "time \<Rightarrow> time \<Rightarrow> int" where
  "duration_between now t = max (- (2 ^ 63)) (min (2 ^ 63 - 1) (now - t))"

definition milliseconds :: "int \<Rightarrow> int" where
  "milliseconds d = sgn d * (\<bar>d\<bar> div 1000000)"

definition last_contact_ms :: "engine \<Rightarrow> int" where
  "last_contact_ms e =
     (if rd_LastContact (e 0) \<noteq> 0
      then milliseconds (duration_between (rd_Now (e 1)) (rd_LastContact (e 0))) else - 1)"

definition GetState :: "engine \<Rightarrow> node \<Rightarrow> cluster_state" where
  "GetState e n =
     (let leaderAddr = rd_LeaderAddr (e 0); leaderID = rd_LeaderID (e 0);
          state = rd_State (e 1);
          term = rd_CurrentTerm (e 2);
          servers = (case rd_Configuration (e 3) of Some ss \<Rightarrow> ss | None \<Rightarrow> [])
      in \<lparr>cs_SelfID = node_ID n, cs_SelfRole = raft_state_name state,
          cs_RaftAddr = node_RaftAddr n, cs_HTTPAddr = node_HTTPAddr n,
          cs_LeaderID = leaderID, cs_LeaderRaftAddr = leaderAddr,
          cs_LeaderHTTPAddr = httpAddrFor leaderID leaderAddr n,
          cs_CurrentTerm = term,
          cs_VotedFor = votedForFromStore (later 8 e) n,
          cs_CommitIndex = rd_CommitIndex (e 12), cs_LastLogIndex = rd_LastIndex (e 13),
          cs_LastLogTerm = last_log_term (later 4 e),
          cs_AppliedIndex = rd_AppliedIndex (e 14),
          cs_LastContactMS = last_contact_ms (later 6 e),
          cs_Peers = map (peer_of leaderID leaderAddr state n) servers,
          cs_ActiveClients = SubscriberCount (n_hub n),
          cs_KVData = fsm_GetAll (n_fsm n),
          cs_RaftStats = Some (rd_Stats (e 15)),
          cs_Timestamp = rd_Now (e 16)\<rparr>)"

section \<open>Requests to the engine\<close>

text \<open>\<open>apply\<close> is the outcome of \<open>raft.Apply(data)\<close>: an error or the index of the entry.\<close>

definition new_command :: "string \<Rightarrow> string \<Rightarrow> string \<Rightarrow> time \<Rightarrow> node \<Rightarrow> command" where
  "new_command op key val now n =
     \<lparr>cmd_Op = op, cmd_Key = key, cmd_Value = val, cmd_Timestamp = now, cmd_ClientID = node_ID n\<rparr>"

definition replicated_event ::
  "string \<Rightarrow> string \<Rightarrow> string \<Rightarrow> u64 \<Rightarrow> u64 \<Rightarrow> u64 \<Rightarrow> node \<Rightarrow> event" where
  "replicated_event op key val index term term' n =
     mk_event EventLogReplicated (node_ID n) term
       (''Leader '' @ node_ID n @ '' replicated '' @ op @ '' ['' @ key @ ''='' @ val
        @ ''] to cluster quorum (Log Index '' @ itoa_u64 index @ '')'')
       (VMap [(''index'', VU64 index), (''term'', VU64 term'), (''op'', VOpType op),
              (''key'', VString key), (''value'', VString val)])"

definition ApplyKV ::
  "time_zone \<Rightarrow> engine \<Rightarrow> (string \<Rightarrow> go_error + u64) \<Rightarrow> string \<Rightarrow> string \<Rightarrow> string \<Rightarrow> node \<Rightarrow>
   node \<times> go_error option" where
  "ApplyKV tz e apply op key val n =
     (if rd_State (e 0) \<noteq> Leader
      then (n, Some (''not the leader (current leader: '' @ rd_LeaderAddr (e 1) @ '')''))
      else
        let data = marshal_command tz (new_command op key val (rd_Now (e 1)) n) in
        case apply data of
          Inl err \<Rightarrow> (n, Some (''failed to apply command to raft: '' @ err))
        | Inr index \<Rightarrow>
            (broadcast (replicated_event op key val index (rd_CurrentTerm (e 2)) (rd_CurrentTerm (e 3)) n) n,
             None))"

text \<open>\<open>add\<close>, \<open>remove\<close> and \<open>transfer\<close> are the errors of the engine's futures.\<close>

definition AddVoter ::
  "engine \<Rightarrow> (string \<Rightarrow> string \<Rightarrow> go_error option) \<Rightarrow> string \<Rightarrow> string \<Rightarrow> string \<Rightarrow> node \<Rightarrow>
   node \<times> go_error option" where
  "AddVoter e add nodeID raftAddr httpAddr n =
     (if rd_State (e 0) \<noteq> Leader then (n, Some ''not the leader'')
      else
        let n1 = RegisterPeerHTTP nodeID httpAddr n in
        case add nodeID raftAddr of
          Some err \<Rightarrow>
            (n1, Some (''failed to add voter '' @ nodeID @ '' ('' @ raftAddr @ ''): '' @ err))
        | None \<Rightarrow> (n1, None))"

definition RemoveServer ::
  "engine \<Rightarrow> (string \<Rightarrow> go_error option) \<Rightarrow> string \<Rightarrow> node \<Rightarrow> node \<times> go_error option" where
  "RemoveServer e remove nodeID n =
     (if rd_State (e 0) \<noteq> Leader then (n, Some ''not the leader'')
      else case remove nodeID of
             Some err \<Rightarrow> (n, Some (''failed to remove server '' @ nodeID @ '': '' @ err))
           | None \<Rightarrow> (n\<lparr>n_peerHealth := (n_peerHealth n)(nodeID := None)\<rparr>, None))"

definition state_event :: "engine \<Rightarrow> string \<Rightarrow> node \<Rightarrow> event" where
  "state_event e msg n =
     mk_event EventStateSnapshot (node_ID n) (rd_CurrentTerm (e 0)) msg (VState (GetState (later 1 e) n))"

definition SetPeerHealth :: "engine \<Rightarrow> string \<Rightarrow> bool \<Rightarrow> node \<Rightarrow> node" where
  "SetPeerHealth e nodeID healthy n =
     (let n1 = n\<lparr>n_peerHealth := (n_peerHealth n)(nodeID \<mapsto> healthy)\<rparr>;
          status = (if healthy then ''online'' else ''offline'');
          n2 = broadcast (mk_event EventNodeStatusChanged nodeID (rd_CurrentTerm (e 0))
                 (''Node '' @ nodeID @ '' is '' @ status)
                 (VMap [(''node_id'', VString nodeID), (''healthy'', VBool healthy)])) n1
      in broadcast (state_event (later 1 e) ''State sync'' n2) n2)"

datatype transfer_request = TransferTo string string | TransferAny

definition TransferLeadership ::
  "engine \<Rightarrow> (transfer_request \<Rightarrow> go_error option) \<Rightarrow> string \<Rightarrow> string \<Rightarrow> go_error option" where
  "TransferLeadership e transfer targetID targetAddr =
     (if rd_State (e 0) \<noteq> Leader then Some ''not the leader''
      else let request = (if targetID \<noteq> [] \<and> targetAddr \<noteq> [] then TransferTo targetID targetAddr
                          else TransferAny)
           in map_option (\<lambda>err. ''failed to transfer leadership: '' @ err) (transfer request))"

section \<open>Polling and shutdown\<close>

definition onSSEDeactivated :: "node \<Rightarrow> node" where
  "onSSEDeactivated n =
     (if \<not> n_pollingRunning n then n
      else
        let n1 = n\<lparr>n_pollingRunning := False\<rparr> in
        case n_pollCancel n1 of
          None \<Rightarrow> n1
        | Some c \<Rightarrow>
            if c \<in> n_closedChans n1 then n1\<lparr>n_crashed := True\<rparr>
            else n1\<lparr>n_closedChans := insert c (n_closedChans n1), n_pollCancel := None\<rparr>)"

text \<open>Closing \<open>stopCh\<close> twice is a panic.  The engine, the transport and the log store are
  released in this order; an error of the engine's shutdown is only logged.\<close>

datatype release = ShutdownRaft | CloseTransport | CloseBoltStore

definition Close :: "node \<Rightarrow> node \<times> release list" where
  "Close n =
     (if n_stopClosed n then (n\<lparr>n_crashed := True\<rparr>, [])
      else
        let n1 = n\<lparr>n_stopClosed := True\<rparr>;
            n2 = (if n_pollingRunning n1 then onSSEDeactivated n1 else n1)
        in if n_crashed n2 then (n2, []) else (n2, [ShutdownRaft, CloseTransport, CloseBoltStore]))"

end
