(* ===== verification/Process_Manager.thy ===== *)
theory Process_Manager imports Raft_Node Go_Json begin

text \<open>
  \<open>internal/processmgr/manager.go\<close>: the manager that starts and stops further node
  processes on this machine.  What the operating system answers is an argument \<open>os\<close>; what
  the manager does to the machine is the list of effects an operation returns.
\<close>

section \<open>State\<close>

record process_info =
  pr_NodeID :: string
  pr_RaftAddr :: string
  pr_HTTPAddr :: string
  pr_DataDir :: string
  pr_PID :: int
  pr_StartTime :: time
  pr_started :: bool

record manager =
  m_children :: "string \<rightharpoonup> process_info"
  m_localNodeID :: string
  m_localHTTP :: string
  m_localRaft :: string
  m_executable :: string
  m_nextPort :: int

text \<open>\<open>os_free k p\<close>: the \<open>k\<close>-th search of an operation can listen on port \<open>p\<close>.\<close>

record os =
  os_free :: "nat \<Rightarrow> int \<Rightarrow> bool"
  os_open :: "string \<Rightarrow> go_error option"
  os_start :: "string \<Rightarrow> string list \<Rightarrow> go_error + int"
  os_now :: time

datatype os_effect =
    RemoveAll string | MakeDir string | OpenLog string | StartProcess string "string list"
  | Kill int | Pkill string

definition NewManager :: "string option \<Rightarrow> string \<Rightarrow> string \<Rightarrow> string \<Rightarrow> manager \<times> os_effect list" where
  "NewManager exe localNodeID localRaft localHTTP =
     (\<lparr>m_children = Map.empty, m_localNodeID = localNodeID, m_localHTTP = localHTTP,
       m_localRaft = localRaft,
       m_executable = (case exe of Some x \<Rightarrow> x | None \<Rightarrow> ''./bin/raft-node''), m_nextPort = 7004\<rparr>,
      [MakeDir ''logs'', MakeDir ''data''])"

section \<open>Ports\<close>

fun search_port :: "(int \<Rightarrow> bool) \<Rightarrow> nat \<Rightarrow> int \<Rightarrow> int option" where
  "search_port free 0 port = None"
| "search_port free (Suc k) port = (if free port then Some port else search_port free k (port + 1))"

definition FindFreePort :: "(int \<Rightarrow> bool) \<Rightarrow> int \<Rightarrow> go_error + int" where
  "FindFreePort free startPort =
     (case search_port free 2000 startPort of
        Some port \<Rightarrow> Inr port
      | None \<Rightarrow> Inl (''no free port available in range starting at '' @ itoa_int startPort))"

section \<open>Node IDs\<close>

definition unix_seconds :: "time \<Rightarrow> int" where
  "unix_seconds t = t div 1000000000 - 62135596800"

definition node_name :: "nat \<Rightarrow> string" where
  "node_name i = ''node-'' @ itoa i"

definition used_ids :: "string list \<Rightarrow> manager \<Rightarrow> string set" where
  "used_ids existingPeers m = insert (m_localNodeID m) (set existingPeers \<union> dom (m_children m))"

text \<open>Go's \<open>%\<close> keeps the sign of its left operand.\<close>

definition go_mod :: "int \<Rightarrow> int \<Rightarrow> int" where
  "go_mod a b = sgn a * (\<bar>a\<bar> mod \<bar>b\<bar>)"

definition NextAvailableNodeID :: "time \<Rightarrow> string list \<Rightarrow> manager \<Rightarrow> string" where
  "NextAvailableNodeID now existingPeers m =
     (case find (\<lambda>i. node_name i \<notin> used_ids existingPeers m) [1..<501] of
        Some i \<Rightarrow> node_name i
      | None \<Rightarrow> ''node-'' @ itoa_int (go_mod (unix_seconds now) 10000))"

section \<open>Starting and stopping\<close>

definition spawn_args :: "string \<Rightarrow> string \<Rightarrow> string \<Rightarrow> string \<Rightarrow> string \<Rightarrow> string list" where
  "spawn_args nodeID raftAddr httpAddr dataDir joinAddr =
     [''--node-id='' @ nodeID, ''--raft-addr='' @ raftAddr, ''--http-addr='' @ httpAddr,
      ''--data-dir='' @ dataDir, ''--join-addr='' @ joinAddr]"

definition find_http_port :: "os \<Rightarrow> int \<Rightarrow> go_error + int" where
  "find_http_port os raftPort =
     (case FindFreePort (os_free os 1) (raftPort + 1000) of
        Inr port \<Rightarrow> Inr port
      | Inl _ \<Rightarrow> FindFreePort (os_free os 2) 8004)"

definition SpawnNode ::
  "os \<Rightarrow> string \<Rightarrow> string \<Rightarrow> manager \<Rightarrow> manager \<times> os_effect list \<times> (go_error + process_info)" where
  "SpawnNode os nodeID join m =
     (let joinHTTPAddr = (if join = [] then ''http://'' @ m_localHTTP m else join) in
      case FindFreePort (os_free os 0) (m_nextPort m) of
        Inl err \<Rightarrow> (m, [], Inl (''failed to find raft port: '' @ err))
      | Inr raftPort \<Rightarrow>
          let m1 = m\<lparr>m_nextPort := raftPort + 1\<rparr> in
          case find_http_port os raftPort of
            Inl err \<Rightarrow> (m1, [], Inl (''failed to find http port: '' @ err))
          | Inr httpPort \<Rightarrow>
              let raftAddr = ''127.0.0.1:'' @ itoa_int raftPort;
                  httpAddr = ''127.0.0.1:'' @ itoa_int httpPort;
                  dataDir = path_join [''data'', nodeID];
                  logFilePath = path_join [''logs'', nodeID @ ''.log''];
                  prepare = [RemoveAll dataDir, MakeDir dataDir, OpenLog logFilePath]
              in case os_open os logFilePath of
                   Some err \<Rightarrow> (m1, prepare, Inl (''failed to open log file: '' @ err))
                 | None \<Rightarrow>
                     let args = spawn_args nodeID raftAddr httpAddr dataDir joinHTTPAddr;
                         effects = prepare @ [StartProcess (m_executable m1) args]
                     in case os_start os (m_executable m1) args of
                          Inl err \<Rightarrow>
                            (m1, effects, Inl (''failed to start process for '' @ nodeID @ '': '' @ err))
                        | Inr pid \<Rightarrow>
                            let procInfo = \<lparr>pr_NodeID = nodeID, pr_RaftAddr = raftAddr, pr_HTTPAddr = httpAddr,
                                            pr_DataDir = dataDir, pr_PID = pid, pr_StartTime = os_now os,
                                            pr_started = True\<rparr>
                            in (m1\<lparr>m_children := (m_children m1)(nodeID \<mapsto> procInfo)\<rparr>, effects, Inr procInfo))"

text \<open>The pattern is a regular expression; the node ID goes in as it is.\<close>

definition kill_pattern :: "string \<Rightarrow> string" where
  "kill_pattern nodeID = ''node-id='' @ nodeID @ ''('' @ [CHR 0x5C] @ ''s|$)''"

definition StopProcess :: "string \<Rightarrow> manager \<Rightarrow> manager \<times> os_effect list" where
  "StopProcess nodeID m =
     (case m_children m nodeID of
        Some proc \<Rightarrow>
          if pr_started proc
          then (m\<lparr>m_children := (m_children m)(nodeID := None)\<rparr>, [Kill (pr_PID proc), Pkill (kill_pattern nodeID)])
          else (m, [Pkill (kill_pattern nodeID)])
      | None \<Rightarrow> (m, [Pkill (kill_pattern nodeID)]))"

text \<open>\<open>ks\<close> is the order in which the runtime visits the children.\<close>

definition StopAll :: "string list \<Rightarrow> manager \<Rightarrow> manager \<times> os_effect list" where
  "StopAll ks m =
     (m\<lparr>m_children := Map.empty\<rparr>,
      concat (map (\<lambda>k. let proc = the (m_children m k) in if pr_started proc then [Kill (pr_PID proc)] else []) ks))"

section \<open>Joining\<close>

definition join_payload :: "string \<Rightarrow> string \<Rightarrow> string \<Rightarrow> string" where
  "join_payload nodeID raftAddr httpAddr =
     json_print (JObj [(''http_addr'', JStr httpAddr), (''node_id'', JStr nodeID), (''raft_addr'', JStr raftAddr)])"

text \<open>\<open>post\<close> is what the HTTP client answers to a URL and a body: an error or a status.\<close>

definition RequestJoin ::
  "(string \<Rightarrow> string \<Rightarrow> go_error + nat) \<Rightarrow> string \<Rightarrow> string \<Rightarrow> string \<Rightarrow> string \<Rightarrow> go_error option" where
  "RequestJoin post targetHTTPAddr nodeID raftAddr httpAddr =
     (case post (''http://'' @ targetHTTPAddr @ ''/join'') (join_payload nodeID raftAddr httpAddr) of
        Inl err \<Rightarrow> Some err
      | Inr status \<Rightarrow>
          if status \<noteq> 200 then Some (''join request returned status: '' @ itoa status) else None)"

end
