(* ===== verification/Api_Handler.thy ===== *)
theory Api_Handler imports Process_Manager begin

text \<open>
  \<open>internal/api/handler.go\<close>: the HTTP server.  A handler takes the server and the response
  written so far and gives both back with the effects it had on the outside.

  What the handlers ask of the outside is an \<open>api_env\<close>: the engine, the outcomes of its
  requests, the HTTP client, the operating system, and, for the handlers that take a lock
  more than once, what the other goroutines do in between: to the node between two steps of
  the event stream, to the process manager between two steps of a spawn request.
\<close>

section \<open>Responses\<close>

text \<open>An \<open>http.ResponseWriter\<close>.  The first status ends the header: \<open>rw_sent\<close> is what goes
  out.  A later status is only logged; \<open>rw_calls\<close> counts them all.  A status outside
  100..999 is a panic, one below 200 (but for 101) is informational.\<close>

type_synonym http_header = "string \<rightharpoonup> string list"

record response =
  rw_header :: http_header
  rw_status :: "nat option"
  rw_sent :: http_header
  rw_body :: string
  rw_calls :: nat
  rw_panicked :: bool

definition new_response :: response where
  "new_response = \<lparr>rw_header = Map.empty, rw_status = None, rw_sent = Map.empty, rw_body = [],
                   rw_calls = 0, rw_panicked = False\<rparr>"

definition header_set :: "string \<Rightarrow> string \<Rightarrow> response \<Rightarrow> response" where
  "header_set k v r = r\<lparr>rw_header := (rw_header r)(k \<mapsto> [v])\<rparr>"

definition header_add :: "string \<Rightarrow> string \<Rightarrow> response \<Rightarrow> response" where
  "header_add k v r =
     r\<lparr>rw_header := (rw_header r)(k \<mapsto> (case rw_header r k of None \<Rightarrow> [] | Some vs \<Rightarrow> vs) @ [v])\<rparr>"

definition write_header :: "nat \<Rightarrow> response \<Rightarrow> response" where
  "write_header status r =
     (let r1 = r\<lparr>rw_calls := Suc (rw_calls r)\<rparr> in
      if rw_status r \<noteq> None then r1
      else if status < 100 \<or> 999 < status then r1\<lparr>rw_panicked := True\<rparr>
      else if status < 200 \<and> status \<noteq> 101 then r1
      else r1\<lparr>rw_status := Some status, rw_sent := rw_header r\<rparr>)"

definition write_body :: "string \<Rightarrow> response \<Rightarrow> response" where
  "write_body s r =
     (let r1 = (if rw_status r = None then r\<lparr>rw_status := Some 200, rw_sent := rw_header r\<rparr> else r)
      in r1\<lparr>rw_body := rw_body r1 @ s\<rparr>)"

text \<open>\<open>http.Error\<close>\<close>

definition http_error :: "string \<Rightarrow> nat \<Rightarrow> response \<Rightarrow> response" where
  "http_error msg status r =
     write_body (msg @ [CHR 0x0A])
       (write_header status
         (header_set ''X-Content-Type-Options'' ''nosniff''
           (header_set ''Content-Type'' ''text/plain; charset=utf-8''
             (r\<lparr>rw_header := (rw_header r)(''Content-Length'' := None)\<rparr>))))"

definition json_reply :: "nat \<Rightarrow> json \<Rightarrow> response \<Rightarrow> response" where
  "json_reply status data r =
     write_body (json_print data @ [CHR 0x0A])
       (write_header status (header_set ''Content-Type'' ''application/json'' r))"

definition writeJSON :: "nat \<Rightarrow> json \<Rightarrow> response \<Rightarrow> response" where
  "writeJSON status data r = json_reply status data r"

definition writeError :: "nat \<Rightarrow> string \<Rightarrow> response \<Rightarrow> response" where
  "writeError status msg r = json_reply status (JObj [(''error'', JStr msg)]) r"

section \<open>Requests\<close>

text \<open>\<open>rq_Path\<close> is the escaped path of the URL.\<close>

record request =
  rq_Method :: string
  rq_Path :: string
  rq_Body :: string

text \<open>An integer field takes a number without fraction or exponent that fits \<open>int\<close>.\<close>

definition int_value :: "json \<Rightarrow> int \<Rightarrow> int \<times> bool" where
  "int_value v old =
     (case v of
        JNum s \<Rightarrow> (case Atoi s of Some i \<Rightarrow> (i, True) | None \<Rightarrow> (old, False))
      | JNull \<Rightarrow> (old, True)
      | _ \<Rightarrow> (old, False))"

text \<open>Decoding a body into a zero struct, and whether there was no error.\<close>

definition decode_into ::
  "string list \<Rightarrow> (string \<Rightarrow> json \<Rightarrow> 'a \<Rightarrow> 'a \<times> bool) \<Rightarrow> 'a \<Rightarrow> string \<Rightarrow> 'a \<times> bool" where
  "decode_into tags set_field zero body =
     (case json_decode body of
        None \<Rightarrow> (zero, False)
      | Some j \<Rightarrow> decode_struct tags set_field j zero)"

text \<open>\<open>decodeBody\<close> goes on with the decoded struct or answers 400.\<close>

definition decodeBody ::
  "('a \<times> bool) \<Rightarrow> response \<Rightarrow> response \<times> bool" where
  "decodeBody decoded r =
     (if snd decoded then (r, True) else (writeError 400 ''invalid request body'' r, False))"

record join_body =
  jb_NodeID :: string
  jb_RaftAddr :: string
  jb_HTTPAddr :: string

definition set_join_field :: "string \<Rightarrow> json \<Rightarrow> join_body \<Rightarrow> join_body \<times> bool" where
  "set_join_field f v q =
     (if f = ''node_id'' then let (s, ok) = string_value v (jb_NodeID q) in (q\<lparr>jb_NodeID := s\<rparr>, ok)
      else if f = ''raft_addr'' then let (s, ok) = string_value v (jb_RaftAddr q) in (q\<lparr>jb_RaftAddr := s\<rparr>, ok)
      else let (s, ok) = string_value v (jb_HTTPAddr q) in (q\<lparr>jb_HTTPAddr := s\<rparr>, ok))"

definition decode_join :: "string \<Rightarrow> join_body \<times> bool" where
  "decode_join body = decode_into [''node_id'', ''raft_addr'', ''http_addr''] set_join_field
     \<lparr>jb_NodeID = [], jb_RaftAddr = [], jb_HTTPAddr = []\<rparr> body"

definition join_json :: "join_body \<Rightarrow> json" where
  "join_json q = JObj [(''node_id'', JStr (jb_NodeID q)), (''raft_addr'', JStr (jb_RaftAddr q)),
                       (''http_addr'', JStr (jb_HTTPAddr q))]"

definition decode_remove :: "string \<Rightarrow> string \<times> bool" where
  "decode_remove body = decode_into [''node_id''] (\<lambda>f. string_value) [] body"

definition remove_json :: "string \<Rightarrow> json" where
  "remove_json nodeID = JObj [(''node_id'', JStr nodeID)]"

definition decode_transfer :: "string \<Rightarrow> (string \<times> string) \<times> bool" where
  "decode_transfer body = decode_into [''node_id'', ''raft_addr'']
     (\<lambda>f v (i, a). if f = ''node_id'' then let (s, ok) = string_value v i in ((s, a), ok)
                   else let (s, ok) = string_value v a in ((i, s), ok)) ([], []) body"

definition transfer_json :: "string \<times> string \<Rightarrow> json" where
  "transfer_json q = JObj [(''node_id'', JStr (fst q)), (''raft_addr'', JStr (snd q))]"

record set_body =
  sb_Key :: string
  sb_Value :: string

definition set_set_field :: "string \<Rightarrow> json \<Rightarrow> set_body \<Rightarrow> set_body \<times> bool" where
  "set_set_field f v q =
     (if f = ''key'' then let (s, ok) = string_value v (sb_Key q) in (q\<lparr>sb_Key := s\<rparr>, ok)
      else let (s, ok) = string_value v (sb_Value q) in (q\<lparr>sb_Value := s\<rparr>, ok))"

definition decode_set :: "string \<Rightarrow> set_body \<times> bool" where
  "decode_set body = decode_into [''key'', ''value''] set_set_field \<lparr>sb_Key = [], sb_Value = []\<rparr> body"

definition set_json :: "set_body \<Rightarrow> json" where
  "set_json q = JObj [(''key'', JStr (sb_Key q)), (''value'', JStr (sb_Value q))]"

definition decode_delete :: "string \<Rightarrow> string \<times> bool" where
  "decode_delete body = decode_into [''key''] (\<lambda>f. string_value) [] body"

definition delete_json :: "string \<Rightarrow> json" where
  "delete_json key = JObj [(''key'', JStr key)]"

definition decode_spawn :: "string \<Rightarrow> int \<times> bool" where
  "decode_spawn body = decode_into [''count''] (\<lambda>f. int_value) 0 body"

section \<open>The server and what it talks to\<close>

record server =
  s_node :: node
  s_procMgr :: manager
  s_webFS :: bool
  s_httpServer :: bool

definition NewServer :: "node \<Rightarrow> manager \<Rightarrow> bool \<Rightarrow> server" where
  "NewServer node procMgr webFS =
     \<lparr>s_node = node, s_procMgr = procMgr, s_webFS = webFS, s_httpServer = False\<rparr>"

text \<open>\<open>listen\<close> and \<open>close\<close> are the errors of the standard library's server.\<close>

definition server_ListenAndServe :: "(string \<Rightarrow> go_error option) \<Rightarrow> string \<Rightarrow> server \<Rightarrow> server \<times> go_error option" where
  "server_ListenAndServe listen addr s = (s\<lparr>s_httpServer := True\<rparr>, listen addr)"

definition server_Close :: "go_error option \<Rightarrow> server \<Rightarrow> go_error option" where
  "server_Close close s = (if s_httpServer s then close else None)"

record http_response =
  hr_status :: nat
  hr_header :: "(string \<times> string list) list"
  hr_body :: string

text \<open>What comes of a request of the HTTP client: the URL cannot be parsed, the exchange
  fails, or there is an answer.\<close>

datatype client_result = BadURL | ClientFailed go_error | Answered http_response

datatype api_effect = Call string string string | OsEffect os_effect | ScheduleExit | Go hub_go

record api_env =
  en_engine :: engine
  en_tz :: time_zone
  en_apply :: "string \<Rightarrow> go_error + u64"
  en_add :: "string \<Rightarrow> string \<Rightarrow> go_error option"
  en_remove :: "string \<Rightarrow> go_error option"
  en_transfer :: "transfer_request \<Rightarrow> go_error option"
  en_client :: "string \<Rightarrow> string \<Rightarrow> string \<Rightarrow> client_result"
  en_os :: "nat \<Rightarrow> os"
  en_now :: "nat \<Rightarrow> time"
  en_manager :: "nat \<Rightarrow> manager \<Rightarrow> manager"
  en_flusher :: bool
  en_others :: "nat \<Rightarrow> node \<Rightarrow> node"
  en_wakes :: "(node \<Rightarrow> node) list"
  en_static :: "request \<Rightarrow> response \<Rightarrow> response"
  en_redirect :: "request \<Rightarrow> string \<Rightarrow> response \<Rightarrow> response"

type_synonym answer = "server \<times> response \<times> api_effect list"

section \<open>Forwarding\<close>

definition proxyJSON ::
  "api_env \<Rightarrow> string \<Rightarrow> string \<Rightarrow> json \<Rightarrow> response \<Rightarrow> response \<times> api_effect list" where
  "proxyJSON env method targetURL data r =
     (let body = json_print data in
      case en_client env method targetURL body of
        BadURL \<Rightarrow> (http_error ''failed to create proxy request'' 500 r, [])
      | ClientFailed err \<Rightarrow>
          (http_error (''proxy to leader failed: '' @ err) 502 r, [Call method targetURL body])
      | Answered resp \<Rightarrow>
          let r1 = fold (\<lambda>(k, vv). fold (header_add k) vv) (hr_header resp) r;
              r2 = write_header (hr_status resp) r1
          in (if rw_panicked r2 then r2 else write_body (hr_body resp) r2, [Call method targetURL body]))"

text \<open>\<open>None\<close>: no leader is known.\<close>

definition forwardToLeader ::
  "api_env \<Rightarrow> engine \<Rightarrow> string \<Rightarrow> json \<Rightarrow> node \<Rightarrow> response \<Rightarrow> (response \<times> api_effect list) option" where
  "forwardToLeader env e path payload n r =
     (let state = GetState e n in
      if cs_LeaderHTTPAddr state = [] then None
      else Some (proxyJSON env ''POST'' (''http://'' @ cs_LeaderHTTPAddr state @ path) payload r))"

definition notLeader :: "response \<Rightarrow> response" where
  "notLeader r = writeError 503 ''not leader and leader unknown'' r"

definition reply :: "server \<Rightarrow> response \<Rightarrow> answer" where
  "reply s r = (s, r, [])"

text \<open>The common end of a handler on a node that does not lead.\<close>

definition forward_or ::
  "api_env \<Rightarrow> string \<Rightarrow> json \<Rightarrow> response \<Rightarrow> server \<Rightarrow> response \<Rightarrow> answer" where
  "forward_or env path payload otherwise s r =
     (case forwardToLeader env (later 1 (en_engine env)) path payload (s_node s) r of
        Some (r', effs) \<Rightarrow> (s, r', effs)
      | None \<Rightarrow> reply s otherwise)"

definition success_message :: "string \<Rightarrow> json" where
  "success_message msg = JObj [(''message'', JStr msg), (''success'', JBool True)]"

section \<open>State and event stream\<close>

definition handleGetState :: "api_env \<Rightarrow> request \<Rightarrow> server \<Rightarrow> response \<Rightarrow> answer" where
  "handleGetState env req s r =
     reply s (writeJSON 200 (cluster_state_json (en_tz env) (GetState (en_engine env) (s_node s))) r)"

definition sse_frame :: "time_zone \<Rightarrow> event \<Rightarrow> string" where
  "sse_frame tz evt =
     (if ev_ID evt \<noteq> [] then ''id: '' @ ev_ID evt @ [CHR 0x0A] else [])
     @ ''event: '' @ event_type_name (ev_Type evt) @ [CHR 0x0A]
     @ ''data: '' @ json_print (event_json tz evt) @ [CHR 0x0A, CHR 0x0A]"

definition writeSSE :: "time_zone \<Rightarrow> event \<Rightarrow> response \<Rightarrow> response" where
  "writeSSE tz evt r = write_body (sse_frame tz evt) r"

text \<open>The loop: before each \<open>select\<close> the other goroutines do \<open>w\<close>; the end of the list is
  the end of the request's context.\<close>

fun sse_live :: "time_zone \<Rightarrow> nat \<Rightarrow> (node \<Rightarrow> node) list \<Rightarrow> node \<Rightarrow> response \<Rightarrow> node \<times> response" where
  "sse_live tz ch [] n r = (n, r)"
| "sse_live tz ch (w # ws) n r =
     (let n1 = w n in
      case receive ch (n_hub n1) of
        (Some evt, h) \<Rightarrow> sse_live tz ch ws (n1\<lparr>n_hub := h\<rparr>) (writeSSE tz evt r)
      | (None, h) \<Rightarrow> if ch_closed (h_chans (n_hub n1) ch) then (n1, r) else sse_live tz ch ws n1 r)"

definition sse_headers :: "response \<Rightarrow> response" where
  "sse_headers r =
     header_set ''X-Accel-Buffering'' ''no'' (header_set ''Connection'' ''keep-alive''
       (header_set ''Cache-Control'' ''no-cache'' (header_set ''Content-Type'' ''text/event-stream'' r)))"

definition handleSSEEvents :: "api_env \<Rightarrow> request \<Rightarrow> server \<Rightarrow> response \<Rightarrow> answer" where
  "handleSSEEvents env req s r =
     (if \<not> en_flusher env then reply s (http_error ''Streaming unsupported'' 500 r)
      else
        let tz = en_tz env; other = en_others env;
            n0 = s_node s;
            (ch, h, started) = Subscribe (n_hub n0);
            n1 = other 0 (n0\<lparr>n_hub := h\<rparr>);
            r1 = writeSSE tz (mk_event EventStateSnapshot [] 0 [] (VState (GetState (en_engine env) n1))) (sse_headers r);
            n2 = other 1 n1;
            r2 = fold (writeSSE tz) (GetHistory (n_hub n2)) r1;
            n3 = other 2 n2;
            r3 = fold (writeSSE tz) (GetHeartbeatHistory (n_hub n3)) r2;
            r4 = writeSSE tz (mk_event EventSyncComplete [] 0 [] (VMap [])) r3;
            (n4, r5) = sse_live tz ch (en_wakes env) n3 r4;
            (h', stopped) = unsubscribe ch (n_hub n4)
        in (s\<lparr>s_node := n4\<lparr>n_hub := h'\<rparr>\<rparr>, r5, map Go (started @ stopped)))"

section \<open>Membership\<close>

definition handleJoin :: "api_env \<Rightarrow> request \<Rightarrow> server \<Rightarrow> response \<Rightarrow> answer" where
  "handleJoin env req s r =
     (let e = en_engine env; d = decode_join (rq_Body req); q = fst d; (r1, ok) = decodeBody d r in
      if \<not> ok then reply s r1
      else if jb_NodeID q = [] \<or> jb_RaftAddr q = [] then
        reply s (writeError 400 ''node_id and raft_addr are required'' r1)
      else if \<not> IsLeader e then
        forward_or env ''/join'' (join_json q) (writeError 503 ''leader unknown, retry shortly'' r1) s r1
      else
        let (n, err) = AddVoter (later 1 e) (en_add env) (jb_NodeID q) (jb_RaftAddr q) (jb_HTTPAddr q) (s_node s);
            s1 = s\<lparr>s_node := n\<rparr>
        in case err of
             Some msg \<Rightarrow> reply s1 (writeError 500 msg r1)
           | None \<Rightarrow> reply s1 (writeJSON 200 (success_message (''Node '' @ jb_NodeID q @ '' joined cluster'')) r1))"

definition handleRemove :: "api_env \<Rightarrow> request \<Rightarrow> server \<Rightarrow> response \<Rightarrow> answer" where
  "handleRemove env req s r =
     (let e = en_engine env; d = decode_remove (rq_Body req); nodeID = fst d; (r1, ok) = decodeBody d r in
      if \<not> ok then reply s r1
      else if nodeID = [] then reply s (writeError 400 ''node_id is required'' r1)
      else if \<not> IsLeader e then
        forward_or env ''/remove'' (remove_json nodeID) (notLeader r1) s r1
      else
        let (n, err) = RemoveServer (later 1 e) (en_remove env) nodeID (s_node s);
            s1 = s\<lparr>s_node := n\<rparr>
        in case err of
             Some msg \<Rightarrow> reply s1 (writeError 500 msg r1)
           | None \<Rightarrow> reply s1 (writeJSON 200 (success_message (''Node '' @ nodeID @ '' removed from cluster'')) r1))"

definition handleLeaderTransfer :: "api_env \<Rightarrow> request \<Rightarrow> server \<Rightarrow> response \<Rightarrow> answer" where
  "handleLeaderTransfer env req s r =
     (let e = en_engine env; q = fst (decode_transfer (rq_Body req)) in
      if \<not> IsLeader e then
        forward_or env ''/leader/transfer'' (transfer_json q) (writeError 503 ''not leader'' r) s r
      else
        case TransferLeadership (later 1 e) (en_transfer env) (fst q) (snd q) of
          Some msg \<Rightarrow> reply s (writeError 500 msg r)
        | None \<Rightarrow> reply s (writeJSON 200 (success_message ''Leadership transfer initiated'') r))"

section \<open>The key-value store\<close>

definition proposal_forwarded_event :: "cluster_state \<Rightarrow> set_body \<Rightarrow> node \<Rightarrow> event" where
  "proposal_forwarded_event state q n =
     mk_event EventProposalForwarded (node_ID n) (cs_CurrentTerm state)
       (''Follower '' @ node_ID n @ '' forwarding write proposal ['' @ sb_Key q @ ''='' @ sb_Value q
        @ ''] to Leader '' @ cs_LeaderID state @ '' ('' @ cs_LeaderHTTPAddr state @ '')'')
       (VMap [(''from_node'', VString (node_ID n)), (''to_node'', VString (cs_LeaderID state)),
              (''key'', VString (sb_Key q)), (''value'', VString (sb_Value q))])"

definition proposal_received_event :: "cluster_state \<Rightarrow> set_body \<Rightarrow> node \<Rightarrow> event" where
  "proposal_received_event state q n =
     mk_event EventProposalReceived (node_ID n) (cs_CurrentTerm state)
       (''Leader '' @ node_ID n @ '' received write proposal ['' @ sb_Key q @ ''='' @ sb_Value q
        @ ''], proposing to Raft log...'')
       (VMap [(''key'', VString (sb_Key q)), (''value'', VString (sb_Value q))])"

definition handleFSMSet :: "api_env \<Rightarrow> request \<Rightarrow> server \<Rightarrow> response \<Rightarrow> answer" where
  "handleFSMSet env req s r =
     (let e = en_engine env; d = decode_set (rq_Body req); q = fst d; (r1, ok) = decodeBody d r in
      if \<not> ok then reply s r1
      else if sb_Key q = [] then reply s (writeError 400 ''key is required'' r1)
      else if \<not> IsLeader e then
        (let state = GetState (later 1 e) (s_node s) in
         if cs_LeaderHTTPAddr state = [] then reply s (notLeader r1)
         else
           let s1 = s\<lparr>s_node := broadcast (proposal_forwarded_event state q (s_node s)) (s_node s)\<rparr>;
               (r2, effs) = proxyJSON env ''POST'' (''http://'' @ cs_LeaderHTTPAddr state @ ''/fsm/set'') (set_json q) r1
           in (s1, r2, effs))
      else
        let n1 = broadcast (proposal_received_event (GetState (later 1 e) (s_node s)) q (s_node s)) (s_node s);
            (n2, err) = ApplyKV (en_tz env) (later 18 e) (en_apply env) OpSet (sb_Key q) (sb_Value q) n1;
            s1 = s\<lparr>s_node := n2\<rparr>
        in case err of
             Some msg \<Rightarrow> reply s1 (writeError 500 msg r1)
           | None \<Rightarrow>
               reply s1 (writeJSON 200 (JObj [(''key'', JStr (sb_Key q)), (''success'', JBool True),
                                             (''value'', JStr (sb_Value q))]) r1))"

text \<open>The check for an empty key also answers when the body could not be decoded.\<close>

definition handleFSMDelete :: "api_env \<Rightarrow> request \<Rightarrow> server \<Rightarrow> response \<Rightarrow> answer" where
  "handleFSMDelete env req s r =
     (let e = en_engine env; d = decode_delete (rq_Body req); key = fst d; (r1, ok) = decodeBody d r in
      if \<not> ok \<or> key = [] then reply s (writeError 400 ''key is required'' r1)
      else if \<not> IsLeader e then forward_or env ''/fsm/delete'' (delete_json key) (notLeader r1) s r1
      else
        let (n, err) = ApplyKV (en_tz env) (later 1 e) (en_apply env) OpDelete key [] (s_node s);
            s1 = s\<lparr>s_node := n\<rparr>
        in case err of
             Some msg \<Rightarrow> reply s1 (writeError 500 msg r1)
           | None \<Rightarrow> reply s1 (writeJSON 200 (JObj [(''key'', JStr key), (''success'', JBool True)]) r1))"

definition handleFSMData :: "api_env \<Rightarrow> request \<Rightarrow> server \<Rightarrow> response \<Rightarrow> answer" where
  "handleFSMData env req s r =
     reply s (writeJSON 200
       (JObj [(''data'', string_map_json (fsm_GetAll (node_FSM (s_node s)))),
              (''history'', JArr (map (applied_entry_json (en_tz env)) (fsm_GetHistory (node_FSM (s_node s)))))]) r)"

section \<open>Node processes\<close>

text \<open>The \<open>i\<close>-th round of the loop finds the machine as \<open>en_os env i\<close>.  Choosing the name and
  spawning the node are two critical sections of the manager; \<open>en_manager env (2 * i)\<close> is what
  other requests do to it before the first, \<open>en_manager env (2 * i + 1)\<close> between the two.\<close>

fun spawn_loop ::
  "api_env \<Rightarrow> string \<Rightarrow> nat \<Rightarrow> nat \<Rightarrow> string list \<Rightarrow> manager \<Rightarrow> manager \<times> process_info list \<times> os_effect list" where
  "spawn_loop env join 0 i peers m = (m, [], [])"
| "spawn_loop env join (Suc k) i peers m =
     (let m0 = en_manager env (2 * i) m;
          newNodeID = NextAvailableNodeID (en_now env i) peers m0;
          (m1, effs, result) = SpawnNode (en_os env i) newNodeID join (en_manager env (2 * i + 1) m0);
          (m2, ps, effs') = spawn_loop env join k (Suc i) (peers @ [newNodeID]) m1
      in (m2, (case result of Inr p \<Rightarrow> p # ps | Inl err \<Rightarrow> ps), effs @ effs'))"

definition spawn_count :: "int \<Rightarrow> nat" where
  "spawn_count requested = nat (min (if 0 < requested then requested else 1) 50)"

definition spawned_json :: "process_info \<Rightarrow> json" where
  "spawned_json p = JObj [(''http_addr'', JStr (pr_HTTPAddr p)), (''node_id'', JStr (pr_NodeID p)),
                          (''pid'', JNum (itoa_int (pr_PID p))), (''raft_addr'', JStr (pr_RaftAddr p))]"

definition handleSpawnNodes :: "api_env \<Rightarrow> request \<Rightarrow> server \<Rightarrow> response \<Rightarrow> answer" where
  "handleSpawnNodes env req s r =
     (let count = spawn_count (fst (decode_spawn (rq_Body req)));
          state = GetState (en_engine env) (s_node s);
          joinAddr = (if cs_LeaderHTTPAddr state \<noteq> [] then ''http://'' @ cs_LeaderHTTPAddr state
                      else ''http://'' @ node_HTTPAddr (s_node s));
          (m, ps, effs) = spawn_loop env joinAddr count 0 (map pi_ID (cs_Peers state)) (s_procMgr s)
      in (s\<lparr>s_procMgr := m\<rparr>,
          writeJSON 201
            (JObj [(''message'', JStr (''Spawned '' @ itoa (length ps) @ '' node(s)'')),
                   (''nodes'', JArr (map spawned_json ps)), (''success'', JBool True)]) r,
          map OsEffect effs))"

definition handleStopNode :: "api_env \<Rightarrow> string \<Rightarrow> request \<Rightarrow> server \<Rightarrow> response \<Rightarrow> answer" where
  "handleStopNode env nodeID req s r =
     (let n = SetPeerHealth (en_engine env) nodeID False (s_node s);
          (m, effs) = StopProcess nodeID (s_procMgr s)
      in (s\<lparr>s_node := n, s_procMgr := m\<rparr>,
          writeJSON 200 (success_message (''Node process '' @ nodeID @ '' stopped (offline)'')) r,
          map OsEffect effs @ (if nodeID = node_ID n then [ScheduleExit] else [])))"

definition requestRemove :: "string \<Rightarrow> string \<Rightarrow> api_effect list" where
  "requestRemove leaderHTTP nodeID =
     [Call ''POST'' (''http://'' @ leaderHTTP @ ''/remove'') (json_print (JObj [(''node_id'', JStr nodeID)]))]"

definition handleRemoveNode :: "api_env \<Rightarrow> string \<Rightarrow> request \<Rightarrow> server \<Rightarrow> response \<Rightarrow> answer" where
  "handleRemoveNode env nodeID req s r =
     (let e = en_engine env;
          (n, calls) =
            (if IsLeader e then (fst (RemoveServer (later 1 e) (en_remove env) nodeID (s_node s)), [])
             else let state = GetState (later 1 e) (s_node s)
                  in (s_node s, if cs_LeaderHTTPAddr state \<noteq> [] then requestRemove (cs_LeaderHTTPAddr state) nodeID
                                else []));
          (m, effs) = StopProcess nodeID (s_procMgr s)
      in (s\<lparr>s_node := n, s_procMgr := m\<rparr>,
          writeJSON 200 (success_message (''Node '' @ nodeID @ '' removed and stopped'')) r,
          calls @ map OsEffect effs))"

section \<open>Routes\<close>

text \<open>Percent escapes of a path segment; an ill-formed segment stays as it is.\<close>

fun percent_decode :: "string \<Rightarrow> string option" where
  "percent_decode [] = Some []"
| "percent_decode (c # t) =
     (if c = CHR ''%'' then
        (case t of
           a # b # u \<Rightarrow>
             (case (hex_val a, hex_val b) of
                (Some x, Some y) \<Rightarrow> map_option (\<lambda>r. char_of (16 * x + y) # r) (percent_decode u)
              | _ \<Rightarrow> None)
         | _ \<Rightarrow> None)
      else map_option (\<lambda>r. c # r) (percent_decode t))"

definition path_unescape :: "string \<Rightarrow> string" where
  "path_unescape s = (case percent_decode s of Some t \<Rightarrow> t | None \<Rightarrow> s)"

text \<open>The segments a \<open>ServeMux\<close> matches; \<open>/\<close> stands for a trailing slash, which no single
  wildcard takes.\<close>

definition path_segments :: "string \<Rightarrow> string list" where
  "path_segments p = map (\<lambda>w. if w = [] then ''/'' else path_unescape w) (split_on (CHR ''/'') (tl p))"

definition clean_url :: "string \<Rightarrow> string" where
  "clean_url p =
     (if p = [] then ''/''
      else let p1 = (if hd p \<noteq> CHR ''/'' then CHR ''/'' # p else p); np = path_clean p1
           in if last p1 = CHR ''/'' \<and> np \<noteq> ''/'' then np @ ''/'' else np)"

datatype route =
    GetStateRoute | EventsRoute | JoinRoute | RemoveRoute | TransferRoute | SetRoute | DeleteRoute
  | DataRoute | SpawnRoute | StopRoute string | RemoveNodeRoute string | StaticRoute

definition routes :: "string \<Rightarrow> string list \<Rightarrow> route" where
  "routes method segs =
     (if method = ''GET'' \<or> method = ''HEAD'' then
        (if segs = [''state''] then GetStateRoute
         else if segs = [''events''] then EventsRoute
         else if segs = [''fsm'', ''data''] then DataRoute
         else StaticRoute)
      else if method = ''POST'' then
        (if segs = [''join''] then JoinRoute
         else if segs = [''remove''] then RemoveRoute
         else if segs = [''leader'', ''transfer''] then TransferRoute
         else if segs = [''fsm'', ''set''] then SetRoute
         else if segs = [''fsm'', ''delete''] then DeleteRoute
         else if segs = [''nodes''] then SpawnRoute
         else if length segs = 3 \<and> hd segs = ''nodes'' \<and> segs ! 1 \<noteq> ''/'' \<and> segs ! 2 = ''stop''
         then StopRoute (segs ! 1)
         else StaticRoute)
      else if method = ''DELETE'' then
        (if length segs = 2 \<and> hd segs = ''nodes'' \<and> segs ! 1 \<noteq> ''/'' then RemoveNodeRoute (segs ! 1)
         else StaticRoute)
      else StaticRoute)"

text \<open>\<open>/\<close> without a frontend.\<close>

definition root_handler :: "request \<Rightarrow> response \<Rightarrow> response" where
  "root_handler req r =
     (if path_unescape (rq_Path req) \<noteq> ''/'' then http_error ''404 page not found'' 404 r
      else write_body ''Raft Node API Server'' (header_set ''Content-Type'' ''text/plain'' r))"

fun run_route :: "api_env \<Rightarrow> route \<Rightarrow> request \<Rightarrow> server \<Rightarrow> response \<Rightarrow> answer" where
  "run_route env GetStateRoute req s r = handleGetState env req s r"
| "run_route env EventsRoute req s r = handleSSEEvents env req s r"
| "run_route env JoinRoute req s r = handleJoin env req s r"
| "run_route env RemoveRoute req s r = handleRemove env req s r"
| "run_route env TransferRoute req s r = handleLeaderTransfer env req s r"
| "run_route env SetRoute req s r = handleFSMSet env req s r"
| "run_route env DeleteRoute req s r = handleFSMDelete env req s r"
| "run_route env DataRoute req s r = handleFSMData env req s r"
| "run_route env SpawnRoute req s r = handleSpawnNodes env req s r"
| "run_route env (StopRoute i) req s r = handleStopNode env i req s r"
| "run_route env (RemoveNodeRoute i) req s r = handleRemoveNode env i req s r"
| "run_route env StaticRoute req s r =
     reply s (if s_webFS s then en_static env req r else root_handler req r)"

text \<open>The \<open>ServeMux\<close> sends a path that is not clean to its clean form.\<close>

definition mux_ServeHTTP :: "api_env \<Rightarrow> request \<Rightarrow> server \<Rightarrow> response \<Rightarrow> answer" where
  "mux_ServeHTTP env req s r =
     (if rq_Method req \<noteq> ''CONNECT'' \<and> clean_url (rq_Path req) \<noteq> rq_Path req
      then reply s (en_redirect env req (clean_url (rq_Path req)) r)
      else run_route env (routes (rq_Method req) (path_segments (rq_Path req))) req s r)"

definition cors_headers :: "response \<Rightarrow> response" where
  "cors_headers r =
     header_set ''Access-Control-Allow-Headers'' ''Content-Type, Authorization''
       (header_set ''Access-Control-Allow-Methods'' ''GET, POST, DELETE, OPTIONS, PUT''
         (header_set ''Access-Control-Allow-Origin'' ''*'' r))"

definition ServeHTTP :: "api_env \<Rightarrow> request \<Rightarrow> server \<Rightarrow> response \<Rightarrow> answer" where
  "ServeHTTP env req s r =
     (if rq_Method req = ''OPTIONS'' then reply s (write_header 200 (cors_headers r))
      else mux_ServeHTTP env req s (cors_headers r))"

end
