(* ===== verification/Main_Program.thy ===== *)
theory Main_Program imports Process_Manager begin

text \<open>
  \<open>main.go\<close>: the flags, the start of a node, the join loop and the shutdown.  The flag
  parser is that of the standard library's \<open>flag\<close> package.
\<close>

section \<open>Flags\<close>

definition default_config :: node_config where
  "default_config =
     \<lparr>c_NodeID = ''node-1'', c_RaftAddr = ''127.0.0.1:7001'', c_HTTPAddr = ''127.0.0.1:8001'',
      c_DataDir = [], c_Bootstrap = False, c_JoinAddr = []\<rparr>"

definition ParseBool :: "string \<Rightarrow> bool option" where
  "ParseBool s =
     (if s \<in> {''1'', ''t'', ''T'', ''TRUE'', ''true'', ''True''} then Some True
      else if s \<in> {''0'', ''f'', ''F'', ''FALSE'', ''false'', ''False''} then Some False
      else None)"

definition set_string_flag :: "string \<Rightarrow> string \<Rightarrow> node_config \<Rightarrow> node_config option" where
  "set_string_flag name v c =
     (if name = ''node-id'' then Some (c\<lparr>c_NodeID := v\<rparr>)
      else if name = ''raft-addr'' then Some (c\<lparr>c_RaftAddr := v\<rparr>)
      else if name = ''http-addr'' then Some (c\<lparr>c_HTTPAddr := v\<rparr>)
      else if name = ''data-dir'' then Some (c\<lparr>c_DataDir := v\<rparr>)
      else if name = ''join-addr'' then Some (c\<lparr>c_JoinAddr := v\<rparr>)
      else None)"

text \<open>A name and, after the first \<open>=\<close> that is not at its start, a value.\<close>

definition split_flag :: "string \<Rightarrow> string \<times> string option" where
  "split_flag name =
     (case index_of (CHR ''='') (tl name) of
        None \<Rightarrow> (name, None)
      | Some i \<Rightarrow> (take (Suc i) name, Some (drop (i + 2) name)))"

text \<open>The arguments are read until the first that is not a flag; \<open>None\<close> is an error, which ends
  the program.\<close>

fun parse_flags :: "string list \<Rightarrow> node_config \<Rightarrow> node_config option" where
  "parse_flags [] c = Some c"
| "parse_flags (s # args) c =
     (if length s < 2 \<or> hd s \<noteq> CHR ''-'' then Some c
      else if s = ''--'' then Some c
      else
        let name = (if s ! 1 = CHR ''-'' then drop 2 s else drop 1 s) in
        if name = [] \<or> hd name = CHR ''-'' \<or> hd name = CHR ''='' then None
        else
          let (n, v) = split_flag name in
          if n = ''bootstrap'' then
            (case v of
               None \<Rightarrow> parse_flags args (c\<lparr>c_Bootstrap := True\<rparr>)
             | Some t \<Rightarrow> (case ParseBool t of
                           Some b \<Rightarrow> parse_flags args (c\<lparr>c_Bootstrap := b\<rparr>)
                         | None \<Rightarrow> None))
          else
            (case v of
               Some t \<Rightarrow> (case set_string_flag n t c of Some c' \<Rightarrow> parse_flags args c' | None \<Rightarrow> None)
             | None \<Rightarrow>
                 (case args of
                    [] \<Rightarrow> None
                  | t # args' \<Rightarrow>
                      (case set_string_flag n t c of Some c' \<Rightarrow> parse_flags args' c' | None \<Rightarrow> None))))"

section \<open>Joining\<close>

definition normalizeJoinAddr :: "string \<Rightarrow> string" where
  "normalizeJoinAddr addr = trim_right (trim_prefix (trim_prefix addr ''http://'') ''https://'') (CHR ''/'')"

text \<open>\<open>post k\<close> is the answer to the \<open>k\<close>-th attempt.  The result is the number of attempts
  made and whether the last one succeeded.\<close>

fun join_attempts ::
  "(nat \<Rightarrow> string \<Rightarrow> string \<Rightarrow> go_error + nat) \<Rightarrow> string \<Rightarrow> string \<Rightarrow> string \<Rightarrow> string \<Rightarrow> nat \<Rightarrow> nat \<Rightarrow> nat \<times> bool" where
  "join_attempts post target nodeID raftAddr httpAddr attempt 0 = (attempt, False)"
| "join_attempts post target nodeID raftAddr httpAddr attempt (Suc rest) =
     (if RequestJoin (post attempt) target nodeID raftAddr httpAddr = None then (Suc attempt, True)
      else join_attempts post target nodeID raftAddr httpAddr (Suc attempt) rest)"

definition maxAttempts :: nat where "maxAttempts = 15"

definition joinCluster ::
  "(nat \<Rightarrow> string \<Rightarrow> string \<Rightarrow> go_error + nat) \<Rightarrow> string \<Rightarrow> string \<Rightarrow> string \<Rightarrow> string \<Rightarrow> nat \<times> bool" where
  "joinCluster post targetHTTP nodeID raftAddr httpAddr =
     join_attempts post targetHTTP nodeID raftAddr httpAddr 0 maxAttempts"

section \<open>The program\<close>

text \<open>What \<open>main\<close> has running once it waits for a signal, and how the program ends otherwise.\<close>

record running =
  run_node :: node
  run_manager :: manager
  run_listen :: string
  run_pending :: "fsm_go list"
  run_join :: "(string \<times> string \<times> string \<times> string) option"

datatype exit = UsageError | Fatal go_error

definition main_start :: "startup \<Rightarrow> string option \<Rightarrow> string list \<Rightarrow> exit + running" where
  "main_start su exe args =
     (case parse_flags args default_config of
        None \<Rightarrow> Inl UsageError
      | Some cfg \<Rightarrow>
          (case NewNode su cfg of
             Inl err \<Rightarrow> Inl (Fatal (''[FATAL] Failed to initialize Raft node: '' @ err))
           | Inr (node, boot, gs) \<Rightarrow>
               Inr \<lparr>run_node = node,
                    run_manager = fst (NewManager exe (c_NodeID cfg) (c_RaftAddr cfg) (c_HTTPAddr cfg)),
                    run_listen = c_HTTPAddr cfg,
                    run_pending = gs,
                    run_join = (if c_JoinAddr cfg \<noteq> [] \<and> \<not> c_Bootstrap cfg
                                then Some (normalizeJoinAddr (c_JoinAddr cfg), c_NodeID cfg, c_RaftAddr cfg,
                                           c_HTTPAddr cfg)
                                else None)\<rparr>))"

text \<open>On a signal: the children first, then the HTTP server, then the node.\<close>

definition main_shutdown :: "string list \<Rightarrow> running \<Rightarrow> os_effect list \<times> node \<times> release list" where
  "main_shutdown ks r =
     (let (m, kills) = StopAll ks (run_manager r); (n, released) = Close (run_node r)
      in (kills, n, released))"

end
