(* ===== verification/Node_Observer.thy ===== *)
theory Node_Observer imports Raft_Node begin

text \<open>
  \<open>internal/raftnode/observer.go\<close>: the loops that turn what the engine reports into
  events: raw observations, the leader channel, the polling that runs while somebody
  listens, and the health checker that also follows the membership.

  A loop over a channel is a fold over what it receives before it stops; a loop over a
  ticker is a fold over its ticks.
\<close>

section \<open>Membership events\<close>

definition peerJoinedEvent :: "string \<Rightarrow> string \<Rightarrow> string \<Rightarrow> u64 \<Rightarrow> event" where
  "peerJoinedEvent sID sAddr httpAddr term =
     mk_event EventPeerJoined sID term
       (''Node '' @ sID @ '' joined cluster (Raft '' @ sAddr @ '', HTTP '' @ httpAddr @ '')'')
       (VMap [(''node_id'', VString sID), (''raft_addr'', VString sAddr), (''http_addr'', VString httpAddr)])"

definition peerRemovedEvent :: "string \<Rightarrow> string \<Rightarrow> u64 \<Rightarrow> event" where
  "peerRemovedEvent sID sAddr term =
     mk_event EventPeerRemoved sID term
       (''Node '' @ sID @ '' ('' @ sAddr @ '') was removed from Raft configuration'')
       (VMap [(''node_id'', VString sID), (''raft_addr'', VString sAddr)])"

section \<open>Observations\<close>

text \<open>The data types an observation of \<open>hashicorp/raft\<close> carries; the last stands for those
  the loop ignores.\<close>

datatype observation =
    LeaderObservation (lo_Leader: string) (lo_LeaderAddr: string) (lo_LeaderID: string)
  | PeerObservation raft_server bool
  | StateObservation raft_state
  | FailedHeartbeatObservation string time
  | ResumedHeartbeatObservation string
  | OtherObservation

definition observe_leader :: "engine \<Rightarrow> string \<Rightarrow> string \<Rightarrow> string \<Rightarrow> node \<Rightarrow> node" where
  "observe_leader e leader addr leaderID n =
     (let leaderAddr = (if addr = [] then leader else addr)
      in if leaderID \<noteq> [] \<and> leaderID \<noteq> node_ID n
         then broadcast (mk_event EventLeaderChanged (node_ID n) (rd_CurrentTerm (e 0))
                (''Leader discovered -> '' @ leaderID @ '' ('' @ leaderAddr @ '')'')
                (VMap [(''leader_id'', VString leaderID), (''leader_addr'', VString leaderAddr)])) n
         else n)"

definition observe_peer :: "engine \<Rightarrow> raft_server \<Rightarrow> bool \<Rightarrow> node \<Rightarrow> node" where
  "observe_peer e peer removed n =
     (let sID = rs_ID peer; sAddr = rs_Address peer;
          n1 = n\<lparr>n_knownPeers := (n_knownPeers n)(sID := if removed then None else Some sAddr)\<rparr>;
          term = rd_CurrentTerm (e 0)
      in if removed then broadcast (peerRemovedEvent sID sAddr term) n1
         else broadcast (peerJoinedEvent sID sAddr (GetPeerHTTP sID sAddr n1) term) n1)"

definition observe_state :: "engine \<Rightarrow> raft_state \<Rightarrow> node \<Rightarrow> node" where
  "observe_state e d n =
     (let term = rd_CurrentTerm (e 0) in
      case d of
        Candidate \<Rightarrow>
          broadcast (mk_event EventElectionStarted (node_ID n) term
            (''Node '' @ node_ID n @ '' initiated election for Term '' @ itoa_u64 term
             @ '' (Follower -> Candidate)'')
            (VMap [(''state'', VString ''Candidate''), (''term'', VU64 term)])) n
      | Shutdown \<Rightarrow>
          broadcast (mk_event EventNodeStatusChanged (node_ID n) term
            (''Node '' @ node_ID n @ '' is shutting down'')
            (VMap [(''state'', VString ''Shutdown'')])) n
      | _ \<Rightarrow> n)"

text \<open>\<open>fmt_time\<close> is \<open>Time.Format("15:04:05")\<close> in the local zone.\<close>

definition observe_failed ::
  "engine \<Rightarrow> (time \<Rightarrow> string) \<Rightarrow> string \<Rightarrow> time \<Rightarrow> node \<Rightarrow> node" where
  "observe_failed e fmt_time peerID lastContact n =
     (let alreadyFailed = (n_hbFailedPeers n peerID = Some True);
          n1 = n\<lparr>n_hbFailedPeers := (n_hbFailedPeers n)(peerID \<mapsto> True)\<rparr>
      in if alreadyFailed then n1
         else broadcast (mk_event EventNodeStatusChanged (node_ID n) (rd_CurrentTerm (e 0))
                (''Heartbeat to '' @ peerID @ '' failed (unreachable since '' @ fmt_time lastContact @ '')'')
                (VMap [(''node_id'', VString peerID), (''heartbeat_failed'', VBool True)])) n1)"

definition observe_resumed :: "engine \<Rightarrow> string \<Rightarrow> node \<Rightarrow> node" where
  "observe_resumed e peerID n =
     (let n1 = n\<lparr>n_hbFailedPeers := (n_hbFailedPeers n)(peerID := None)\<rparr>
      in broadcast (mk_event EventNodeStatusChanged (node_ID n) (rd_CurrentTerm (e 0))
           (''Heartbeat to '' @ peerID @ '' recovered'')
           (VMap [(''node_id'', VString peerID), (''heartbeat_resumed'', VBool True)])) n1)"

fun handle_observation :: "(time \<Rightarrow> string) \<Rightarrow> engine \<times> observation \<Rightarrow> node \<Rightarrow> node" where
  "handle_observation fmt (e, LeaderObservation leader addr leaderID) n = observe_leader e leader addr leaderID n"
| "handle_observation fmt (e, PeerObservation peer removed) n = observe_peer e peer removed n"
| "handle_observation fmt (e, StateObservation d) n = observe_state e d n"
| "handle_observation fmt (e, FailedHeartbeatObservation peerID t) n = observe_failed e fmt peerID t n"
| "handle_observation fmt (e, ResumedHeartbeatObservation peerID) n = observe_resumed e peerID n"
| "handle_observation fmt (e, OtherObservation) n = n"

definition handleObservations ::
  "(time \<Rightarrow> string) \<Rightarrow> (engine \<times> observation) list \<Rightarrow> node \<Rightarrow> node" where
  "handleObservations fmt obs n = fold (handle_observation fmt) obs n"

section \<open>The leader channel\<close>

definition leader_change :: "engine \<times> bool \<Rightarrow> node \<Rightarrow> node" where
  "leader_change x n =
     (let (e, isLeader) = x; term = rd_CurrentTerm (e 0)
      in if isLeader then
           broadcast (mk_event EventLeaderChanged (node_ID n) term
             (''Node '' @ node_ID n @ '' elected as LEADER for Term '' @ itoa_u64 term
              @ '' (Quorum votes granted)'')
             (VMap [(''leader_id'', VString (node_ID n)), (''leader_addr'', VString (node_RaftAddr n))])) n
         else
           broadcast (mk_event EventLeadershipLost (node_ID n) term
             (''Leader '' @ node_ID n @ '' stepped down to Follower (Term '' @ itoa_u64 term @ '')'')
             (VMap [(''node_id'', VString (node_ID n)), (''role'', VString ''Follower'')])) n)"

definition watchLeaderCh :: "(engine \<times> bool) list \<Rightarrow> node \<Rightarrow> node" where
  "watchLeaderCh xs n = fold leader_change xs n"

section \<open>Polling while somebody listens\<close>

text \<open>The broadcaster goroutine a start of the polling spawns, known by its cancel channel.\<close>

definition onSSEActivated :: "engine \<Rightarrow> node \<Rightarrow> node \<times> nat list" where
  "onSSEActivated e n =
     (if n_pollingRunning n then (n, [])
      else
        let c = n_nextChan n;
            n1 = n\<lparr>n_pollingRunning := True, n_pollCancel := Some c, n_nextChan := Suc c\<rparr>
        in (broadcast (state_event e ''Connected to Raft live event stream'' n1) n1, [c]))"

text \<open>What wakes the broadcaster: the stop or cancel channel, or one of its tickers.\<close>

datatype wakeup = Stopped | Cancelled | SnapshotTick engine | TermTick engine

fun runActiveBroadcaster :: "wakeup list \<Rightarrow> node \<Rightarrow> node" where
  "runActiveBroadcaster [] n = n"
| "runActiveBroadcaster (Stopped # ws) n = n"
| "runActiveBroadcaster (Cancelled # ws) n = n"
| "runActiveBroadcaster (SnapshotTick e # ws) n =
     runActiveBroadcaster ws (broadcast (state_event e ''Periodic state sync'' n) n)"
| "runActiveBroadcaster (TermTick e # ws) n =
     runActiveBroadcaster ws (noteTerm (rd_CurrentTerm (e 0)) n)"

section \<open>Health and membership\<close>

definition server_map :: "raft_server list \<Rightarrow> string \<rightharpoonup> string" where
  "server_map servers = foldl (\<lambda>m s. m(rs_ID s \<mapsto> rs_Address s)) Map.empty servers"

text \<open>The two loops of the membership diff; they collect the events to broadcast.\<close>

definition join_step :: "(string \<rightharpoonup> string) \<Rightarrow> u64 \<Rightarrow> string \<Rightarrow> node \<times> event list \<Rightarrow> node \<times> event list" where
  "join_step current term sID acc =
     (let (n, joined) = acc; sAddr = the (current sID)
      in if n_knownPeers n sID = None
         then (n\<lparr>n_knownPeers := (n_knownPeers n)(sID \<mapsto> sAddr)\<rparr>,
               joined @ [peerJoinedEvent sID sAddr (httpAddrFor sID sAddr n) term])
         else (n, joined))"

definition remove_step :: "(string \<rightharpoonup> string) \<Rightarrow> u64 \<Rightarrow> string \<Rightarrow> node \<times> event list \<Rightarrow> node \<times> event list" where
  "remove_step current term sID acc =
     (let (n, removed) = acc; sAddr = the (n_knownPeers n sID)
      in if current sID = None \<and> sID \<noteq> node_ID n
         then (n\<lparr>n_knownPeers := (n_knownPeers n)(sID := None)\<rparr>,
               removed @ [peerRemovedEvent sID sAddr term])
         else (n, removed))"

text \<open>One probe; a peer without an old entry counts as unhealthy before.\<close>

definition probe :: "string \<Rightarrow> (string \<Rightarrow> bool) \<Rightarrow> (string \<rightharpoonup> bool) \<Rightarrow> raft_server \<Rightarrow>
    (string \<rightharpoonup> bool) \<times> bool \<Rightarrow> (string \<rightharpoonup> bool) \<times> bool" where
  "probe self dial oldHealth s acc =
     (let (healthMap, changed) = acc; sID = rs_ID s
      in if sID = self then (healthMap(sID \<mapsto> True), changed)
         else
           let healthy = dial (rs_Address s);
               old = (case oldHealth sID of Some h \<Rightarrow> h | None \<Rightarrow> False)
           in (healthMap(sID \<mapsto> healthy), changed \<or> old \<noteq> healthy))"

definition checkPeersHealth :: "engine \<Rightarrow> (string \<Rightarrow> bool) \<Rightarrow> node \<Rightarrow> node" where
  "checkPeersHealth e dial n =
     (case rd_Configuration (e 0) of
        None \<Rightarrow> n
      | Some servers \<Rightarrow>
          let term = rd_CurrentTerm (e 1);
              current = server_map servers;
              (n1, joined) = fold (join_step current term) (rd_Order (e 2)) (n, []);
              (n2, removed) = fold (remove_step current term) (rd_Order (e 3)) (n1, []);
              oldHealth = n_peerHealth n2;
              n3 = fold broadcast removed (fold broadcast joined n2);
              (healthMap, changed) = fold (probe (node_ID n3) dial oldHealth) servers (Map.empty, False);
              n4 = n3\<lparr>n_peerHealth := healthMap\<rparr>
          in if changed
             then let n5 = broadcast (mk_event EventNodeStatusChanged (node_ID n4) (rd_CurrentTerm (e 4))
                             ''Cluster peer health status updated''
                             (VMap [(''health'', VHealth healthMap)])) n4
                  in broadcast (state_event (later 5 e) ''Cluster health changed'' n5) n5
             else n4)"

text \<open>The first check, then one per tick until the node stops.\<close>

definition continuousHealthCheck :: "(engine \<times> (string \<Rightarrow> bool)) list \<Rightarrow> node \<Rightarrow> node" where
  "continuousHealthCheck ticks n = fold (\<lambda>(e, dial). checkPeersHealth e dial) ticks n"

end
