(* ===== verification/Transport_Observer.thy ===== *)
theory Transport_Observer imports Raft_Node begin

text \<open>
  \<open>internal/raftnode/transport_observer.go\<close>: the transport the engine is given, which
  wraps the real one and announces every RPC.  The wrapped transport is a function
  argument that gives its answer; what the wrapper adds is the change of the node.

  Incoming RPCs: \<open>forward_one\<close> is one turn of \<open>forwardConsumer\<close>, which hands the RPC to
  the engine on the wrapped channel.  A vote request is handed over with a private
  response channel, and \<open>relay\<close> is the goroutine that waits on it.
\<close>

section \<open>RPCs of \<open>hashicorp/raft\<close>\<close>

record append_request =
  aq_Addr :: string
  aq_Term :: u64
  aq_Leader :: string
  aq_PrevLogEntry :: u64
  aq_Entries :: "raft_log list"
  aq_LeaderCommitIndex :: u64

record append_response =
  ap_Term :: u64
  ap_LastLog :: u64
  ap_Success :: bool

record vote_request =
  vq_Addr :: string
  vq_Term :: u64
  vq_Candidate :: string
  vq_LastLogIndex :: u64
  vq_LastLogTerm :: u64
  vq_LeadershipTransfer :: bool

record vote_response =
  vr_Term :: u64
  vr_Granted :: bool

record prevote_request =
  pq_Addr :: string
  pq_Term :: u64
  pq_LastLogIndex :: u64
  pq_LastLogTerm :: u64

record prevote_response =
  pr_Term :: u64
  pr_Granted :: bool

record install_request =
  iq_Term :: u64
  iq_LastLogIndex :: u64
  iq_LastLogTerm :: u64
  iq_Size :: int

record install_response =
  ir_Term :: u64
  ir_Success :: bool

datatype rpc_command =
    AppendEntriesRequest append_request
  | RequestVoteRequest vote_request
  | RequestPreVoteRequest prevote_request
  | InstallSnapshotRequest install_request
  | TimeoutNowRequest
  | OtherRequest

datatype rpc_body =
    AppendEntriesResponse append_response
  | RequestVoteResponse vote_response
  | RequestPreVoteResponse prevote_response
  | InstallSnapshotResponse install_response
  | TimeoutNowResponse
  | NoResponse

record rpc_response =
  rr_Response :: rpc_body
  rr_Error :: "go_error option"

record rpc =
  rpc_Command :: rpc_command
  rpc_RespChan :: nat

section \<open>Announcing\<close>

definition emit :: "engine \<Rightarrow> event \<Rightarrow> node \<Rightarrow> node" where
  "emit e evt n =
     (let evt1 = (if ev_NodeID evt = [] then evt\<lparr>ev_NodeID := node_ID n\<rparr> else evt);
          evt2 = (if ev_Term evt1 = 0 \<and> n_raft n then evt1\<lparr>ev_Term := rd_CurrentTerm (e 0)\<rparr> else evt1)
      in broadcast evt2 n)"

definition peerIDFromAddr :: "string list \<Rightarrow> string \<Rightarrow> node \<Rightarrow> string" where
  "peerIDFromAddr ks addr n = nodeIDForRaftAddr ks addr n"

definition isMaintenanceRequest :: "append_request \<Rightarrow> bool" where
  "isMaintenanceRequest args \<longleftrightarrow> length (aq_Entries args) = 0"

definition voteSuffix :: "bool \<Rightarrow> string" where
  "voteSuffix leadershipTransfer = (if leadershipTransfer then '' [leadership transfer]'' else [])"

definition outcome_text :: "bool \<Rightarrow> string" where
  "outcome_text success = (if success then ''replicated'' else ''rejected (log mismatch)'')"

definition vote_event :: "string \<Rightarrow> u64 \<Rightarrow> bool \<Rightarrow> bool \<Rightarrow> bool \<Rightarrow> event" where
  "vote_event peerID term granted thisNodeVoted preVote =
     (let evtType = (if granted then EventVoteGranted else EventVoteRejected);
          verb0 = (if granted then ''granted'' else ''rejected'');
          verb = (if preVote then ''pre-vote '' @ verb0 else verb0);
          data0 = [(''peer_id'', VString peerID), (''granted'', VBool granted), (''term'', VU64 term)];
          data1 = (if preVote then data0 @ [(''pre_vote'', VBool True)] else data0)
      in if thisNodeVoted then
           mk_event evtType [] term (''Vote '' @ verb @ '' for '' @ peerID @ '' (Term '' @ itoa_u64 term @ '')'')
             (VMap (data1 @ [(''direction'', VString ''outgoing''), (''candidate_id'', VString peerID)]))
         else
           mk_event evtType [] term (peerID @ '' '' @ verb @ '' our vote request (Term '' @ itoa_u64 term @ '')'')
             (VMap (data1 @ [(''direction'', VString ''incoming''), (''voter_id'', VString peerID)])))"

definition emitVoteResult :: "engine \<Rightarrow> string \<Rightarrow> u64 \<Rightarrow> bool \<Rightarrow> bool \<Rightarrow> bool \<Rightarrow> node \<Rightarrow> node" where
  "emitVoteResult e peerID term granted thisNodeVoted preVote n =
     emit e (vote_event peerID term granted thisNodeVoted preVote) n"

section \<open>Outgoing RPCs\<close>

definition heartbeat_sent_event :: "string \<Rightarrow> append_request \<Rightarrow> event" where
  "heartbeat_sent_event peerID args =
     mk_event EventHeartbeatSent [] (aq_Term args)
       (''Heartbeat (AppendEntries) sent to '' @ peerID @ '' [Term '' @ itoa_u64 (aq_Term args) @ '']'')
       (VMap [(''peer_id'', VString peerID), (''term'', VU64 (aq_Term args)),
              (''commit_index'', VU64 (aq_LeaderCommitIndex args)), (''direction'', VString ''outgoing'')])"

definition append_sent_event :: "string \<Rightarrow> append_request \<Rightarrow> event" where
  "append_sent_event peerID args =
     mk_event EventAppendEntriesSent [] (aq_Term args)
       (''AppendEntries sent to '' @ peerID @ '' with '' @ itoa (length (aq_Entries args))
        @ '' entr(y/ies) [Term '' @ itoa_u64 (aq_Term args) @ '', PrevLog ''
        @ itoa_u64 (aq_PrevLogEntry args) @ '']'')
       (VMap [(''peer_id'', VString peerID), (''term'', VU64 (aq_Term args)),
              (''entries'', VInt (int (length (aq_Entries args)))),
              (''prev_log'', VU64 (aq_PrevLogEntry args)), (''direction'', VString ''outgoing'')])"

definition append_result_event :: "string \<Rightarrow> u64 \<Rightarrow> append_response \<Rightarrow> event" where
  "append_result_event peerID term resp =
     mk_event EventAppendEntriesResult [] term
       (''AppendEntries to '' @ peerID @ '' '' @ outcome_text (ap_Success resp) @ '' [Term ''
        @ itoa_u64 (ap_Term resp) @ '', FollowerLastLog '' @ itoa_u64 (ap_LastLog resp) @ '']'')
       (VMap [(''peer_id'', VString peerID), (''success'', VBool (ap_Success resp)),
              (''term'', VU64 (ap_Term resp)), (''last_log'', VU64 (ap_LastLog resp)),
              (''direction'', VString ''outgoing'')])"

text \<open>The response is a pointer the caller passed: \<open>None\<close> is a nil one.\<close>

definition AppendEntries ::
  "engine \<Rightarrow> (string \<Rightarrow> string \<Rightarrow> append_request \<Rightarrow> append_response option \<times> go_error option) \<Rightarrow>
   string \<Rightarrow> string \<Rightarrow> append_request \<Rightarrow> node \<Rightarrow> node \<times> append_response option \<times> go_error option" where
  "AppendEntries e inner peerID target args n =
     (let term = aq_Term args;
          n1 = noteTerm term n;
          n2 = emit e (if isMaintenanceRequest args then heartbeat_sent_event peerID args
                       else append_sent_event peerID args) n1;
          (resp, err) = inner peerID target args
      in if err = None \<and> \<not> isMaintenanceRequest args \<and> resp \<noteq> None
         then (emit (later 1 e) (append_result_event peerID term (the resp)) n2, resp, err)
         else (n2, resp, err))"

definition vote_requested_event :: "string \<Rightarrow> vote_request \<Rightarrow> event" where
  "vote_requested_event peerID args =
     mk_event EventVoteRequested [] (vq_Term args)
       (''Vote requested from '' @ peerID @ '' for Term '' @ itoa_u64 (vq_Term args) @ '' (last log ''
        @ itoa_u64 (vq_LastLogIndex args) @ ''@'' @ itoa_u64 (vq_LastLogTerm args) @ '')''
        @ voteSuffix (vq_LeadershipTransfer args))
       (VMap [(''target_id'', VString peerID), (''term'', VU64 (vq_Term args)),
              (''last_log_index'', VU64 (vq_LastLogIndex args)),
              (''last_log_term'', VU64 (vq_LastLogTerm args)),
              (''transfer'', VBool (vq_LeadershipTransfer args)), (''direction'', VString ''outgoing'')])"

definition RequestVote ::
  "engine \<Rightarrow> (string \<Rightarrow> string \<Rightarrow> vote_request \<Rightarrow> vote_response option \<times> go_error option) \<Rightarrow>
   string \<Rightarrow> string \<Rightarrow> vote_request \<Rightarrow> node \<Rightarrow> node \<times> vote_response option \<times> go_error option" where
  "RequestVote e inner peerID target args n =
     (let n1 = noteTerm (vq_Term args) n;
          n2 = emit e (vote_requested_event peerID args) n1;
          (resp, err) = inner peerID target args
      in if err = None \<and> resp \<noteq> None
         then (emitVoteResult (later 1 e) peerID (vq_Term args) (vr_Granted (the resp)) False False n2,
               resp, err)
         else (n2, resp, err))"

definition prevote_requested_event :: "string \<Rightarrow> prevote_request \<Rightarrow> event" where
  "prevote_requested_event peerID args =
     mk_event EventVoteRequested [] (pq_Term args)
       (''Pre-vote requested from '' @ peerID @ '' for Term '' @ itoa_u64 (pq_Term args) @ '' (last log ''
        @ itoa_u64 (pq_LastLogIndex args) @ ''@'' @ itoa_u64 (pq_LastLogTerm args) @ '')'')
       (VMap [(''target_id'', VString peerID), (''term'', VU64 (pq_Term args)),
              (''last_log_index'', VU64 (pq_LastLogIndex args)),
              (''last_log_term'', VU64 (pq_LastLogTerm args)),
              (''pre_vote'', VBool True), (''direction'', VString ''outgoing'')])"

text \<open>\<open>inner\<close> is \<open>None\<close> when the wrapped transport has no pre-vote.\<close>

definition RequestPreVote ::
  "engine \<Rightarrow>
   (string \<Rightarrow> string \<Rightarrow> prevote_request \<Rightarrow> prevote_response option \<times> go_error option) option \<Rightarrow>
   string \<Rightarrow> string \<Rightarrow> prevote_request \<Rightarrow> node \<Rightarrow> node \<times> prevote_response option \<times> go_error option" where
  "RequestPreVote e inner peerID target args n =
     (let n1 = noteTerm (pq_Term args) n;
          n2 = emit e (prevote_requested_event peerID args) n1
      in case inner of
           None \<Rightarrow> (n2, None, Some ''inner transport does not support pre-vote'')
         | Some call \<Rightarrow>
             let (resp, err) = call peerID target args
             in if err = None \<and> resp \<noteq> None
                then (emitVoteResult (later 1 e) peerID (pr_Term (the resp)) (pr_Granted (the resp)) False True n2,
                      resp, err)
                else (n2, resp, err))"

definition install_sent_event :: "string \<Rightarrow> install_request \<Rightarrow> event" where
  "install_sent_event peerID args =
     mk_event EventSnapshotInstall [] (iq_Term args)
       (''Snapshot (index '' @ itoa_u64 (iq_LastLogIndex args) @ '', term ''
        @ itoa_u64 (iq_LastLogTerm args) @ '') streaming to '' @ peerID)
       (VMap [(''target_id'', VString peerID), (''term'', VU64 (iq_Term args)),
              (''last_log_index'', VU64 (iq_LastLogIndex args)),
              (''last_log_term'', VU64 (iq_LastLogTerm args)), (''size'', VInt (iq_Size args)),
              (''direction'', VString ''outgoing'')])"

definition InstallSnapshot ::
  "engine \<Rightarrow> (string \<Rightarrow> string \<Rightarrow> install_request \<Rightarrow> string \<Rightarrow> install_response option \<times> go_error option) \<Rightarrow>
   string \<Rightarrow> string \<Rightarrow> install_request \<Rightarrow> string \<Rightarrow> node \<Rightarrow>
   node \<times> install_response option \<times> go_error option" where
  "InstallSnapshot e inner peerID target args data n =
     (emit e (install_sent_event peerID args) (noteTerm (iq_Term args) n), inner peerID target args data)"

definition TimeoutNow ::
  "engine \<Rightarrow> (string \<Rightarrow> string \<Rightarrow> go_error option) \<Rightarrow> string \<Rightarrow> string \<Rightarrow> node \<Rightarrow> node \<times> go_error option" where
  "TimeoutNow e inner peerID target n =
     (emit e (mk_event EventLeadershipTransfer [] 0
        (''Leadership transfer (TimeoutNow) sent to '' @ peerID)
        (VMap [(''target_id'', VString peerID), (''direction'', VString ''outgoing'')])) n,
      inner peerID target)"

section \<open>The replication pipeline\<close>

record append_future =
  fut_Error :: "go_error option"
  fut_Request :: "append_request option"
  fut_Response :: "append_response option"

record event_pipeline =
  ep_peerID :: string
  ep_consumed :: bool

definition AppendEntriesPipeline ::
  "(string \<Rightarrow> string \<Rightarrow> go_error option) \<Rightarrow> string \<Rightarrow> string \<Rightarrow> go_error + event_pipeline" where
  "AppendEntriesPipeline inner peerID target =
     (case inner peerID target of
        Some err \<Rightarrow> Inl err
      | None \<Rightarrow> Inr \<lparr>ep_peerID = peerID, ep_consumed = False\<rparr>)"

definition pipelined_event :: "string \<Rightarrow> append_request \<Rightarrow> event" where
  "pipelined_event peerID args =
     mk_event EventAppendEntriesSent [] (aq_Term args)
       (''AppendEntries pipelined to '' @ peerID @ '' with '' @ itoa (length (aq_Entries args))
        @ '' entr(y/ies) [Term '' @ itoa_u64 (aq_Term args) @ '']'')
       (VMap [(''peer_id'', VString peerID), (''term'', VU64 (aq_Term args)),
              (''entries'', VInt (int (length (aq_Entries args)))), (''pipeline'', VBool True),
              (''direction'', VString ''outgoing'')])"

definition pipeline_AppendEntries ::
  "engine \<Rightarrow> (append_request \<Rightarrow> append_future + go_error) \<Rightarrow> event_pipeline \<Rightarrow> append_request \<Rightarrow> node \<Rightarrow>
   node \<times> (append_future + go_error)" where
  "pipeline_AppendEntries e inner p args n =
     ((if length (aq_Entries args) > 0
       then emit e (pipelined_event (ep_peerID p) args) (noteTerm (aq_Term args) n) else n),
      inner args)"

definition pipeline_result_event :: "string \<Rightarrow> append_response \<Rightarrow> event" where
  "pipeline_result_event peerID resp =
     mk_event EventAppendEntriesResult [] (ap_Term resp)
       (''AppendEntries to '' @ peerID @ '' '' @ outcome_text (ap_Success resp) @ '' [Term ''
        @ itoa_u64 (ap_Term resp) @ '']'')
       (VMap [(''peer_id'', VString peerID), (''success'', VBool (ap_Success resp)),
              (''term'', VU64 (ap_Term resp)), (''pipeline'', VBool True),
              (''direction'', VString ''outgoing'')])"

definition watchFuture :: "engine \<Rightarrow> event_pipeline \<Rightarrow> append_future \<Rightarrow> node \<Rightarrow> node" where
  "watchFuture e p future n =
     (if fut_Error future \<noteq> None then n
      else case (fut_Request future, fut_Response future) of
             (Some req, Some resp) \<Rightarrow>
               if length (aq_Entries req) = 0 then n
               else emit e (pipeline_result_event (ep_peerID p) resp) n
           | _ \<Rightarrow> n)"

text \<open>The tee: what the consumer's goroutine hands on, and the futures it starts watching.
  Only the first call starts it.\<close>

definition pipeline_Consumer ::
  "append_future list \<Rightarrow> event_pipeline \<Rightarrow> event_pipeline \<times> append_future list \<times> append_future list" where
  "pipeline_Consumer arriving p =
     (if ep_consumed p then (p, [], [])
      else (p\<lparr>ep_consumed := True\<rparr>, foldl (\<lambda>(wrapped, watched) f. (wrapped @ [f], watched @ [f])) ([], []) arriving))"

definition pipeline_Close :: "go_error option \<Rightarrow> event_pipeline \<Rightarrow> go_error option" where
  "pipeline_Close inner p = inner"

section \<open>Incoming heartbeats\<close>

text \<open>\<open>decode\<close> is the wrapped transport's \<open>DecodePeer\<close>.\<close>

definition leaderIDFor :: "string list \<Rightarrow> (string \<Rightarrow> string) \<Rightarrow> append_request \<Rightarrow> node \<Rightarrow> string" where
  "leaderIDFor ks decode req n =
     (let addr = (if aq_Addr req = [] then aq_Leader req else aq_Addr req)
      in if addr = [] then ''unknown'' else peerIDFromAddr ks (decode addr) n)"

definition heartbeat_received_event :: "string \<Rightarrow> string \<Rightarrow> append_request \<Rightarrow> event" where
  "heartbeat_received_event leader leader' req =
     mk_event EventHeartbeatReceived [] (aq_Term req)
       (''Heartbeat (AppendEntries) received from leader '' @ leader @ '' [Term ''
        @ itoa_u64 (aq_Term req) @ '']'')
       (VMap [(''peer_id'', VString leader'), (''term'', VU64 (aq_Term req)),
              (''commit_index'', VU64 (aq_LeaderCommitIndex req)), (''direction'', VString ''incoming'')])"

text \<open>\<open>cb\<close> is the engine's handler; the wrapper announces first and then calls it.\<close>

definition heartbeat_handler ::
  "engine \<Rightarrow> (string \<Rightarrow> string) \<Rightarrow> (rpc \<Rightarrow> node \<Rightarrow> node) \<Rightarrow> rpc \<Rightarrow> node \<Rightarrow> node" where
  "heartbeat_handler e decode cb rpc n =
     (case rpc_Command rpc of
        AppendEntriesRequest req \<Rightarrow>
          let n1 = noteTerm (aq_Term req) n
          in cb rpc (emit (later 2 e)
                (heartbeat_received_event (leaderIDFor (rd_Order (e 0)) decode req n1)
                   (leaderIDFor (rd_Order (e 1)) decode req n1) req) n1)
      | _ \<Rightarrow> cb rpc n)"

definition SetHeartbeatHandler ::
  "engine \<Rightarrow> (string \<Rightarrow> string) \<Rightarrow> (rpc \<Rightarrow> node \<Rightarrow> node) option \<Rightarrow> (rpc \<Rightarrow> node \<Rightarrow> node) option" where
  "SetHeartbeatHandler e decode cb = map_option (heartbeat_handler e decode) cb"

section \<open>Other incoming RPCs\<close>

record relay =
  rl_private :: nat
  rl_target :: nat
  rl_candidateID :: string
  rl_term :: u64
  rl_preVote :: bool

text \<open>\<open>et_forwarded\<close> is what the engine has received on the wrapped channel, \<open>et_replies\<close>
  what was sent back on the original response channels.\<close>

record event_transport =
  et_node :: node
  et_consumed :: bool
  et_forwarded :: "rpc list"
  et_relays :: "relay list"
  et_replies :: "(nat \<times> rpc_response) list"
  et_nextChan :: nat
  et_wrappedClosed :: bool

definition newEventTransport :: "node \<Rightarrow> nat \<Rightarrow> event_transport" where
  "newEventTransport n chan =
     \<lparr>et_node = n, et_consumed = False, et_forwarded = [], et_relays = [], et_replies = [],
      et_nextChan = chan, et_wrappedClosed = False\<rparr>"

definition candidateIDFor ::
  "string list \<Rightarrow> (string \<Rightarrow> string) \<Rightarrow> string \<Rightarrow> string \<Rightarrow> node \<Rightarrow> string" where
  "candidateIDFor ks decode headerAddr deprecated n =
     (let raw = (if headerAddr = [] then deprecated else headerAddr)
      in if raw = [] then ''unknown'' else peerIDFromAddr ks (decode raw) n)"

definition forwardWithVoteCapture ::
  "rpc \<Rightarrow> string \<Rightarrow> u64 \<Rightarrow> bool \<Rightarrow> event_transport \<Rightarrow> event_transport" where
  "forwardWithVoteCapture rpc candidateID term preVote t =
     (let respCh = et_nextChan t
      in t\<lparr>et_nextChan := Suc respCh,
           et_relays := et_relays t @
             [\<lparr>rl_private = respCh, rl_target = rpc_RespChan rpc, rl_candidateID = candidateID,
               rl_term = term, rl_preVote = preVote\<rparr>],
           et_forwarded := et_forwarded t @ [rpc\<lparr>rpc_RespChan := respCh\<rparr>]\<rparr>)"

definition vote_request_event :: "string \<Rightarrow> vote_request \<Rightarrow> event" where
  "vote_request_event candidateID req =
     mk_event EventVoteRequested [] (vq_Term req)
       (''Vote requested by '' @ candidateID @ '' for Term '' @ itoa_u64 (vq_Term req) @ '' (last log ''
        @ itoa_u64 (vq_LastLogIndex req) @ ''@'' @ itoa_u64 (vq_LastLogTerm req) @ '')''
        @ voteSuffix (vq_LeadershipTransfer req))
       (VMap [(''candidate_id'', VString candidateID), (''term'', VU64 (vq_Term req)),
              (''last_log_index'', VU64 (vq_LastLogIndex req)),
              (''last_log_term'', VU64 (vq_LastLogTerm req)),
              (''transfer'', VBool (vq_LeadershipTransfer req)), (''direction'', VString ''incoming'')])"

definition prevote_request_event :: "string \<Rightarrow> prevote_request \<Rightarrow> event" where
  "prevote_request_event candidateID req =
     mk_event EventVoteRequested [] (pq_Term req)
       (''Pre-vote requested by '' @ candidateID @ '' for Term '' @ itoa_u64 (pq_Term req) @ '' (last log ''
        @ itoa_u64 (pq_LastLogIndex req) @ ''@'' @ itoa_u64 (pq_LastLogTerm req) @ '')'')
       (VMap [(''candidate_id'', VString candidateID), (''term'', VU64 (pq_Term req)),
              (''last_log_index'', VU64 (pq_LastLogIndex req)),
              (''last_log_term'', VU64 (pq_LastLogTerm req)),
              (''pre_vote'', VBool True), (''direction'', VString ''incoming'')])"

definition on_node :: "(node \<Rightarrow> node) \<Rightarrow> event_transport \<Rightarrow> event_transport" where
  "on_node f t = t\<lparr>et_node := f (et_node t)\<rparr>"

definition onIncomingVoteRequest ::
  "engine \<Rightarrow> (string \<Rightarrow> string) \<Rightarrow> rpc \<Rightarrow> vote_request \<Rightarrow> event_transport \<Rightarrow> event_transport" where
  "onIncomingVoteRequest e decode rpc req t =
     (let t1 = on_node (noteTerm (vq_Term req)) t;
          candidateID = candidateIDFor (rd_Order (e 0)) decode (vq_Addr req) (vq_Candidate req) (et_node t1);
          t2 = on_node (emit (later 1 e) (vote_request_event candidateID req)) t1
      in forwardWithVoteCapture rpc candidateID (vq_Term req) False t2)"

definition onIncomingPreVoteRequest ::
  "engine \<Rightarrow> (string \<Rightarrow> string) \<Rightarrow> rpc \<Rightarrow> prevote_request \<Rightarrow> event_transport \<Rightarrow> event_transport" where
  "onIncomingPreVoteRequest e decode rpc req t =
     (let t1 = on_node (noteTerm (pq_Term req)) t;
          candidateID = candidateIDFor (rd_Order (e 0)) decode (pq_Addr req) [] (et_node t1);
          t2 = on_node (emit (later 1 e) (prevote_request_event candidateID req)) t1
      in forwardWithVoteCapture rpc candidateID (pq_Term req) True t2)"

definition timeout_received_event :: "node \<Rightarrow> event" where
  "timeout_received_event n =
     mk_event EventLeadershipTransfer [] 0
       ''Leadership transfer (TimeoutNow) received from leader -> starting election''
       (VMap [(''target_id'', VString (node_ID n)), (''direction'', VString ''incoming'')])"

definition install_received_event :: "install_request \<Rightarrow> event" where
  "install_received_event cmd =
     mk_event EventSnapshotInstall [] (iq_Term cmd)
       (''Snapshot (index '' @ itoa_u64 (iq_LastLogIndex cmd) @ '', term ''
        @ itoa_u64 (iq_LastLogTerm cmd) @ '') received from leader'')
       (VMap [(''term'', VU64 (iq_Term cmd)), (''last_log_index'', VU64 (iq_LastLogIndex cmd)),
              (''last_log_term'', VU64 (iq_LastLogTerm cmd)), (''size'', VInt (iq_Size cmd)),
              (''direction'', VString ''incoming'')])"

definition append_received_event :: "string \<Rightarrow> append_request \<Rightarrow> event" where
  "append_received_event leader cmd =
     mk_event EventAppendEntriesRecv [] (aq_Term cmd)
       (''AppendEntries received from leader '' @ leader @ '' with '' @ itoa (length (aq_Entries cmd))
        @ '' entr(y/ies) [Term '' @ itoa_u64 (aq_Term cmd) @ '', PrevLog ''
        @ itoa_u64 (aq_PrevLogEntry cmd) @ '', Commit '' @ itoa_u64 (aq_LeaderCommitIndex cmd) @ '']'')
       (VMap [(''leader_id'', VString leader), (''term'', VU64 (aq_Term cmd)),
              (''entries'', VInt (int (length (aq_Entries cmd)))),
              (''prev_log'', VU64 (aq_PrevLogEntry cmd)),
              (''commit_index'', VU64 (aq_LeaderCommitIndex cmd)), (''direction'', VString ''incoming'')])"

definition pass_on :: "rpc \<Rightarrow> event_transport \<Rightarrow> event_transport" where
  "pass_on rpc t = t\<lparr>et_forwarded := et_forwarded t @ [rpc]\<rparr>"

definition forward_one ::
  "(string \<Rightarrow> string) \<Rightarrow> engine \<times> rpc \<Rightarrow> event_transport \<Rightarrow> event_transport" where
  "forward_one decode x t =
     (let (e, rpc) = x in
      case rpc_Command rpc of
        RequestVoteRequest req \<Rightarrow> onIncomingVoteRequest e decode rpc req t
      | RequestPreVoteRequest req \<Rightarrow> onIncomingPreVoteRequest e decode rpc req t
      | TimeoutNowRequest \<Rightarrow> pass_on rpc (on_node (emit e (timeout_received_event (et_node t))) t)
      | InstallSnapshotRequest cmd \<Rightarrow>
          pass_on rpc (on_node (emit e (install_received_event cmd)) (on_node (noteTerm (iq_Term cmd)) t))
      | AppendEntriesRequest cmd \<Rightarrow>
          let t1 = on_node (noteTerm (aq_Term cmd)) t in
          if length (aq_Entries cmd) > 0 then
            let leader = leaderIDFor (rd_Order (e 0)) decode cmd (et_node t1)
            in pass_on rpc (on_node (emit (later 1 e) (append_received_event leader cmd)) t1)
          else pass_on rpc t1
      | OtherRequest \<Rightarrow> pass_on rpc t)"

text \<open>The loop ends when the wrapped transport closes its channel.\<close>

definition forwardConsumer ::
  "(string \<Rightarrow> string) \<Rightarrow> (engine \<times> rpc) list \<Rightarrow> event_transport \<Rightarrow> event_transport" where
  "forwardConsumer decode xs t = (fold (forward_one decode) xs t)\<lparr>et_wrappedClosed := True\<rparr>"

definition Consumer :: "event_transport \<Rightarrow> event_transport \<times> bool" where
  "Consumer t = (t\<lparr>et_consumed := True\<rparr>, \<not> et_consumed t)"

text \<open>The goroutine of \<open>forwardWithVoteCapture\<close>, when the engine answers on channel \<open>c\<close>.\<close>

definition relay :: "engine \<Rightarrow> relay \<Rightarrow> rpc_response \<Rightarrow> event_transport \<Rightarrow> event_transport" where
  "relay e r resp t =
     (let n1 = (if rr_Error resp = None then
                  (case rr_Response resp of
                     RequestVoteResponse vr \<Rightarrow>
                       emitVoteResult e (rl_candidateID r) (vr_Term vr) (vr_Granted vr) True (rl_preVote r)
                         (et_node t)
                   | _ \<Rightarrow> et_node t)
                else et_node t)
      in t\<lparr>et_node := n1, et_replies := et_replies t @ [(rl_target r, resp)]\<rparr>)"

text \<open>The engine sends a response on the channel of a forwarded RPC: a private channel
  wakes its goroutine, which then ends; any other channel is the sender's own.\<close>

definition respond :: "engine \<Rightarrow> nat \<Rightarrow> rpc_response \<Rightarrow> event_transport \<Rightarrow> event_transport" where
  "respond e c resp t =
     (case find (\<lambda>r. rl_private r = c) (et_relays t) of
        Some r \<Rightarrow>
          relay e r resp (t\<lparr>et_relays := filter (\<lambda>r. rl_private r \<noteq> c) (et_relays t)\<rparr>)
      | None \<Rightarrow> t\<lparr>et_replies := et_replies t @ [(c, resp)]\<rparr>)"

section \<open>Passthrough\<close>

definition LocalAddr :: "string \<Rightarrow> string" where "LocalAddr inner = inner"

definition EncodePeer :: "(string \<Rightarrow> string \<Rightarrow> string) \<Rightarrow> string \<Rightarrow> string \<Rightarrow> string" where
  "EncodePeer inner peerID addr = inner peerID addr"

definition DecodePeer :: "(string \<Rightarrow> string) \<Rightarrow> string \<Rightarrow> string" where
  "DecodePeer inner buf = inner buf"

text \<open>\<open>None\<close>: the wrapped transport has no \<open>Close\<close>.\<close>

definition transport_Close :: "go_error option option \<Rightarrow> go_error option" where
  "transport_Close inner = (case inner of Some err \<Rightarrow> err | None \<Rightarrow> None)"

end
