(* ===== verification/Snapshot_Observer.thy ===== *)
theory Snapshot_Observer imports Raft_Node begin

text \<open>
  \<open>internal/raftnode/snapshot_observer.go\<close>: the snapshot store the engine is given.  It
  wraps the file store of \<open>hashicorp/raft\<close>, a function argument here, and announces each
  snapshot that was created.
\<close>

definition countVoters :: "raft_server list \<Rightarrow> nat" where
  "countVoters servers =
     foldl (\<lambda>count s. if rs_Suffrage s = Voter then count + 1 else count) 0 servers"

definition snapshot_created_event ::
  "int \<Rightarrow> u64 \<Rightarrow> u64 \<Rightarrow> raft_server list \<Rightarrow> u64 \<Rightarrow> node \<Rightarrow> event" where
  "snapshot_created_event version index term configuration configurationIndex n =
     mk_event EventSnapshotCreated (node_ID n) term
       (''Snapshot created at index '' @ itoa_u64 index @ '' (Term '' @ itoa_u64 term @ '') ''
        @ [CHR 0xE2, CHR 0x80, CHR 0x94] @ '' log compacted, '' @ itoa (countVoters configuration)
        @ '' voter(s) in configuration'')
       (VMap [(''index'', VU64 index), (''term'', VU64 term), (''config_index'', VU64 configurationIndex),
              (''voters'', VInt (int (countVoters configuration))), (''snapshot_version'', VInt version)])"

text \<open>The wrapped store answers with a sink or an error.\<close>

definition snapshot_Create ::
  "(int \<Rightarrow> u64 \<Rightarrow> u64 \<Rightarrow> raft_server list \<Rightarrow> u64 \<Rightarrow> go_error + 's) \<Rightarrow>
   int \<Rightarrow> u64 \<Rightarrow> u64 \<Rightarrow> raft_server list \<Rightarrow> u64 \<Rightarrow> node \<Rightarrow> node \<times> (go_error + 's)" where
  "snapshot_Create inner version index term configuration configurationIndex n =
     (case inner version index term configuration configurationIndex of
        Inr sink \<Rightarrow>
          (broadcast (snapshot_created_event version index term configuration configurationIndex n) n,
           Inr sink)
      | Inl err \<Rightarrow> (n, Inl err))"

definition snapshot_List :: "(go_error + 'm list) \<Rightarrow> go_error + 'm list" where
  "snapshot_List inner = inner"

definition snapshot_Open :: "(string \<Rightarrow> go_error + 'm \<times> string) \<Rightarrow> string \<Rightarrow> go_error + 'm \<times> string" where
  "snapshot_Open inner snapshotID = inner snapshotID"

lemma countVoters_length: "countVoters servers = length (filter (\<lambda>s. rs_Suffrage s = Voter) servers)"
proof -
  have "foldl (\<lambda>count s. if rs_Suffrage s = Voter then count + 1 else count) k servers =
      k + length (filter (\<lambda>s. rs_Suffrage s = Voter) servers)" for k :: nat
    by (induction servers arbitrary: k) auto
  then show ?thesis by (simp add: countVoters_def)
qed

end
