(* ===== verification/Raft_Node_Props.thy ===== *)
theory Raft_Node_Props imports Node_Observer Transport_Observer Snapshot_Observer begin

text \<open>
  What the operations of the node leave alone, the well-formedness of a node and that
  every operation keeps it, and the node as an event sink: what it announces, in which
  order, as an interpretation of \<open>event_sink\<close>.  The last section is about inferred addresses.
\<close>

section \<open>Broadcasting\<close>

lemma broadcast_sel [simp]:
  "n_cfg (broadcast e n) = n_cfg n" "n_raft (broadcast e n) = n_raft n"
  "n_fsm (broadcast e n) = n_fsm n" "n_peerHTTPAddrs (broadcast e n) = n_peerHTTPAddrs n"
  "n_peerHealth (broadcast e n) = n_peerHealth n" "n_knownPeers (broadcast e n) = n_knownPeers n"
  "n_hbFailedPeers (broadcast e n) = n_hbFailedPeers n" "n_lastTerm (broadcast e n) = n_lastTerm n"
  "n_pollCancel (broadcast e n) = n_pollCancel n" "n_pollingRunning (broadcast e n) = n_pollingRunning n"
  "n_nextChan (broadcast e n) = n_nextChan n" "n_closedChans (broadcast e n) = n_closedChans n"
  "n_stopClosed (broadcast e n) = n_stopClosed n" "n_crashed (broadcast e n) = n_crashed n"
  "n_hub (broadcast e n) = Broadcast e (n_hub n)" "node_ID (broadcast e n) = node_ID n"
  by (simp_all add: broadcast_def node_ID_def)

lemma node_ID_update [simp]:
  "node_ID (n\<lparr>n_knownPeers := a\<rparr>) = node_ID n" "node_ID (n\<lparr>n_peerHealth := b\<rparr>) = node_ID n"
  "node_ID (n\<lparr>n_lastTerm := w\<rparr>) = node_ID n" "node_ID (n\<lparr>n_hbFailedPeers := b\<rparr>) = node_ID n"
  "node_ID (n\<lparr>n_hub := h\<rparr>) = node_ID n" "node_ID (n\<lparr>n_peerHTTPAddrs := a\<rparr>) = node_ID n"
  by (simp_all add: node_ID_def)

section \<open>Well-formed nodes\<close>

text \<open>The polling has at most one live cancel channel, the current one, and it is open.\<close>

definition polling_ok :: "node \<Rightarrow> bool" where
  "polling_ok n \<longleftrightarrow>
     n_pollingRunning n = (n_pollCancel n \<noteq> None) \<and>
     n_closedChans n = {..<n_nextChan n} - set_option (n_pollCancel n) \<and>
     (\<forall>c \<in> set_option (n_pollCancel n). c < n_nextChan n)"

definition maps_ok :: "node \<Rightarrow> bool" where
  "maps_ok n \<longleftrightarrow> finite (dom (n_peerHTTPAddrs n)) \<and> finite (dom (n_peerHealth n)) \<and>
     finite (dom (n_knownPeers n)) \<and> finite (dom (n_hbFailedPeers n))"

definition node_ok :: "node \<Rightarrow> bool" where
  "node_ok n \<longleftrightarrow> hub_ok (n_hub n) \<and> fsm_ok (n_fsm n) \<and> maps_ok n \<and> polling_ok n \<and> \<not> n_crashed n"

lemma polling_ok_cong:
  "n_pollCancel n' = n_pollCancel n \<Longrightarrow> n_pollingRunning n' = n_pollingRunning n \<Longrightarrow>
   n_nextChan n' = n_nextChan n \<Longrightarrow> n_closedChans n' = n_closedChans n \<Longrightarrow> polling_ok n' = polling_ok n"
  by (simp add: polling_ok_def)

lemma node_ok_broadcast [simp]: "node_ok n \<Longrightarrow> node_ok (broadcast e n)"
  using polling_ok_cong [of "broadcast e n" n]
  by (simp add: node_ok_def maps_ok_def hub_ok_Broadcast)

lemma node_ok_lastTerm [simp]: "node_ok (n\<lparr>n_lastTerm := w\<rparr>) = node_ok n"
  by (simp add: node_ok_def maps_ok_def polling_ok_def)

lemma node_ok_maps:
  "node_ok n \<Longrightarrow> finite (dom a) \<Longrightarrow> node_ok (n\<lparr>n_knownPeers := a\<rparr>)"
  "node_ok n \<Longrightarrow> finite (dom b) \<Longrightarrow> node_ok (n\<lparr>n_peerHealth := b\<rparr>)"
  "node_ok n \<Longrightarrow> finite (dom b) \<Longrightarrow> node_ok (n\<lparr>n_hbFailedPeers := b\<rparr>)"
  "node_ok n \<Longrightarrow> finite (dom a) \<Longrightarrow> node_ok (n\<lparr>n_peerHTTPAddrs := a\<rparr>)"
  by (simp_all add: node_ok_def maps_ok_def polling_ok_def)

lemma node_ok_finite:
  "node_ok n \<Longrightarrow> finite (dom (n_knownPeers n))" "node_ok n \<Longrightarrow> finite (dom (n_peerHealth n))"
  "node_ok n \<Longrightarrow> finite (dom (n_hbFailedPeers n))" "node_ok n \<Longrightarrow> finite (dom (n_peerHTTPAddrs n))"
  by (simp_all add: node_ok_def maps_ok_def)

lemma fsm_ok_new_fsm [simp]: "fsm_ok new_fsm"
  by (simp add: new_fsm_def fsm_ok_New)

lemma node_ok_initial: "node_ok (initial_node cfg clock)" "node_ok ((initial_node cfg clock)\<lparr>n_raft := b\<rparr>)"
  by (simp_all add: node_ok_def initial_node_def maps_ok_def polling_ok_def)

lemma noteTerm_cases:
  "noteTerm w n =
     (if w = 0 \<or> w \<le> n_lastTerm n then n
      else broadcast (mk_event EventTermChanged (node_ID n) w
             (''Node '' @ node_ID n @ '' observed Raft term '' @ itoa_u64 w)
             (VMap [(''term'', VU64 w)])) (n\<lparr>n_lastTerm := w\<rparr>))"
  by (simp add: noteTerm_def note_lock_def note_announce_def)

lemma node_ok_noteTerm [simp]: "node_ok n \<Longrightarrow> node_ok (noteTerm w n)"
  by (simp add: noteTerm_cases)

lemma noteTerm_sel [simp]:
  "n_cfg (noteTerm w n) = n_cfg n" "n_raft (noteTerm w n) = n_raft n"
  "n_fsm (noteTerm w n) = n_fsm n" "n_peerHTTPAddrs (noteTerm w n) = n_peerHTTPAddrs n"
  "n_peerHealth (noteTerm w n) = n_peerHealth n" "n_knownPeers (noteTerm w n) = n_knownPeers n"
  "n_hbFailedPeers (noteTerm w n) = n_hbFailedPeers n" "node_ID (noteTerm w n) = node_ID n"
  "n_lastTerm (noteTerm w n) = max w (n_lastTerm n)"
  by (simp_all add: noteTerm_cases max_def)

lemma node_ok_emit [simp]: "node_ok n \<Longrightarrow> node_ok (emit e evt n)"
  by (simp add: emit_def Let_def)

lemma emit_sel [simp]:
  "n_cfg (emit e v n) = n_cfg n" "n_raft (emit e v n) = n_raft n"
  "n_fsm (emit e v n) = n_fsm n" "n_peerHTTPAddrs (emit e v n) = n_peerHTTPAddrs n"
  "n_peerHealth (emit e v n) = n_peerHealth n" "n_knownPeers (emit e v n) = n_knownPeers n"
  "n_hbFailedPeers (emit e v n) = n_hbFailedPeers n" "node_ID (emit e v n) = node_ID n"
  "n_lastTerm (emit e v n) = n_lastTerm n"
  by (simp_all add: emit_def Let_def)

section \<open>What a node announces\<close>

text \<open>The lifecycle events the hub remembers, without id and time.\<close>

definition journal_of :: "node \<Rightarrow> event list" where
  "journal_of n = announced (n_hub n)"

interpretation node_sink: event_sink broadcast journal_of node_ok
proof unfold_locales
  fix n e
  assume n: "node_ok n"
  then have h: "hub_ok (n_hub n)" by (simp add: node_ok_def)
  show "node_ok (broadcast e n)" using n by simp
  show "length (journal_of n) \<le> maxHistory" using hub_sink.journal_bound [OF h] by (simp add: journal_of_def)
  show "journal_of (broadcast e n) =
      (if is_lifecycle e then last_n maxHistory (journal_of n @ [unstamped e]) else journal_of n)"
    using hub_sink.journal_emit [OF h] by (simp add: journal_of_def)
qed

lemma journal_of_update [simp]:
  "journal_of (n\<lparr>n_lastTerm := w\<rparr>) = journal_of n" "journal_of (n\<lparr>n_knownPeers := a\<rparr>) = journal_of n"
  "journal_of (n\<lparr>n_peerHealth := b\<rparr>) = journal_of n" "journal_of (n\<lparr>n_hbFailedPeers := b\<rparr>) = journal_of n"
  "journal_of (n\<lparr>n_peerHTTPAddrs := a\<rparr>) = journal_of n"
  by (simp_all add: journal_of_def)

section \<open>Addresses\<close>

lemma inferHTTP_host_port:
  assumes "plain_host g" and "r + 1000 < 2 ^ 63"
  shows "inferHTTPAddrFromRaft (host_port g (itoa r)) = host_port g (itoa (r + 1000))"
proof -
  have "int64_range (int r + 1000)" "r < 2 ^ 63"
    using assms(2) by (simp_all add: int64_range_def)
  then have "inferHTTPAddrFromRaft (host_port g (itoa r)) = g @ '':'' @ itoa_int (int r + 1000)"
    using SplitHostPort_host_port [OF assms(1) plain_host_itoa] by (simp add: inferHTTPAddrFromRaft_def)
  then show ?thesis by (simp add: itoa_int_def host_port_def nat_add_distrib)
qed

end
