(* ===== verification/Process_Theorems.thy ===== *)
theory Process_Theorems imports Main_Program Raft_Node_Props begin

text \<open>
  The properties of the process manager: the ports and names it chooses, the address the
  other nodes infer for a spawned node, and that it stops what it started.
\<close>

section \<open>Ports\<close>

lemma search_port_Some:
  "search_port free k s = Some p \<longleftrightarrow> s \<le> p \<and> p < s + int k \<and> free p \<and> (\<forall>q. s \<le> q \<and> q < p \<longrightarrow> \<not> free q)"
proof (induction k arbitrary: s)
  case (Suc k)
  show ?case
  proof (cases "free s")
    case True
    then show ?thesis by (auto simp: order_le_less)
  next
    case False
    have "(\<forall>q. s \<le> q \<and> q < p \<longrightarrow> \<not> free q) = (\<forall>q. s + 1 \<le> q \<and> q < p \<longrightarrow> \<not> free q)"
      using False by (metis add1_zle_eq order_le_less)
    moreover have "free p \<Longrightarrow> (s \<le> p) = (s + 1 \<le> p)" using False by (metis add1_zle_eq order_le_less)
    ultimately show ?thesis using False Suc [of "s + 1"] by auto
  qed
qed auto

lemma search_port_None: "search_port free k s = None \<longleftrightarrow> (\<forall>q \<in> {s..<s + int k}. \<not> free q)"
proof (induction k arbitrary: s)
  case (Suc k)
  have "{s..<s + int (Suc k)} = insert s {s + 1..<s + 1 + int k}" by auto
  then show ?case using Suc [of "s + 1"] by simp
qed auto

text \<open>The port search finds the first free port of the 2000 from its start, and
  fails only when none of them is free.\<close>

theorem finds_first_free_port:
  "case FindFreePort free start of
     Inr p \<Rightarrow> start \<le> p \<and> p < start + 2000 \<and> free p \<and> {q. start \<le> q \<and> q < p \<and> free q} = {}
   | Inl err \<Rightarrow> {q. start \<le> q \<and> q < start + 2000 \<and> free q} = {}"
proof (cases "search_port free 2000 start")
  case None
  then show ?thesis using search_port_None [of free 2000 start] by (auto simp: FindFreePort_def)
next
  case (Some p)
  then show ?thesis using search_port_Some [of free 2000 start p] by (auto simp: FindFreePort_def)
qed

section \<open>Names\<close>

lemma node_name_inj: "inj node_name"
  by (auto simp: inj_def node_name_def)

lemma next_id_smallest:
  assumes "finite (dom (m_children m))" and "card (used_ids existing m) < 500"
  shows "NextAvailableNodeID now existing m \<notin> used_ids existing m \<and>
     (\<exists>i. 1 \<le> i \<and> i \<le> 500 \<and> NextAvailableNodeID now existing m = node_name i \<and>
        {j. 1 \<le> j \<and> j < i \<and> node_name j \<notin> used_ids existing m} = {})"
proof -
  let ?used = "used_ids existing m"
  have fin: "finite ?used" using assms(1) by (simp add: used_ids_def)
  have "\<exists>i \<in> set [1..<501]. node_name i \<notin> ?used"
  proof (rule ccontr)
    assume "\<not> (\<exists>i \<in> set [1..<501]. node_name i \<notin> ?used)"
    then have "node_name ` {1..<501} \<subseteq> ?used" by auto
    then have "card (node_name ` {1..<501}) \<le> card ?used" by (rule card_mono [OF fin])
    moreover have "card (node_name ` {1..<501}) = 500"
      by (subst card_image) (auto intro: inj_on_subset [OF node_name_inj])
    ultimately show False using assms(2) by simp
  qed
  then obtain i where f: "find (\<lambda>i. node_name i \<notin> ?used) [1..<501] = Some i"
    by (metis (no_types, lifting) find_None_iff not_None_eq)
  then obtain k where k: "k < length [1..<501::nat]" "node_name ([1..<501] ! k) \<notin> ?used" "i = [1..<501] ! k"
    "\<forall>j < k. node_name ([1..<501] ! j) \<in> ?used"
    by (auto simp: find_Some_iff)
  have i: "i = Suc k" "k < 500" using k(1,3) by (simp_all add: nth_upt)
  have "node_name j \<in> ?used" if "1 \<le> j" "j < i" for j
    using k(4) [rule_format, of "j - 1"] that i by (simp add: nth_upt)
  then show ?thesis
    using f k(2,3) i by (intro conjI exI [of _ "Suc k"]) (auto simp: NextAvailableNodeID_def)
qed

text \<open>Property C39. While fewer than 500 names are taken the manager picks one that no peer, no
  child and not the node itself has, and the smallest such.\<close>

theorem next_id_fresh:
  assumes "finite (dom (m_children m))" and "card (used_ids existing m) < 500"
  shows "NextAvailableNodeID now existing m \<notin> used_ids existing m \<and>
     (\<exists>i. 1 \<le> i \<and> i \<le> 500 \<and> NextAvailableNodeID now existing m = node_name i \<and>
        {j. 1 \<le> j \<and> j < i \<and> node_name j \<notin> used_ids existing m} = {})"
  by (rule next_id_smallest [OF assms])

definition sample_manager :: manager where
  "sample_manager = fst (NewManager None ''node-1'' ''127.0.0.1:7001'' ''127.0.0.1:8001'')"

lemma sample_manager_sel [simp]:
  "m_children sample_manager = Map.empty" "m_localNodeID sample_manager = ''node-1''"
  "m_nextPort sample_manager = 7004" "m_localHTTP sample_manager = ''127.0.0.1:8001''"
  by (simp_all add: sample_manager_def NewManager_def)

theorem next_id_fresh_witness:
  "NextAvailableNodeID 0 [''node-2''] sample_manager \<notin> {''node-1'', ''node-2''}"
  using next_id_fresh [of sample_manager "[''node-2'']" 0] by (simp add: used_ids_def)

text \<open>The promise of a unique name ends there: with the 500 names taken, the name is
  made from the clock, and in one second out of twenty it is a name already taken.\<close>

theorem next_id_collides:
  assumes "\<forall>i \<in> {1..500}. node_name i \<in> used_ids existing m"
    and "go_mod (unix_seconds now) 10000 \<in> {1..500}"
  shows "NextAvailableNodeID now existing m \<in> used_ids existing m"
proof -
  have "find (\<lambda>i. node_name i \<notin> used_ids existing m) [1..<501] = None"
    using assms(1) by (auto simp: find_None_iff)
  moreover have "''node-'' @ itoa_int (go_mod (unix_seconds now) 10000) = node_name (nat (go_mod (unix_seconds now) 10000))"
    using assms(2) by (simp add: itoa_int_def node_name_def)
  moreover have "nat (go_mod (unix_seconds now) 10000) \<in> {1..500}"
    using assms(2) by auto
  ultimately show ?thesis
    using assms(1) by (simp add: NextAvailableNodeID_def)
qed

theorem next_id_collides_witness:
  "NextAvailableNodeID ((62135596800 + 10007) * 1000000000) (map node_name [1..<501]) sample_manager \<in>
     insert ''node-1'' (set (map node_name [1..<501]))"
proof -
  have u: "used_ids (map node_name [1..<501]) sample_manager = insert ''node-1'' (set (map node_name [1..<501]))"
    by (simp add: used_ids_def)
  have g: "go_mod (unix_seconds ((62135596800 + 10007) * 1000000000)) 10000 \<in> {1..500}"
    by (simp add: go_mod_def unix_seconds_def)
  have "\<forall>i \<in> {1..500}. node_name i \<in> used_ids (map node_name [1..<501]) sample_manager"
    unfolding u by auto
  from next_id_collides [OF this g] show ?thesis unfolding u .
qed

section \<open>Spawning\<close>

lemma FindFreePort_bounds: "FindFreePort free s = Inr p \<Longrightarrow> s \<le> p \<and> p < s + 2000 \<and> free p"
  using search_port_Some [of free 2000 s p] by (auto simp: FindFreePort_def split: option.splits)

lemma FindFreePort_first: "free s \<Longrightarrow> FindFreePort free s = Inr s"
  using search_port_Some [of free 2000 s s] by (auto simp: FindFreePort_def split: option.splits)

lemma FindFreePort_second: "\<not> free s \<Longrightarrow> free (s + 1) \<Longrightarrow> FindFreePort free s = Inr (s + 1)"
  using search_port_Some [of free 2000 s "s + 1"] by (fastforce simp: FindFreePort_def split: option.splits)

text \<open>The HTTP port is free in the search that found it, and it is the first one tried if
  that one was free.\<close>

lemma find_http_port_cases:
  assumes "find_http_port os rp = Inr hp"
  shows "(os_free os 1 (rp + 1000) \<longrightarrow> hp = rp + 1000) \<and>
    (hp \<ge> rp + 1000 \<and> os_free os 1 hp \<or> hp \<ge> 8004 \<and> os_free os 2 hp)"
proof (cases "FindFreePort (os_free os 1) (rp + 1000)")
  case (Inl e)
  then have "\<not> os_free os 1 (rp + 1000)" using FindFreePort_first [of "os_free os 1" "rp + 1000"] by auto
  moreover have "FindFreePort (os_free os 2) 8004 = Inr hp" using assms Inl by (simp add: find_http_port_def)
  ultimately show ?thesis using FindFreePort_bounds by blast
next
  case (Inr q)
  then have "q = hp" using assms by (simp add: find_http_port_def)
  with Inr show ?thesis
    using FindFreePort_first [of "os_free os 1" "rp + 1000"] FindFreePort_bounds [of "os_free os 1" "rp + 1000" hp] by auto
qed

text \<open>What a successful spawn has chosen and done.\<close>

lemma SpawnNode_Inr:
  assumes "SpawnNode os i join m = (m', eff, Inr p)"
  obtains rp hp where "FindFreePort (os_free os 0) (m_nextPort m) = Inr rp" "find_http_port os rp = Inr hp"
    "pr_NodeID p = i" "pr_RaftAddr p = ''127.0.0.1:'' @ itoa_int rp" "pr_HTTPAddr p = ''127.0.0.1:'' @ itoa_int hp"
    "pr_DataDir p = path_join [''data'', i]" "pr_started p"
    "m' = m\<lparr>m_nextPort := rp + 1, m_children := (m_children m)(i \<mapsto> p)\<rparr>"
    "StartProcess (m_executable m) (spawn_args i (pr_RaftAddr p) (pr_HTTPAddr p) (pr_DataDir p)
       (if join = [] then ''http://'' @ m_localHTTP m else join)) \<in> set eff"
  using assms that by (auto simp: SpawnNode_def Let_def split: sum.splits option.splits)

lemma SpawnNode_started:
  assumes "SpawnNode os i join m = (m', eff, Inr p)" and "StartProcess exe args \<in> set eff"
  shows "args = spawn_args i (pr_RaftAddr p) (pr_HTTPAddr p) (pr_DataDir p)
      (if join = [] then ''http://'' @ m_localHTTP m else join) \<and>
    pr_DataDir p = path_join [''data'', i]"
proof -
  define target where "target = (if join = [] then ''http://'' @ m_localHTTP m else join)"
  show ?thesis
    using assms unfolding SpawnNode_def Let_def target_def [symmetric]
    by (auto split: sum.splits option.splits)
qed

lemma SpawnNode_Inl:
  "SpawnNode os i join m = (m', eff, Inl err) \<Longrightarrow>
   m_children m' = m_children m \<and> m_nextPort m \<le> m_nextPort m'"
  by (auto simp: SpawnNode_def Let_def dest!: FindFreePort_bounds split: sum.splits option.splits)

fun spawn_all :: "(os \<times> string \<times> string) list \<Rightarrow> manager \<Rightarrow> manager \<times> process_info list" where
  "spawn_all [] m = (m, [])"
| "spawn_all ((os, i, join) # xs) m =
     (let (m1, eff, r) = SpawnNode os i join m; (m2, ps) = spawn_all xs m1
      in (m2, case r of Inr p \<Rightarrow> p # ps | Inl err \<Rightarrow> ps))"

lemma itoa_int_inj: "0 \<le> a \<Longrightarrow> 0 \<le> b \<Longrightarrow> itoa_int a = itoa_int b \<longleftrightarrow> a = b"
  by (auto simp: itoa_int_def)

text \<open>The Raft ports of the nodes one manager spawns grow.\<close>

lemma spawn_all_ports:
  "spawn_all xs m = (m', ps) \<Longrightarrow>
   \<exists>rps. map pr_RaftAddr ps = map (\<lambda>r. ''127.0.0.1:'' @ itoa_int r) rps \<and> sorted_wrt (<) rps \<and>
     set rps \<subseteq> {m_nextPort m..<m_nextPort m'} \<and> m_nextPort m \<le> m_nextPort m'"
proof (induction xs arbitrary: m ps)
  case (Cons x xs)
  obtain os i join where x: "x = (os, i, join)" by (cases x)
  obtain m1 eff r where s: "SpawnNode os i join m = (m1, eff, r)" by (cases "SpawnNode os i join m")
  obtain m2 qs where "spawn_all xs m1 = (m2, qs)" by (cases "spawn_all xs m1")
  then have q: "spawn_all xs m1 = (m', qs)" "ps = (case r of Inr p \<Rightarrow> p # qs | Inl err \<Rightarrow> qs)"
    using Cons.prems s by (simp_all add: x)
  obtain rps where rps: "map pr_RaftAddr qs = map (\<lambda>r. ''127.0.0.1:'' @ itoa_int r) rps" "sorted_wrt (<) rps"
    "set rps \<subseteq> {m_nextPort m1..<m_nextPort m'}" "m_nextPort m1 \<le> m_nextPort m'"
    using Cons.IH [OF q(1)] by blast
  show ?case
  proof (cases r)
    case (Inl err)
    then have "m_nextPort m \<le> m_nextPort m1" using SpawnNode_Inl s by blast
    then show ?thesis using rps q(2) Inl by (intro exI [of _ rps]) auto
  next
    case (Inr p)
    with s obtain rp where rp: "FindFreePort (os_free os 0) (m_nextPort m) = Inr rp"
      "pr_RaftAddr p = ''127.0.0.1:'' @ itoa_int rp" "m_nextPort m1 = rp + 1"
      by (auto elim!: SpawnNode_Inr)
    then have "m_nextPort m \<le> rp" using FindFreePort_bounds by blast
    then show ?thesis using rps rp q(2) Inr by (intro exI [of _ "rp # rps"]) (auto simp: subset_iff)
  qed
qed simp

lemma spawn_all_distinct:
  assumes "0 \<le> m_nextPort m" and "spawn_all xs m = (m', ps)"
  shows "distinct (map pr_RaftAddr ps)"
proof -
  obtain rps where rps: "map pr_RaftAddr ps = map (\<lambda>r. ''127.0.0.1:'' @ itoa_int r) rps" "sorted_wrt (<) rps"
    "set rps \<subseteq> {m_nextPort m..<m_nextPort m'}"
    using spawn_all_ports [OF assms(2)] by blast
  have "inj_on (\<lambda>r. ''127.0.0.1:'' @ itoa_int r) (set rps)"
    using order_trans [OF assms(1)] rps(3) by (intro inj_onI) (auto simp: itoa_int_inj subset_iff)
  moreover have "distinct rps" using rps(2) by (simp add: strict_sorted_iff)
  ultimately show ?thesis unfolding rps(1) by (simp add: distinct_map)
qed

text \<open>However many nodes one manager spawns, with whatever ports busy at each
  moment, no two of them get the same Raft address.\<close>

theorem raft_addresses_distinct:
  assumes "0 \<le> m_nextPort m" and "spawn_all xs m = (m', ps)"
  shows "distinct (map pr_RaftAddr ps)"
  by (rule spawn_all_distinct [OF assms])

definition sample_os :: os where
  "sample_os = \<lparr>os_free = (\<lambda>k p. p \<noteq> 8004), os_open = (\<lambda>_. None), os_start = (\<lambda>_ _. Inr 4242), os_now = 9\<rparr>"

lemma sample_os_sel [simp]:
  "os_free sample_os k p = (p \<noteq> 8004)" "os_open sample_os f = None" "os_start sample_os x a = Inr 4242"
  by (simp_all add: sample_os_def)

lemma sample_find [simp]:
  "p \<noteq> 8004 \<Longrightarrow> FindFreePort (os_free sample_os k) p = Inr p"
  "FindFreePort (os_free sample_os k) 8004 = Inr 8005"
  using FindFreePort_second [of "os_free sample_os k" 8004] by (simp_all add: FindFreePort_first)

lemma SpawnNode_success:
  assumes "FindFreePort (os_free os 0) (m_nextPort m) = Inr rp" and "find_http_port os rp = Inr hp"
    and "\<forall>f. os_open os f = None" and "\<forall>x a. \<not> isl (os_start os x a)"
  shows "\<exists>eff p. SpawnNode os i join m =
      (m\<lparr>m_nextPort := rp + 1, m_children := (m_children m)(i \<mapsto> p)\<rparr>, eff, Inr p) \<and>
     pr_RaftAddr p = ''127.0.0.1:'' @ itoa_int rp \<and> pr_HTTPAddr p = ''127.0.0.1:'' @ itoa_int hp"
proof -
  have "isl r \<or> (\<exists>pid. r = Inr pid)" for r :: "go_error + int" by (cases r) simp_all
  then have "\<forall>x a. \<exists>pid. os_start os x a = Inr pid" using assms(4) by blast
  then obtain pid where "\<forall>x a. os_start os x a = Inr (pid x a)" by metis
  then show ?thesis using assms(1-3) by (simp add: SpawnNode_def Let_def)
qed

lemma spawn_two:
  assumes "FindFreePort (os_free os 0) (m_nextPort m) = Inr r" and "find_http_port os r = Inr h"
    and "FindFreePort (os_free os' 0) (r + 1) = Inr r'" and "find_http_port os' r' = Inr h'"
    and "\<forall>f. os_open os f = None" and "\<forall>x a. \<not> isl (os_start os x a)"
    and "\<forall>f. os_open os' f = None" and "\<forall>x a. \<not> isl (os_start os' x a)"
  shows "\<exists>m' p q. spawn_all [(os, i, join), (os', j, join')] m = (m', [p, q]) \<and>
     pr_HTTPAddr p = ''127.0.0.1:'' @ itoa_int h \<and> pr_HTTPAddr q = ''127.0.0.1:'' @ itoa_int h'"
proof -
  obtain eff p where 1: "SpawnNode os i join m =
      (m\<lparr>m_nextPort := r + 1, m_children := (m_children m)(i \<mapsto> p)\<rparr>, eff, Inr p)"
    "pr_HTTPAddr p = ''127.0.0.1:'' @ itoa_int h"
    using SpawnNode_success [OF assms(1,2,5,6), of i join] by blast
  let ?m = "m\<lparr>m_nextPort := r + 1, m_children := (m_children m)(i \<mapsto> p)\<rparr>"
  have "FindFreePort (os_free os' 0) (m_nextPort ?m) = Inr r'" using assms(3) by simp
  from SpawnNode_success [OF this assms(4,7,8), of j join'] obtain eff' q m2 where 2:
    "SpawnNode os' j join' ?m = (m2, eff', Inr q)" "pr_HTTPAddr q = ''127.0.0.1:'' @ itoa_int h'"
    by blast
  show ?thesis
    by (rule exI [of _ m2], rule exI [of _ p], rule exI [of _ q])
      (simp only: spawn_all.simps 1(1) 2(1) 1(2) 2(2) Let_def prod.case sum.case simp_thms)
qed

theorem raft_addresses_distinct_witness:
  "\<exists>m' p q. spawn_all [(sample_os, ''node-2'', []), (sample_os, ''node-3'', [])] sample_manager = (m', [p, q]) \<and>
     pr_RaftAddr p \<noteq> pr_RaftAddr q"
proof -
  have "find_http_port sample_os 7004 = Inr 8005" "find_http_port sample_os 7005 = Inr 8005"
    by (simp_all add: find_http_port_def)
  then obtain m' p q where s: "spawn_all [(sample_os, ''node-2'', []), (sample_os, ''node-3'', [])] sample_manager = (m', [p, q])"
    using spawn_two [of sample_os sample_manager 7004 8005 sample_os 7005 8005 "''node-2''" "[]" "''node-3''" "[]"] by auto
  then show ?thesis using raft_addresses_distinct [OF _ s] by (intro exI [of _ m'] exI [of _ p] exI [of _ q]) simp
qed

text \<open>The HTTP addresses carry no such promise: the manager does not remember the
  HTTP ports it gave out, so when the port 1000 above the first Raft port is busy, two
  nodes spawned one after the other, before the first one listens, are given the same HTTP
  address.\<close>

theorem http_addresses_collide:
  assumes "\<forall>k q. os_free os k q = (q \<noteq> m_nextPort m + 1000)" and "\<forall>f. os_open os f = None"
    and "\<forall>x a. \<not> isl (os_start os x a)"
  shows "\<exists>m' p q. spawn_all [(os, i, ''''), (os, j, '''')] m = (m', [p, q]) \<and> pr_HTTPAddr p = pr_HTTPAddr q"
proof -
  let ?n = "m_nextPort m"
  have free: "FindFreePort (os_free os k) s = Inr s" if "s \<noteq> ?n + 1000" for k s
    using assms(1) that by (intro FindFreePort_first) simp
  have busy: "FindFreePort (os_free os k) (?n + 1000) = Inr (?n + 1001)" for k
    using FindFreePort_second [of "os_free os k" "?n + 1000"] assms(1) by simp
  have "find_http_port os ?n = Inr (?n + 1001)" "find_http_port os (?n + 1) = Inr (?n + 1001)"
    using busy [of 1] free [of "?n + 1001" 1] by (simp_all add: find_http_port_def add.commute [of 1001])
  from spawn_two [OF free this(1) free this(2) assms(2,3,2,3)] show ?thesis by fastforce
qed

theorem http_addresses_collide_witness:
  "\<exists>m' p q. spawn_all [(sample_os, ''node-2'', ''''), (sample_os, ''node-3'', '''')] sample_manager = (m', [p, q]) \<and>
     pr_HTTPAddr p = pr_HTTPAddr q"
  by (rule http_addresses_collide) simp_all

text \<open>Property C40. A spawned node is where the other nodes look for it exactly when the port 1000
  above its Raft port was free: then the address they infer from its Raft address is its
  HTTP address, and otherwise it is not.  (A port that is busy in the search from there is
  taken to be busy still in the search from 8004 that follows it.)\<close>

theorem spawned_address_inferred:
  assumes "SpawnNode os i join m = (m', eff, Inr p)" and "0 \<le> m_nextPort m" and "m_nextPort m < 2 ^ 32"
    and "os_free os 2 = os_free os 1"
  shows "(inferHTTPAddrFromRaft (pr_RaftAddr p) = pr_HTTPAddr p) = os_free os 1 (m_nextPort m' - 1 + 1000)"
proof -
  obtain rp hp where s: "FindFreePort (os_free os 0) (m_nextPort m) = Inr rp" "find_http_port os rp = Inr hp"
    "pr_RaftAddr p = ''127.0.0.1:'' @ itoa_int rp" "pr_HTTPAddr p = ''127.0.0.1:'' @ itoa_int hp"
    "m_nextPort m' = rp + 1"
    using assms(1) by (auto elim!: SpawnNode_Inr)
  have rp: "0 \<le> rp" "rp < 2 ^ 33" using FindFreePort_bounds [OF s(1)] assms(2,3) by simp_all
  have raft: "pr_RaftAddr p = host_port ''127.0.0.1'' (itoa (nat rp))"
    using rp by (simp add: s(3) itoa_int_def host_port_def)
  have inferred: "inferHTTPAddrFromRaft (pr_RaftAddr p) = ''127.0.0.1:'' @ itoa_int (rp + 1000)"
    using inferHTTP_host_port [of "''127.0.0.1''" "nat rp"] rp
    by (simp add: raft plain_host_def host_port_def itoa_int_def nat_add_distrib)
  have hp: "0 \<le> hp" "hp = rp + 1000 \<longleftrightarrow> os_free os 1 (rp + 1000)"
    using find_http_port_cases [OF s(2)] rp assms(4) by auto
  then show ?thesis using inferred rp s(4,5) by (auto simp: itoa_int_inj)
qed

theorem spawned_address_inferred_witness:
  "\<exists>m' eff p. SpawnNode sample_os ''node-2'' [] sample_manager = (m', eff, Inr p) \<and>
     inferHTTPAddrFromRaft (pr_RaftAddr p) \<noteq> pr_HTTPAddr p"
proof -
  have "FindFreePort (os_free sample_os 0) (m_nextPort sample_manager) = Inr 7004" "find_http_port sample_os 7004 = Inr 8005"
    by (simp_all add: find_http_port_def)
  from SpawnNode_success [OF this, of "''node-2''" "[]"] obtain eff p where s:
    "SpawnNode sample_os ''node-2'' [] sample_manager =
       (sample_manager\<lparr>m_nextPort := 7004 + 1, m_children := (m_children sample_manager)(''node-2'' \<mapsto> p)\<rparr>, eff, Inr p)"
    by auto
  have "os_free sample_os 2 = os_free sample_os 1" by (simp add: fun_eq_iff)
  from spawned_address_inferred [OF s _ _ this] show ?thesis
    by (intro exI [of _ eff] exI [of _ p] exI) (auto simp: s)
qed

section \<open>Starting and stopping\<close>

text \<open>A manager is well formed when every child is filed under its own name with a started
  process, and its next port is a port.\<close>

definition manager_ok :: "manager \<Rightarrow> bool" where
  "manager_ok m \<longleftrightarrow> finite (dom (m_children m)) \<and> 0 \<le> m_nextPort m \<and>
     (\<forall>i p. m_children m i = Some p \<longrightarrow> pr_NodeID p = i \<and> pr_started p)"

lemma manager_ok_New: "manager_ok (fst (NewManager exe i ra ha))"
  by (simp add: manager_ok_def NewManager_def)

lemma manager_ok_SpawnNode:
  assumes "manager_ok m" and "SpawnNode os i join m = (m', eff, r)"
  shows "manager_ok m'"
proof (cases r)
  case (Inl err)
  then show ?thesis using assms SpawnNode_Inl [of os i join m m' eff err] by (auto simp: manager_ok_def)
next
  case (Inr p)
  then have s: "SpawnNode os i join m = (m', eff, Inr p)" using assms(2) by simp
  show ?thesis
    by (rule SpawnNode_Inr [OF s])
      (use assms(1) FindFreePort_bounds in \<open>fastforce simp: manager_ok_def\<close>)
qed

lemma manager_ok_StopProcess: "manager_ok m \<Longrightarrow> manager_ok (fst (StopProcess i m))"
  by (auto simp: manager_ok_def StopProcess_def split: option.splits)

text \<open>The requests a manager serves, in the order it serves them: it hands out the processes
  it started and the kill signals it sent.\<close>

datatype manager_request = Spawn os string string | Stop string

fun serve :: "manager_request list \<Rightarrow> manager \<Rightarrow> manager \<times> process_info list \<times> os_effect list" where
  "serve [] m = (m, [], [])"
| "serve (Spawn os i join # rs) m =
     (let (m1, eff, r) = SpawnNode os i join m; (m2, ps, sent) = serve rs m1
      in (m2, (case r of Inr p \<Rightarrow> p # ps | Inl err \<Rightarrow> ps), eff @ sent))"
| "serve (Stop i # rs) m =
     (let (m1, eff) = StopProcess i m; (m2, ps, sent) = serve rs m1 in (m2, ps, eff @ sent))"

definition child_pids :: "manager \<Rightarrow> int set" where
  "child_pids m = pr_PID ` ran (m_children m)"

text \<open>A child stays a child until it is killed or its name is given to another process.\<close>

lemma StopProcess_child:
  assumes "manager_ok m" and "StopProcess i m = (m', eff)" and "m_children m k = Some p"
  shows "m_children m' k = Some p \<or> Kill (pr_PID p) \<in> set eff"
  using assms by (cases "k = i") (auto simp: manager_ok_def StopProcess_def split: option.splits if_splits)

lemma SpawnNode_child:
  assumes "SpawnNode os i join m = (m', eff, r)" and "m_children m k = Some p"
  shows "m_children m' k = Some p \<or> (\<exists>q. r = Inr q \<and> pr_NodeID q = k)"
proof (cases r)
  case (Inl err)
  then show ?thesis using assms SpawnNode_Inl [of os i join m m' eff err] by simp
next
  case (Inr q)
  then have s: "SpawnNode os i join m = (m', eff, Inr q)" using assms(1) by simp
  show ?thesis by (rule SpawnNode_Inr [OF s]) (use assms(2) Inr in auto)
qed

lemma serve_children:
  assumes "manager_ok m" and "serve rs m = (m', ps, sent)" and "m_children m k = Some p"
  shows "m_children m' k = Some p \<or> Kill (pr_PID p) \<in> set sent \<or> (\<exists>q \<in> set ps. pr_NodeID q = k)"
  using assms
proof (induction rs arbitrary: m ps sent)
  case (Cons r rs)
  show ?case
  proof (cases r)
    case (Spawn os i join)
    obtain m1 eff x where s: "SpawnNode os i join m = (m1, eff, x)" by (cases "SpawnNode os i join m")
    obtain ps1 sent1 where t: "serve rs m1 = (m', ps1, sent1)"
      "ps = (case x of Inr p \<Rightarrow> p # ps1 | Inl err \<Rightarrow> ps1)" "sent = eff @ sent1"
      using Cons.prems(2) s by (auto simp: Spawn split: prod.splits)
    have "manager_ok m1" by (rule manager_ok_SpawnNode [OF Cons.prems(1) s])
    from Cons.IH [OF this t(1)] show ?thesis
      using SpawnNode_child [OF s Cons.prems(3)] t(2,3) by (auto split: sum.splits)
  next
    case (Stop i)
    obtain m1 eff where s: "StopProcess i m = (m1, eff)" by (cases "StopProcess i m")
    obtain sent1 where t: "serve rs m1 = (m', ps, sent1)" "sent = eff @ sent1"
      using Cons.prems(2) s by (auto simp: Stop split: prod.splits)
    have "manager_ok m1" using manager_ok_StopProcess [OF Cons.prems(1), of i] s by simp
    from Cons.IH [OF this t(1)] show ?thesis
      using StopProcess_child [OF Cons.prems(1) s Cons.prems(3)] t(2) by auto
  qed
qed simp

lemma serve_started:
  assumes "manager_ok m" and "serve rs m = (m', xs @ p # ys, sent)"
  shows "m_children m' (pr_NodeID p) = Some p \<or> Kill (pr_PID p) \<in> set sent \<or>
    (\<exists>q \<in> set ys. pr_NodeID q = pr_NodeID p)"
  using assms
proof (induction rs arbitrary: m xs sent)
  case (Cons r rs)
  show ?case
  proof (cases r)
    case (Spawn os i join)
    obtain m1 eff x where s: "SpawnNode os i join m = (m1, eff, x)" by (cases "SpawnNode os i join m")
    obtain ps1 sent1 where t: "serve rs m1 = (m', ps1, sent1)"
      "xs @ p # ys = (case x of Inr p \<Rightarrow> p # ps1 | Inl err \<Rightarrow> ps1)" "sent = eff @ sent1"
      using Cons.prems(2) s by (auto simp: Spawn split: prod.splits)
    have ok: "manager_ok m1" by (rule manager_ok_SpawnNode [OF Cons.prems(1) s])
    consider (later) zs where "ps1 = zs @ p # ys" | (now) "x = Inr p" "ps1 = ys"
      using t(2) by (cases x; cases xs) auto
    then show ?thesis
    proof cases
      case later
      then show ?thesis using Cons.IH [OF ok] t(1,3) by auto
    next
      case now
      then have s': "SpawnNode os i join m = (m1, eff, Inr p)" using s by simp
      have "m_children m1 (pr_NodeID p) = Some p" by (rule SpawnNode_Inr [OF s']) simp
      from serve_children [OF ok t(1) this] show ?thesis using now t(3) by auto
    qed
  next
    case (Stop i)
    obtain m1 eff where s: "StopProcess i m = (m1, eff)" by (cases "StopProcess i m")
    obtain sent1 where t: "serve rs m1 = (m', xs @ p # ys, sent1)" "sent = eff @ sent1"
      using Cons.prems(2) s by (auto simp: Stop split: prod.splits)
    have "manager_ok m1" using manager_ok_StopProcess [OF Cons.prems(1), of i] s by simp
    from Cons.IH [OF this t(1)] show ?thesis using t(2) by auto
  qed
qed simp

lemma manager_ok_serve: "manager_ok m \<Longrightarrow> manager_ok (fst (serve rs m))"
proof (induction rs arbitrary: m)
  case (Cons r rs)
  then show ?case
    using manager_ok_StopProcess [OF Cons.prems] manager_ok_SpawnNode [OF Cons.prems]
    by (cases r) (auto simp: split_beta, (metis Cons.IH prod.collapse)+)
qed simp

lemma StopAll_kills:
  assumes "manager_ok m" and "set ks = dom (m_children m)"
  shows "m_children (fst (StopAll ks m)) = Map.empty \<and> set (snd (StopAll ks m)) = Kill ` child_pids m"
proof -
  have started: "k \<in> dom (m_children m) \<Longrightarrow> pr_started (the (m_children m k))" for k
    using assms(1) by (auto simp: manager_ok_def)
  have "set (snd (StopAll ks m)) = (\<Union>k \<in> dom (m_children m). {Kill (pr_PID (the (m_children m k)))})"
    using assms(2) started by (simp add: StopAll_def Let_def)
  also have "\<dots> = Kill ` child_pids m"
    by (force simp: child_pids_def ran_def image_iff dom_def)
  finally show ?thesis by (simp add: StopAll_def)
qed

text \<open>Property C16. Whatever a manager was asked to spawn and to stop since it was made, in any order and
  with any failures: once it has stopped all, it has no child left, and every process it started has
  been sent a kill signal, except one whose name was given to a process that was started
  later.\<close>

theorem no_orphans:
  assumes "serve rs (fst (NewManager exe i ra ha)) = (m, started, sent)" and "set ks = dom (m_children m)"
  shows "m_children (fst (StopAll ks m)) = Map.empty \<and>
     (\<forall>xs p ys. started = xs @ p # ys \<longrightarrow>
        Kill (pr_PID p) \<in> set (sent @ snd (StopAll ks m)) \<or> (\<exists>q \<in> set ys. pr_NodeID q = pr_NodeID p))"
proof -
  have "manager_ok m" using manager_ok_serve [OF manager_ok_New, of rs exe i ra ha] assms(1) by simp
  note all = StopAll_kills [OF this assms(2)]
  have "Kill (pr_PID p) \<in> set (snd (StopAll ks m))" if "m_children m k = Some p" for k p
    using that all by (auto simp: child_pids_def ran_def)
  moreover have "m_children m (pr_NodeID p) = Some p \<or> Kill (pr_PID p) \<in> set sent \<or>
      (\<exists>q \<in> set ys. pr_NodeID q = pr_NodeID p)" if "started = xs @ p # ys" for xs p ys
    using serve_started [OF manager_ok_New] assms(1) that by blast
  ultimately show ?thesis using all by (metis UnCI set_append)
qed

lemma sample_spawn:
  obtains p eff where "SpawnNode sample_os ''node-2'' [] sample_manager =
      (sample_manager\<lparr>m_nextPort := 7005, m_children := [''node-2'' \<mapsto> p]\<rparr>, eff, Inr p)"
proof -
  have "FindFreePort (os_free sample_os 0) (m_nextPort sample_manager) = Inr 7004" "find_http_port sample_os 7004 = Inr 8005"
    by (simp_all add: find_http_port_def)
  from SpawnNode_success [OF this, of "''node-2''" "[]"] that show thesis by auto
qed

theorem no_orphans_witness:
  "\<exists>p sent. serve [Spawn sample_os ''node-2'' []] sample_manager =
       (sample_manager\<lparr>m_nextPort := 7005, m_children := [''node-2'' \<mapsto> p]\<rparr>, [p], sent) \<and>
     Kill (pr_PID p) \<in> set (sent @ snd (StopAll [''node-2''] (sample_manager\<lparr>m_nextPort := 7005, m_children := [''node-2'' \<mapsto> p]\<rparr>)))"
proof -
  obtain p eff where s: "SpawnNode sample_os ''node-2'' [] sample_manager =
      (sample_manager\<lparr>m_nextPort := 7005, m_children := [''node-2'' \<mapsto> p]\<rparr>, eff, Inr p)"
    by (rule sample_spawn)
  let ?m = "sample_manager\<lparr>m_nextPort := 7005, m_children := [''node-2'' \<mapsto> p]\<rparr>"
  have r: "serve [Spawn sample_os ''node-2'' []] sample_manager = (?m, [p], eff)" by (simp add: s)
  have "Kill (pr_PID p) \<in> set (eff @ snd (StopAll [''node-2''] ?m))"
    using conjunct2 [OF no_orphans [of "[Spawn sample_os ''node-2'' []]" None "''node-1''" "''127.0.0.1:7001''"
        "''127.0.0.1:8001''" ?m "[p]" eff "[''node-2'']"], rule_format, of "[]" p "[]"] r
    by (simp add: sample_manager_def [symmetric])
  then show ?thesis using r by (intro exI [of _ p] exI [of _ eff]) simp
qed

text \<open>The exception is real.  The choice of a name and the spawn under it are two critical
  sections, so two requests may both choose before either spawns; they choose the same name, the second
  process replaces the first one among the children, and the first one is never killed.\<close>

theorem concurrent_spawns_orphan:
  assumes "manager_ok m" and "card (used_ids peers m) < 500"
    and "i = NextAvailableNodeID now peers m" and "j = NextAvailableNodeID now' peers m"
    and "SpawnNode os i join m = (m1, eff, Inr p)" and "SpawnNode os' j join' m1 = (m2, eff', Inr q)"
    and "pr_PID p \<notin> child_pids m" and "pr_PID p \<noteq> pr_PID q" and "set ks = dom (m_children m2)"
  shows "i = j \<and> Kill (pr_PID p) \<notin> set (eff @ eff' @ snd (StopAll ks m2))"
proof -
  have fin: "finite (dom (m_children m))" using assms(1) by (simp add: manager_ok_def)
  obtain k where "1 \<le> k" "k \<le> 500" "node_name k \<notin> used_ids peers m"
    using next_id_smallest [OF fin assms(2), of now] by metis
  then have f: "find (\<lambda>i. node_name i \<notin> used_ids peers m) [1..<501] \<noteq> None"
    by (auto simp: find_None_iff intro!: exI [of _ k])
  then have ij: "i = j" using assms(3,4) by (auto simp: NextAvailableNodeID_def)
  have m1: "m_children m1 = (m_children m)(i \<mapsto> p)" by (rule SpawnNode_Inr [OF assms(5)]) simp
  have m2: "m_children m2 = (m_children m1)(j \<mapsto> q)" by (rule SpawnNode_Inr [OF assms(6)]) simp
  have new: "i \<notin> dom (m_children m)"
    using next_id_smallest [OF fin assms(2), of now] assms(3) by (auto simp: used_ids_def)
  have ok: "manager_ok m2" using manager_ok_SpawnNode assms(1,5,6) by blast
  have "pr_PID p \<notin> child_pids m2"
    using assms(7,8) new by (auto simp: m1 m2 ij child_pids_def ran_def)
  then have "Kill (pr_PID p) \<notin> set (snd (StopAll ks m2))" using StopAll_kills [OF ok assms(9)] by auto
  moreover have "Kill x \<notin> set e" if "SpawnNode o' k l a = (b, e, Inr r)" for x o' k l a b e r
    using that by (auto simp: SpawnNode_def Let_def split: sum.splits option.splits)
  ultimately show ?thesis using ij assms(5,6) by auto
qed

theorem concurrent_spawns_orphan_witness:
  "\<exists>m1 m2 e1 e2 p q. SpawnNode sample_os ''node-2'' [] sample_manager = (m1, e1, Inr p) \<and>
     SpawnNode (sample_os\<lparr>os_start := \<lambda>_ _. Inr 4243\<rparr>) ''node-2'' [] m1 = (m2, e2, Inr q) \<and>
     Kill (pr_PID p) \<notin> set (e1 @ e2 @ snd (StopAll [''node-2''] m2))"
proof -
  let ?os = "sample_os\<lparr>os_start := \<lambda>_ _. Inr 4243\<rparr>"
  have h: "find_http_port sample_os 7004 = Inr 8005" "find_http_port ?os 7005 = Inr 8005"
    using sample_find(2) [of 1] sample_find(1) [of 8005 1] by (simp_all add: find_http_port_def)
  obtain e1 p where 1: "SpawnNode sample_os ''node-2'' [] sample_manager =
      (sample_manager\<lparr>m_nextPort := 7005, m_children := [''node-2'' \<mapsto> p]\<rparr>, e1, Inr p)" "pr_PID p = 4242"
    using h(1) by (simp add: SpawnNode_def Let_def)
  let ?m1 = "sample_manager\<lparr>m_nextPort := 7005, m_children := [''node-2'' \<mapsto> p]\<rparr>"
  obtain m2 e2 q where 2: "SpawnNode ?os ''node-2'' [] ?m1 = (m2, e2, Inr q)" "pr_PID q = 4243"
    "m_children m2 = [''node-2'' \<mapsto> q]"
    using h(2) by (simp add: SpawnNode_def Let_def)
  have ok: "manager_ok sample_manager" unfolding sample_manager_def by (rule manager_ok_New)
  have u: "used_ids [] sample_manager = {''node-1''}" by (simp add: used_ids_def)
  have n: "NextAvailableNodeID 0 [] sample_manager = ''node-2''"
  proof -
    have "itoa 1 = ''1''" "itoa 2 = ''2''" by (simp_all add: itoa.simps digit_char_def char_of_eq_iff)
    moreover have "[1..<501] = 1 # 2 # [Suc 2..<501::nat]"
      using upt_conv_Cons [of 1 501] upt_conv_Cons [of 2 501] unfolding Suc_1 by simp
    ultimately show ?thesis unfolding NextAvailableNodeID_def u by (simp add: node_name_def)
  qed
  have "Kill (pr_PID p) \<notin> set (e1 @ e2 @ snd (StopAll [''node-2''] m2))"
  proof (rule conjunct2 [OF concurrent_spawns_orphan [OF ok _ n [symmetric] n [symmetric] 1(1) 2(1)]])
    show "card (used_ids [] sample_manager) < 500" by (simp add: u)
    show "pr_PID p \<notin> child_pids sample_manager" by (simp add: child_pids_def)
    show "pr_PID p \<noteq> pr_PID q" by (simp add: 1(2) 2(2))
    show "set [''node-2''] = dom (m_children m2)" by (simp add: 2(3))
  qed
  with 1(1) 2(1) show ?thesis by blast
qed

end
