(* ===== verification/Kv_Fsm_Theorems.thy ===== *)
theory Kv_Fsm_Theorems imports Kv_Fsm_Props begin

text \<open>
  The properties of the state machine: it implements the abstract store on every log, it
  never panics on the states a node can be in, replicas agree, snapshots and log
  compaction lose nothing, and commands survive the log.
\<close>

section \<open>Runs of the log\<close>

text \<open>Applying a log entry by entry, each at its own clock reading; \<open>None\<close> is a panic.\<close>

fun apply_all :: "time_zone \<Rightarrow> (raft_log \<times> time) list \<Rightarrow> kv_fsm \<Rightarrow> kv_fsm option" where
  "apply_all tz [] f = Some f"
| "apply_all tz ((log, now) # ls) f =
     (case Apply tz now log f of None \<Rightarrow> None | Some (f', _) \<Rightarrow> apply_all tz ls f')"

lemma apply_all_foldl: "fsm_ok f \<Longrightarrow> apply_all tz ls f = Some (foldl (apply_step tz) f ls)"
proof (induction ls arbitrary: f)
  case (Cons l ls)
  obtain log now where l: "l = (log, now)" by force
  obtain f' e gs where "Apply tz now log f = Some (f', e, gs)" "fsm_ok f'"
    using Apply_ok [OF Cons.prems] by blast
  then show ?case using Cons.IH [of f'] by (simp add: l apply_step_def)
qed simp

lemma operation_data: "log_Data a = log_Data b \<Longrightarrow> operation tz a = operation tz b"
  by (simp add: operation_def)

definition entries :: "time_zone \<Rightarrow> (raft_log \<times> time) list \<Rightarrow> applied_entry list" where
  "entries tz ls =
     map (\<lambda>(log, now). entry_of tz now log) (filter (\<lambda>(log, _). operation tz log \<noteq> None) ls)"

lemma history_step:
  "fsm_ok f \<Longrightarrow> f_history (apply_step tz f (log, now)) =
     (if operation tz log = None then f_history f
      else push_history (f_history f) (entry_of tz now log))"
  using Apply_no_operation [of tz log now f] Apply_operation [of f tz log]
  by (auto simp: apply_step_def)

lemma history_run:
  "fsm_ok f \<Longrightarrow> f_history (foldl (apply_step tz) f ls) = foldl push_history (f_history f) (entries tz ls)"
proof (induction ls arbitrary: f)
  case (Cons l ls)
  from Cons.prems have "fsm_ok (apply_step tz f l)" by (rule rsm.inv_step)
  with Cons.IH [OF this] show ?case
    using history_step [OF Cons.prems] by (cases l) (auto simp: entries_def)
qed (simp add: entries_def)

section \<open>Properties\<close>

text \<open>Property C1. On every log, with any bytes in its entries, applying the entries in
  order to a new machine never panics, and the map is the abstract store after the
  operations the entries decode to, in order; entries that decode to nothing count for
  nothing.\<close>

theorem apply_all_refines_kv:
  "\<exists>f. apply_all tz ls NewKVStoreFSM = Some f \<and>
       f_data f = Some (fold (\<lambda>l. kv_exec_opt (operation tz (fst l))) ls Map.empty)"
proof -
  let ?f = "foldl (apply_step tz) NewKVStoreFSM ls"
  have "fsm_ok ?f" by (rule rsm.inv_run) simp
  moreover have "view ?f = fold (\<lambda>l. kv_exec_opt (operation tz (fst l))) ls Map.empty"
    by (subst rsm.view_run) (simp_all add: view_def)
  ultimately show ?thesis
    using apply_all_foldl [of NewKVStoreFSM tz ls] data_is_view [of ?f] by simp
qed

text \<open>Property C2. Two well-formed replicas that hold the same map and apply entries with
  the same data, whatever their clocks, indexes and histories, hold the same map after.\<close>

theorem replicas_converge:
  assumes "fsm_ok f" and "fsm_ok g" and "f_data f = f_data g"
    and "map (\<lambda>l. log_Data (fst l)) ls = map (\<lambda>l. log_Data (fst l)) ks"
  shows "\<exists>f' g'. apply_all tz ls f = Some f' \<and> apply_all tz ks g = Some g' \<and> f_data f' = f_data g'"
proof -
  have "map (\<lambda>l. operation tz (fst l)) ls = map (\<lambda>l. operation tz (fst l)) ks"
    using assms(4)
  proof (induction ls arbitrary: ks)
    case (Cons l ls)
    then obtain k ks' where "ks = k # ks'" by (cases ks) auto
    with Cons operation_data [of "fst l" "fst k"] show ?case by simp
  qed simp
  from rsm.replicas_agree [OF assms(1,2) _ this] assms(3)
  have "view (foldl (apply_step tz) f ls) = view (foldl (apply_step tz) g ks)"
    by (simp add: view_def)
  moreover have "fsm_ok (foldl (apply_step tz) f ls)" "fsm_ok (foldl (apply_step tz) g ks)"
    using assms(1,2) by (simp_all add: rsm.inv_run)
  ultimately have "f_data (foldl (apply_step tz) f ls) = f_data (foldl (apply_step tz) g ks)"
    by (simp add: data_is_view)
  then show ?thesis
    using apply_all_foldl [OF assms(1), of tz ls] apply_all_foldl [OF assms(2), of tz ks] by blast
qed

definition sample_tz :: time_zone where
  "sample_tz = \<lparr>tz_format = (\<lambda>_. ''2024-05-01T10:00:00Z''), tz_parse = (\<lambda>_. Some 5)\<rparr>"

definition sample_set :: command where
  "sample_set = \<lparr>cmd_Op = OpSet, cmd_Key = ''city'', cmd_Value = ''ankara'', cmd_Timestamp = 5,
                 cmd_ClientID = ''node-1''\<rparr>"

definition sample_log :: raft_log where
  "sample_log = \<lparr>log_Index = 7, log_Term = 2, log_Data = marshal_command sample_tz sample_set\<rparr>"

lemma sample_survives [simp]: "time_survives sample_tz 5"
  by (simp add: time_survives_def sample_tz_def)

lemma sample_operation [simp]: "operation sample_tz sample_log = Some (KvSet ''city'' ''ankara'')"
proof -
  have "unmarshal_command sample_tz (log_Data sample_log) = Some sample_set"
    unfolding sample_log_def raft_log.select_convs
    by (rule unmarshal_marshal_command) (simp_all add: sample_set_def OpSet_def)
  then show ?thesis by (simp add: operation_def sample_set_def)
qed

theorem replicas_converge_witness:
  "\<exists>f' g'. apply_all sample_tz [(sample_log, 1)] NewKVStoreFSM = Some f' \<and>
     apply_all sample_tz [(sample_log\<lparr>log_Index := 9\<rparr>, 2)] (RegisterApplyCallback NewKVStoreFSM 3) = Some g' \<and>
     f_data f' = f_data g'"
  by (rule replicas_converge) (simp_all add: RegisterApplyCallback_def fsm_ok_def)

text \<open>Property C18. After any run the history is the newest 100 entries of those that
  carried an operation, in log order, with the index, the term, the decoded command and
  the time of their application.\<close>

theorem history_is_last_100:
  "\<exists>f. apply_all tz ls NewKVStoreFSM = Some f \<and> fsm_GetHistory f = last_n 100 (entries tz ls)"
  using apply_all_foldl [of NewKVStoreFSM tz ls] history_run [of NewKVStoreFSM tz ls]
    fsm_history.foldl_push_Nil [of "entries tz ls"]
  by (simp add: fsm_GetHistory_def)

text \<open>The bytes of a command are a store operation on every replica.\<close>

lemma marshalled_operation:
  assumes "valid_utf8 (cmd_Key c)" and "valid_utf8 (cmd_Value c)" and "valid_utf8 (cmd_ClientID c)"
    and "time_survives tz (cmd_Timestamp c)" and "log_Data log = marshal_command tz c"
  shows "cmd_Op c = OpSet \<Longrightarrow> operation tz log = Some (KvSet (cmd_Key c) (cmd_Value c))"
    and "cmd_Op c = OpDelete \<Longrightarrow> operation tz log = Some (KvDelete (cmd_Key c))"
proof -
  have "unmarshal_command tz (log_Data log) = Some c" if "cmd_Op c \<in> {OpSet, OpDelete}"
    unfolding assms(5) using that assms(1-4)
    by (intro unmarshal_marshal_command) (auto simp: OpSet_def OpDelete_def)
  then show "cmd_Op c = OpSet \<Longrightarrow> operation tz log = Some (KvSet (cmd_Key c) (cmd_Value c))"
    and "cmd_Op c = OpDelete \<Longrightarrow> operation tz log = Some (KvDelete (cmd_Key c))"
    by (simp_all add: operation_def)
qed

lemma Apply_set_effect:
  "fsm_ok f \<Longrightarrow> operation tz log = Some (KvSet k v) \<Longrightarrow>
   \<exists>f' gs. Apply tz now log f = Some (f', None, gs) \<and> fsm_Get f' k = (v, True) \<and>
     (\<forall>k'. k' \<noteq> k \<longrightarrow> fsm_Get f' k' = fsm_Get f k')"
  using Apply_operation [of f tz log "KvSet k v" now] by (auto simp: fsm_Get_def view_def fsm_ok_def)

lemma Apply_delete_effect:
  "fsm_ok f \<Longrightarrow> operation tz log = Some (KvDelete k) \<Longrightarrow>
   \<exists>f' gs. Apply tz now log f = Some (f', None, gs) \<and> fsm_Get f' k = ([], False) \<and>
     (\<forall>k'. k' \<noteq> k \<longrightarrow> fsm_Get f' k' = fsm_Get f k')"
  using Apply_operation [of f tz log "KvDelete k" now] by (auto simp: fsm_Get_def view_def fsm_ok_def)

text \<open>Property C25. A command survives the log whole: the bytes a leader marshals from a SET
  or DELETE with well-formed strings make every replica record the same command - its
  operation, key, value, time stamp and client - under the index and the term of the
  entry, hand that record to every listener, and hold the key with the value, or no more.\<close>

theorem command_survives_log:
  assumes "fsm_ok f" and "cmd_Op c \<in> {OpSet, OpDelete}" and "valid_utf8 (cmd_Key c)" and "valid_utf8 (cmd_Value c)"
    and "valid_utf8 (cmd_ClientID c)" and "time_survives tz (cmd_Timestamp c)"
    and "log_Data log = marshal_command tz c"
    and "entry = \<lparr>ae_Index = log_Index log, ae_Term = log_Term log, ae_Command = c, ae_AppliedAt = now\<rparr>"
  shows "\<exists>f'. Apply tz now log f = Some (f', None, map (\<lambda>cb. GoApply cb entry) (f_callbacks f)) \<and>
     fsm_GetHistory f' = last_n 100 (fsm_GetHistory f @ [entry]) \<and>
     (\<forall>k. fsm_Get f' k = (if k \<noteq> cmd_Key c then fsm_Get f k
                          else if cmd_Op c = OpSet then (cmd_Value c, True) else ([], False)))"
proof -
  have c: "unmarshal_command tz (log_Data log) = Some c"
    unfolding assms(7) using assms(2-6)
    by (intro unmarshal_marshal_command) (auto simp: OpSet_def OpDelete_def)
  then have e: "entry_of tz now log = entry" by (simp add: entry_of_def assms(8))
  have h: "length (f_history f) \<le> 100" using assms(1) by (rule fsm_okE)
  have push: "push_history (f_history f) entry = last_n 100 (f_history f @ [entry])"
    using h by (simp add: push_history_def last_n_def drop_Suc)
  obtain k where k: "operation tz log = Some k"
    and view: "\<And>x. kv_exec k (view f) x = (if x \<noteq> cmd_Key c then view f x
        else if cmd_Op c = OpSet then Some (cmd_Value c) else None)"
    using c assms(2) by (auto simp: operation_def)
  show ?thesis
    unfolding Apply_operation [OF assms(1) k] e push
    using view data_is_view [OF assms(1)] by (auto simp: fsm_Get_def fsm_GetHistory_def)
qed

theorem command_survives_log_witness:
  "\<exists>f'. Apply sample_tz 3 sample_log (RegisterApplyCallback NewKVStoreFSM 4) =
       Some (f', None, [GoApply 4 \<lparr>ae_Index = 7, ae_Term = 2, ae_Command = sample_set, ae_AppliedAt = 3\<rparr>]) \<and>
     fsm_Get f' ''city'' = (''ankara'', True)"
  using command_survives_log [of "RegisterApplyCallback NewKVStoreFSM 4" sample_set sample_tz sample_log
      "\<lparr>ae_Index = 7, ae_Term = 2, ae_Command = sample_set, ae_AppliedAt = 3\<rparr>" 3]
  by (auto simp: sample_set_def sample_log_def OpSet_def RegisterApplyCallback_def fsm_ok_def)

text \<open>Property C6. A snapshot loses nothing and replaces the log prefix it was taken from:
  persist the map after a prefix of the log, restore the written bytes into any machine,
  apply the rest of the log, and the map is the one the whole log gives.  No assumption
  on the strings is needed: what \<open>Apply\<close> stored came through the JSON reader and is
  well-formed.\<close>

theorem snapshot_replaces_prefix:
  assumes "length (f_history g) \<le> 100"
  shows "\<exists>f sink g' gs g'' h.
     apply_all tz ls NewKVStoreFSM = Some f \<and>
     Persist None True (Snapshot f) \<lparr>sink_data = [], sink_closed = False, sink_cancelled = False\<rparr> = (sink, None) \<and>
     sink_closed sink \<and> \<not> sink_cancelled sink \<and>
     Restore (sink_data sink) g = (g', None, gs) \<and> f_data g' = f_data f \<and>
     apply_all tz ks g' = Some g'' \<and> apply_all tz (ls @ ks) NewKVStoreFSM = Some h \<and> f_data g'' = f_data h"
proof -
  let ?f = "foldl (apply_step tz) NewKVStoreFSM ls"
  let ?new = "\<lparr>sink_data = [], sink_closed = False, sink_cancelled = False\<rparr>"
  have ok: "fsm_ok ?f" by (rule rsm.inv_run) simp
  then obtain m where m: "f_data ?f = Some m" "utf8_map m" by (rule fsm_okE)
  obtain sink where sink: "Persist None True (Snapshot ?f) ?new = (sink, None)"
    "sink_closed sink" "\<not> sink_cancelled sink" by (simp add: Persist_def Let_def)
  define g' where "g' = g\<lparr>f_data := Some m\<rparr>"
  obtain gs where restore: "Restore (sink_data sink) g = (g', None, gs)"
    using Restore_Persist [OF m(2,1) _ sink(1)] unfolding g'_def by auto
  have ok': "fsm_ok g'" using m(2) assms by (simp add: g'_def fsm_ok_def)
  have "view (foldl (apply_step tz) g' ks) = view (foldl (apply_step tz) NewKVStoreFSM (ls @ ks))"
    by (rule rsm.catch_up) (use ok' m in \<open>simp_all add: g'_def view_def\<close>)
  moreover have "fsm_ok (foldl (apply_step tz) g' ks)" "fsm_ok (foldl (apply_step tz) NewKVStoreFSM (ls @ ks))"
    using ok' by (intro rsm.inv_run; simp)+
  ultimately have "f_data (foldl (apply_step tz) g' ks) = f_data (foldl (apply_step tz) NewKVStoreFSM (ls @ ks))"
    by (simp add: data_is_view)
  moreover have "f_data g' = f_data ?f" using m(1) by (simp add: g'_def)
  ultimately show ?thesis
    using apply_all_foldl [of NewKVStoreFSM tz ls] apply_all_foldl [OF ok', of tz ks]
      apply_all_foldl [of NewKVStoreFSM tz "ls @ ks"] sink restore by auto
qed

theorem snapshot_replaces_prefix_witness:
  "\<exists>f sink g' gs g'' h.
     apply_all sample_tz [(sample_log, 1)] NewKVStoreFSM = Some f \<and>
     Persist None True (Snapshot f) \<lparr>sink_data = [], sink_closed = False, sink_cancelled = False\<rparr> = (sink, None) \<and>
     sink_closed sink \<and> \<not> sink_cancelled sink \<and>
     Restore (sink_data sink) (RegisterRestoreCallback NewKVStoreFSM 4) = (g', None, gs) \<and> f_data g' = f_data f \<and>
     apply_all sample_tz [(sample_log, 2)] g' = Some g'' \<and>
     apply_all sample_tz ([(sample_log, 1)] @ [(sample_log, 2)]) NewKVStoreFSM = Some h \<and> f_data g'' = f_data h"
  by (rule snapshot_replaces_prefix) (simp add: RegisterRestoreCallback_def)

text \<open>A JSON object a \<open>map[string]string\<close> can hold, and the map it stands for: of several
  members with a name the last one counts, and null is the empty string.\<close>

definition holds_strings :: "(string \<times> json) list \<Rightarrow> bool" where
  "holds_strings ms \<longleftrightarrow> (\<forall>(k, v) \<in> set ms. v = JNull \<or> (\<exists>s. v = JStr s))"

definition strings_of :: "(string \<times> json) list \<Rightarrow> string \<rightharpoonup> string" where
  "strings_of ms = map_option (\<lambda>v. case v of JStr s \<Rightarrow> s | _ \<Rightarrow> []) \<circ> map_of (rev ms)"

lemma holds_strings_simps [simp]:
  "holds_strings []"
  "holds_strings ((k, v) # ms) \<longleftrightarrow> (v = JNull \<or> (\<exists>s. v = JStr s)) \<and> holds_strings ms"
  by (auto simp: holds_strings_def)

lemma strings_of_Cons:
  "m(k \<mapsto> (case v of JStr s \<Rightarrow> s | _ \<Rightarrow> [])) ++ strings_of ms = m ++ strings_of ((k, v) # ms)"
  by (auto simp: strings_of_def map_add_def fun_eq_iff map_of_append split: option.splits)

lemma decode_string_members_spec:
  "decode_string_members ms m = (if holds_strings ms then Some (m ++ strings_of ms) else None)"
proof (induction ms arbitrary: m)
  case Nil
  then show ?case by (simp add: strings_of_def comp_def)
next
  case (Cons x ms)
  obtain k v where x: "x = (k, v)" by (cases x)
  show ?case
    unfolding x using strings_of_Cons [of m k v ms] by (cases v) (simp_all add: Cons.IH del: fun_upd_apply)
qed

text \<open>Property C26. What \<open>Restore\<close> does with a snapshot file, whatever JSON document it holds:
  an object of strings becomes the map, replacing the old one whole; null leaves the
  machine without a map; any other document is refused and changes nothing.  Only a
  restore that succeeds starts the listener, once, with the number of keys.\<close>

theorem Restore_all_or_nothing:
  assumes "wf_json j" and "json_depth j \<le> 10000"
  shows "Restore (json_print j @ [CHR 0x0A]) f =
     (case j of
        JObj ms \<Rightarrow>
          if holds_strings ms
          then (f\<lparr>f_data := Some (strings_of ms)\<rparr>, None,
                case f_restoreCallback f of None \<Rightarrow> [] | Some cb \<Rightarrow> [GoRestore cb (card (fst ` set ms))])
          else (f, Some SnapshotDecodeFailed, [])
      | JNull \<Rightarrow>
          (f\<lparr>f_data := None\<rparr>, None, case f_restoreCallback f of None \<Rightarrow> [] | Some cb \<Rightarrow> [GoRestore cb 0])
      | _ \<Rightarrow> (f, Some SnapshotDecodeFailed, []))"
proof -
  have "json_decode (json_print j @ [CHR 0x0A]) = Some j"
    using assms by (intro json_decode_encode) (simp_all add: max_nesting_def)
  moreover have "dom (strings_of ms) = fst ` set ms" for ms
    by (simp add: strings_of_def dom_map_option_comp dom_map_of_conv_image_fst)
  ultimately show ?thesis
    by (simp add: Restore_def decode_string_map_def decode_string_members_spec map_len_def
        split: json.split option.split)
qed

theorem Restore_all_or_nothing_witness:
  "Restore (json_print (JObj [(''city'', JStr ''ankara''), (''unit'', JNull)]) @ [CHR 0x0A])
       (RegisterRestoreCallback NewKVStoreFSM 4) =
     ((RegisterRestoreCallback NewKVStoreFSM 4)\<lparr>f_data := Some [''unit'' \<mapsto> [], ''city'' \<mapsto> ''ankara'']\<rparr>, None,
      [GoRestore 4 2])"
proof -
  have "strings_of [(''city'', JStr ''ankara''), (''unit'', JNull)] = [''unit'' \<mapsto> [], ''city'' \<mapsto> ''ankara'']"
    by (auto simp: strings_of_def fun_eq_iff)
  then show ?thesis
    using Restore_all_or_nothing [of "JObj [(''city'', JStr ''ankara''), (''unit'', JNull)]"
        "RegisterRestoreCallback NewKVStoreFSM 4"]
    by (simp add: holds_strings_def RegisterRestoreCallback_def)
qed

text \<open>Property C27. A snapshot file that holds \<open>null\<close> is accepted without an error and
  leaves the map nil; the next SET entry of the log then panics with a write to a nil
  map.\<close>

theorem restore_null_then_set_panics:
  assumes "operation tz log = Some (KvSet k v)"
  shows "\<exists>f' gs. Restore ''null'' f = (f', None, gs) \<and> f_data f' = None \<and> Apply tz now log f' = None"
proof -
  have "json_first (json_print JNull @ []) = Some (JNull, [])"
    by (rule json_first_print) simp_all
  then have "json_decode ''null'' = Some JNull" by (simp add: json_decode_def)
  then have "\<exists>f' gs. Restore ''null'' f = (f', None, gs) \<and> f_data f' = None"
    by (simp add: Restore_def decode_string_map_def)
  then obtain f' gs where "Restore ''null'' f = (f', None, gs)" "f_data f' = None" by blast
  moreover have "Apply tz now log f' = None"
    using assms \<open>f_data f' = None\<close>
    by (auto simp: operation_def Apply_def Let_def split: option.splits if_splits)
  ultimately show ?thesis by blast
qed

theorem restore_null_then_set_panics_witness:
  "\<exists>f' gs. Restore ''null'' NewKVStoreFSM = (f', None, gs) \<and> f_data f' = None \<and>
     Apply sample_tz 3 sample_log f' = None"
  by (rule restore_null_then_set_panics) (rule sample_operation)

end
