(* ===== verification/Raft_Node_Theorems.thy ===== *)
theory Raft_Node_Theorems imports Raft_Node_Props Kv_Fsm_Theorems begin

text \<open>
  The properties of \<open>node.go\<close> and \<open>election.go\<close>: how a node starts, which terms it
  announces when no two calls of \<open>noteTerm\<close> overlap, what the cluster state says about leaders
  and votes, what a proposal does, and the address inference.
\<close>

section \<open>Starting\<close>

definition startup_failure :: "startup \<Rightarrow> node_config \<Rightarrow> bool" where
  "startup_failure su cfg \<longleftrightarrow>
     c_NodeID cfg = [] \<or> c_RaftAddr cfg = [] \<or> c_HTTPAddr cfg = [] \<or>
     su_MkdirAll su (c_DataDir (with_DataDir cfg)) \<noteq> None \<or>
     su_ResolveTCPAddr su (c_RaftAddr cfg) \<noteq> None \<or> su_NewTCPTransport su (c_RaftAddr cfg) \<noteq> None \<or>
     su_NewBoltStore su (path_join [c_DataDir (with_DataDir cfg), ''raft.db'']) \<noteq> None \<or>
     su_NewFileSnapshotStore su (c_DataDir (with_DataDir cfg)) \<noteq> None \<or>
     (c_Bootstrap cfg \<and>
       (isl (su_HasExistingState su) \<or>
        su_HasExistingState su = Inr False \<and> su_BootstrapCluster su (bootstrap_servers cfg) \<noteq> None)) \<or>
     su_NewRaft su \<noteq> None"

lemma with_DataDir_sel [simp]:
  "c_NodeID (with_DataDir cfg) = c_NodeID cfg" "c_RaftAddr (with_DataDir cfg) = c_RaftAddr cfg"
  "c_HTTPAddr (with_DataDir cfg) = c_HTTPAddr cfg" "c_Bootstrap (with_DataDir cfg) = c_Bootstrap cfg"
  "bootstrap_servers (with_DataDir cfg) = bootstrap_servers cfg"
  by (simp_all add: with_DataDir_def bootstrap_servers_def)

lemma bootstrap_cases:
  "bootstrap su (with_DataDir cfg) =
     (if \<not> c_Bootstrap cfg \<or> su_HasExistingState su = Inr True then Inr None
      else case su_HasExistingState su of
             Inl err \<Rightarrow> Inl (''failed to check existing state: '' @ err)
           | Inr _ \<Rightarrow> (case su_BootstrapCluster su (bootstrap_servers cfg) of
                       Some err \<Rightarrow> Inl (''failed to bootstrap cluster: '' @ err)
                     | None \<Rightarrow> Inr (Some (bootstrap_servers cfg))))"
  by (auto simp: bootstrap_def split: sum.splits bool.splits option.splits)

lemma NewNode_Inr:
  assumes "NewNode su cfg = Inr (n, boot, gs)"
  shows "n = fst (start_raft su (initial_node (with_DataDir cfg) (su_clock su)))"
    and "gs = snd (start_raft su (initial_node (with_DataDir cfg) (su_clock su)))"
    and "boot = (if c_Bootstrap cfg \<and> su_HasExistingState su = Inr False then Some (bootstrap_servers cfg) else None)"
    and "\<not> startup_failure su cfg"
  using assms
  by (auto simp: NewNode_def bootstrap_cases startup_failure_def Let_def
      split: if_splits option.splits sum.splits prod.splits)


lemma run_fsm_go_cfg [simp]:
  "n_cfg (run_fsm_go e g n) = n_cfg n" "n_fsm (run_fsm_go e g n) = n_fsm n"
  "n_knownPeers (run_fsm_go e g n) = n_knownPeers n" "n_peerHTTPAddrs (run_fsm_go e g n) = n_peerHTTPAddrs n"
  by (cases g; simp add: on_applied_def on_config_applied_def on_restored_def Let_def)+

lemma start_raft_cfg [simp]:
  "n_cfg (fst (start_raft su n)) = n_cfg n" "n_knownPeers (fst (start_raft su n)) = n_knownPeers n"
  "n_peerHTTPAddrs (fst (start_raft su n)) = n_peerHTTPAddrs n"
proof -
  have "n_cfg (fold (run_fsm_go e) gs m) = n_cfg m \<and> n_knownPeers (fold (run_fsm_go e) gs m) = n_knownPeers m \<and>
      n_peerHTTPAddrs (fold (run_fsm_go e) gs m) = n_peerHTTPAddrs m" for e gs m
    by (induction gs arbitrary: m) simp_all
  then show "n_cfg (fst (start_raft su n)) = n_cfg n" "n_knownPeers (fst (start_raft su n)) = n_knownPeers n"
    "n_peerHTTPAddrs (fst (start_raft su n)) = n_peerHTTPAddrs n"
    by (simp_all add: start_raft_def Let_def split: option.split)
qed


definition restored_event :: "string \<Rightarrow> u64 \<Rightarrow> nat \<Rightarrow> event" where
  "restored_event self w keys =
     mk_event EventFSMRestored self w (''FSM restored from snapshot: '' @ itoa keys @ '' key(s) recovered'')
       (VMap [(''keys'', VInt (int keys))])"

lemma restored_event_class [simp]:
  "is_lifecycle (restored_event i w k)" "unstamped (restored_event i w k) = restored_event i w k"
  by (simp_all add: restored_event_def)





text \<open>A configuration the engine hands over before \<open>node.raft\<close> is assigned panics, when its
  listener runs that early: it reads the term from a nil engine.\<close>

theorem early_configuration_panics:
  assumes "su_calls su = [CallConfiguration index config]" and "su_early su = {0}"
    and "NewNode su cfg = Inr (n, boot, gs)"
  shows "n_crashed n"
proof -
  have "StoreConfiguration index config new_fsm = [GoConfig 0 \<lparr>ce_Index = index,
      ce_Servers = map (\<lambda>s. \<lparr>sv_ID = rs_ID s, sv_Address = rs_Address s, sv_Voter = (rs_Suffrage s = Voter)\<rparr>) config\<rparr>]"
    by (simp add: StoreConfiguration_def applyConfigurationFromLog_def new_fsm_def RegisterApplyCallback_def
        RegisterApplyConfigCallback_def RegisterRestoreCallback_def NewKVStoreFSM_def Let_def)
  then show ?thesis
    using assms(1,2) unfolding NewNode_Inr(1) [OF assms(3)]
    by (simp add: start_raft_def initial_node_def on_config_applied_def nths_Cons)
qed

section \<open>Terms\<close>

text \<open>The terms of a sequence that are above all before them.\<close>

fun new_highs :: "u64 \<Rightarrow> u64 list \<Rightarrow> u64 list" where
  "new_highs m [] = []"
| "new_highs m (w # ws) = (if m < w then w # new_highs w ws else new_highs m ws)"

lemma new_highs_increasing: "sorted_wrt (<) (m # new_highs m ws)"
proof (induction ws arbitrary: m)
  case (Cons w ws)
  from Cons [of w] Cons [of m] show ?case by (auto intro: less_trans)
qed simp

lemma last_new_highs: "last (m # new_highs m ws) = fold max ws m"
proof (induction ws arbitrary: m)
  case (Cons w ws)
  from Cons [of w] Cons [of m] show ?case by (auto simp: max_def split: if_splits)
qed simp

definition term_event :: "string \<Rightarrow> u64 \<Rightarrow> event" where
  "term_event self term =
     mk_event EventTermChanged self term
       (''Node '' @ self @ '' observed Raft term '' @ itoa_u64 term) (VMap [(''term'', VU64 term)])"

lemma noteTerm_broadcast:
  "noteTerm w n = (if n_lastTerm n < w then broadcast (term_event (node_ID n) w) (n\<lparr>n_lastTerm := w\<rparr>) else n)"
  by (auto simp: noteTerm_cases term_event_def word_gt_0 not_le [symmetric])

lemma unstamped_term_event [simp]:
  "unstamped (term_event i w) = term_event i w" "is_lifecycle (term_event i w)"
  by (simp_all add: term_event_def)

lemma journal_noteTerm:
  "node_ok n \<Longrightarrow> journal_of (noteTerm w n) =
     (if n_lastTerm n < w then last_n maxHistory (journal_of n @ [term_event (node_ID n) w])
      else journal_of n)"
  by (simp add: noteTerm_broadcast node_sink.journal_emit)

lemma fold_noteTerm_broadcasts:
  "fold noteTerm ws n =
     (emit_all broadcast (map (term_event (node_ID n)) (new_highs (n_lastTerm n) ws)) n)\<lparr>n_lastTerm := fold max ws (n_lastTerm n)\<rparr>"
proof (induction ws arbitrary: n)
  case Nil
  then show ?case by simp
next
  case (Cons w ws)
  have b: "broadcast e (n\<lparr>n_lastTerm := a\<rparr>) = (broadcast e n)\<lparr>n_lastTerm := a\<rparr>" for e n a
    by (simp add: broadcast_def)
  have swap: "(emit_all broadcast es (n\<lparr>n_lastTerm := a\<rparr>))\<lparr>n_lastTerm := b\<rparr> =
      (emit_all broadcast es n)\<lparr>n_lastTerm := b\<rparr>" for es n a b
    by (induction es arbitrary: n) (simp_all add: b)
  show ?case
  proof (cases "n_lastTerm n < w")
    case True
    then have "noteTerm w n = (broadcast (term_event (node_ID n) w) n)\<lparr>n_lastTerm := w\<rparr>"
      by (simp add: noteTerm_broadcast b)
    then show ?thesis using True swap by (simp add: Cons max_absorb1)
  next
    case False
    then have "noteTerm w n = n" "max w (n_lastTerm n) = n_lastTerm n" by (simp_all add: noteTerm_broadcast)
    then show ?thesis using False by (simp add: Cons)
  qed
qed

text \<open>When the calls do not overlap, the announced terms are strictly increasing, and the
  node ends with the highest term it has heard of.\<close>

theorem terms_in_order:
  assumes "node_ok n"
  shows "\<exists>ts. sorted_wrt (<) (n_lastTerm n # ts) \<and> set ts \<subseteq> set ws \<and>
     map unstamped (GetHistory (n_hub (fold noteTerm ws n))) =
       last_n 50 (map unstamped (GetHistory (n_hub n)) @ map (term_event (node_ID n)) ts) \<and>
     n_lastTerm (fold noteTerm ws n) = fold max ws (n_lastTerm n) \<and>
     last (n_lastTerm n # ts) = fold max ws (n_lastTerm n)"
proof (intro exI conjI)
  let ?ts = "new_highs (n_lastTerm n) ws"
  show "sorted_wrt (<) (n_lastTerm n # ?ts)" by (rule new_highs_increasing)
  have "set (new_highs m ws) \<subseteq> set ws" for m by (induction ws arbitrary: m) (auto split: if_splits)
  then show "set ?ts \<subseteq> set ws" .
  have "journal_of (fold noteTerm ws n) = last_n maxHistory (journal_of n @ map (term_event (node_ID n)) ?ts)"
    using node_sink.journal_emit_all [OF assms, of "map (term_event (node_ID n)) ?ts"]
    by (simp add: fold_noteTerm_broadcasts filter_map comp_def filter_True)
  then show "map unstamped (GetHistory (n_hub (fold noteTerm ws n))) =
      last_n 50 (map unstamped (GetHistory (n_hub n)) @ map (term_event (node_ID n)) ?ts)"
    by (simp add: journal_of_def announced_def GetHistory_def maxHistory_def)
  show "n_lastTerm (fold noteTerm ws n) = fold max ws (n_lastTerm n)"
    by (simp add: fold_noteTerm_broadcasts)
  show "last (n_lastTerm n # ?ts) = fold max ws (n_lastTerm n)" by (rule last_new_highs)
qed

definition sample_config :: node_config where
  "sample_config = \<lparr>c_NodeID = ''node-1'', c_RaftAddr = ''127.0.0.1:7001'', c_HTTPAddr = ''127.0.0.1:8001'',
     c_DataDir = [], c_Bootstrap = True, c_JoinAddr = []\<rparr>"

definition sample_node :: node where
  "sample_node = (initial_node sample_config (\<lambda>_. 1))\<lparr>n_raft := True\<rparr>"

lemma sample_node_ok [simp]: "node_ok sample_node"
  by (simp add: sample_node_def node_ok_initial)

section \<open>The cluster state\<close>

lemma peer_of_sel [simp]:
  "pi_ID (peer_of li la st n s) = rs_ID s" "pi_RaftAddr (peer_of li la st n s) = rs_Address s"
  "pi_HTTPAddr (peer_of li la st n s) = httpAddrFor (rs_ID s) (rs_Address s) n"
  "pi_IsLeader (peer_of li la st n s) \<longleftrightarrow> rs_ID s = li \<or> li = [] \<and> rs_Address s = la"
  "pi_IsSelf (peer_of li la st n s) \<longleftrightarrow> rs_ID s = node_ID n"
  "pi_Role (peer_of li la st n s) = ''Leader'' \<longleftrightarrow> rs_ID s = li \<or> li = [] \<and> rs_Address s = la"
  by (simp_all add: peer_of_def Let_def)

lemma GetState_sel [simp]:
  "cs_SelfID (GetState e n) = node_ID n" "cs_LeaderID (GetState e n) = rd_LeaderID (e 0)"
  "cs_LeaderRaftAddr (GetState e n) = rd_LeaderAddr (e 0)"
  "cs_LeaderHTTPAddr (GetState e n) = httpAddrFor (rd_LeaderID (e 0)) (rd_LeaderAddr (e 0)) n"
  "cs_CurrentTerm (GetState e n) = rd_CurrentTerm (e 2)"
  "cs_VotedFor (GetState e n) = votedForFromStore (later 8 e) n"
  "cs_KVData (GetState e n) = fsm_GetAll (n_fsm n)"
  "cs_ActiveClients (GetState e n) = SubscriberCount (n_hub n)"
  "cs_Peers (GetState e n) = map (peer_of (rd_LeaderID (e 0)) (rd_LeaderAddr (e 0)) (rd_State (e 1)) n)
     (case rd_Configuration (e 3) of Some ss \<Rightarrow> ss | None \<Rightarrow> [])"
  by (simp_all add: GetState_def Let_def)

lemma filter_unique:
  "distinct (map f xs) \<Longrightarrow> length (filter (\<lambda>x. f x = a) xs) = (if a \<in> f ` set xs then 1 else 0)"
  by (induction xs) auto

text \<open>The server the engine's answer points at: by its ID when there is one, else by its address.\<close>

definition is_leader_of :: "engine \<Rightarrow> raft_server \<Rightarrow> bool" where
  "is_leader_of e r \<longleftrightarrow>
     (if rd_LeaderID (e 0) \<noteq> [] then rs_ID r = rd_LeaderID (e 0) else rs_Address r = rd_LeaderAddr (e 0))"

text \<open>A configuration as the engine accepts it: no empty ID, no ID and no address twice.\<close>

definition valid_configuration :: "raft_server list \<Rightarrow> bool" where
  "valid_configuration servers \<longleftrightarrow>
     distinct (map rs_ID servers) \<and> distinct (map rs_Address servers) \<and> [] \<notin> rs_ID ` set servers"

lemma filter_leader:
  assumes "valid_configuration servers"
  shows "length (filter (is_leader_of e) servers) = (if \<exists>r \<in> set servers. is_leader_of e r then 1 else 0)"
proof -
  have "length (filter (is_leader_of e) servers) =
      (if rd_LeaderID (e 0) \<noteq> [] then (if rd_LeaderID (e 0) \<in> rs_ID ` set servers then 1 else 0)
       else (if rd_LeaderAddr (e 0) \<in> rs_Address ` set servers then 1 else 0))"
    using assms filter_unique [of rs_ID servers] filter_unique [of rs_Address servers]
    by (simp add: is_leader_of_def [abs_def] valid_configuration_def)
  moreover have "(if rd_LeaderID (e 0) \<noteq> [] then rd_LeaderID (e 0) \<in> rs_ID ` set servers
      else rd_LeaderAddr (e 0) \<in> rs_Address ` set servers) = (\<exists>r \<in> set servers. is_leader_of e r)"
    by (force simp: is_leader_of_def)
  ultimately show ?thesis by (simp split: if_splits)
qed

text \<open>Property C30. The cluster state lists the servers of the configuration in order, with
  the addresses and the health the node believes in, and this node marked.  At most one of
  them is marked as the leader: the one with the ID the engine names, or, when the engine
  knows only an address, the one at that address; its role says so, a candidate is only
  ever this node, and every other server is a follower.\<close>

theorem state_has_one_leader:
  fixes n :: node
  assumes "rd_Configuration (e 3) = Some servers" and "valid_configuration servers"
  defines "s \<equiv> GetState e n"
  shows "map (\<lambda>p. (pi_ID p, pi_RaftAddr p)) (cs_Peers s) = map (\<lambda>r. (rs_ID r, rs_Address r)) servers \<and>
     map pi_IsLeader (cs_Peers s) = map (is_leader_of e) servers \<and>
     length (filter pi_IsLeader (cs_Peers s)) = (if \<exists>r \<in> set servers. is_leader_of e r then 1 else 0) \<and>
     length (filter pi_IsSelf (cs_Peers s)) = (if node_ID n \<in> rs_ID ` set servers then 1 else 0) \<and>
     (\<forall>p \<in> set (cs_Peers s).
        pi_Role p = (if pi_IsLeader p then ''Leader''
                     else if pi_ID p = node_ID n \<and> rd_State (e 1) = Candidate then ''Candidate'' else ''Follower'') \<and>
        pi_HTTPAddr p = GetPeerHTTP (pi_ID p) (pi_RaftAddr p) n \<and>
        pi_Healthy p = (n_peerHealth n (pi_ID p) \<noteq> Some False))"
proof -
  have healthy: "pi_Healthy (peer_of li la st n r) = (n_peerHealth n (rs_ID r) \<noteq> Some False)" for li la st r
    by (simp add: peer_of_def Let_def split: option.split)
  have role: "pi_Role (peer_of li la st n r) = (if rs_ID r = li \<or> li = [] \<and> rs_Address r = la then ''Leader''
      else if rs_ID r = node_ID n \<and> st = Candidate then ''Candidate'' else ''Follower'')" for li la st r
    by (simp add: peer_of_def Let_def)
  have leader: "(rs_ID r = rd_LeaderID (e 0) \<or> rd_LeaderID (e 0) = [] \<and> rs_Address r = rd_LeaderAddr (e 0)) =
      is_leader_of e r" if "r \<in> set servers" for r
    using assms(2) imageI [OF that, of rs_ID] by (auto simp: is_leader_of_def valid_configuration_def)
  have "distinct (map rs_ID servers)" using assms(2) by (simp add: valid_configuration_def)
  moreover have "filter (\<lambda>r. rs_ID r = rd_LeaderID (e 0) \<or> rd_LeaderID (e 0) = [] \<and> rs_Address r = rd_LeaderAddr (e 0)) servers =
      filter (is_leader_of e) servers"
    by (rule filter_cong [OF refl leader])
  ultimately show ?thesis
    using assms(1) filter_unique [of rs_ID servers] filter_leader [OF assms(2), of e] leader
    by (auto simp: s_def GetPeerHTTP_def healthy role filter_map comp_def)
qed

definition sample_reading :: reading where
  "sample_reading = \<lparr>rd_State = Leader, rd_LeaderAddr = ''127.0.0.1:7001'', rd_LeaderID = ''node-1'',
     rd_CurrentTerm = 3,
     rd_Configuration = Some [\<lparr>rs_ID = ''node-1'', rs_Address = ''127.0.0.1:7001'', rs_Suffrage = Voter\<rparr>,
                              \<lparr>rs_ID = ''node-2'', rs_Address = ''127.0.0.1:7002'', rs_Suffrage = Voter\<rparr>],
     rd_LastContact = 0, rd_CommitIndex = 5, rd_LastIndex = 5, rd_AppliedIndex = 5, rd_Stats = Map.empty,
     rd_StoreLastIndex = None, rd_StoreGetLog = (\<lambda>_. None), rd_StoreGet = (\<lambda>_. None), rd_Now = 5,
     rd_Order = [''node-1'']\<rparr>"

lemma sample_sel [simp]:
  "rd_State sample_reading = Leader" "rd_Now sample_reading = 5" "GetHistory (n_hub sample_node) = []"
  "node_ID sample_node = ''node-1''"
  by (simp_all add: sample_reading_def sample_node_def initial_node_def GetHistory_def NewHub_def
      node_ID_def sample_config_def)



theorem state_has_one_leader_witness:
  "map pi_IsLeader (cs_Peers (GetState (\<lambda>_. sample_reading\<lparr>rd_LeaderID := []\<rparr>) sample_node)) = [True, False]"
  using state_has_one_leader [of "\<lambda>_. sample_reading\<lparr>rd_LeaderID := []\<rparr>" "the (rd_Configuration sample_reading)" sample_node]
  by (simp add: sample_reading_def valid_configuration_def is_leader_of_def)

section \<open>Votes\<close>

text \<open>The bytes \<open>binary.BigEndian.PutUint64\<close> writes.\<close>

fun be_bytes :: "nat \<Rightarrow> nat \<Rightarrow> string" where
  "be_bytes 0 m = []"
| "be_bytes (Suc k) m = be_bytes k (m div 256) @ [char_of (m mod 256)]"

definition big_endian_bytes :: "u64 \<Rightarrow> string" where
  "big_endian_bytes w = be_bytes 8 (unat w)"

lemma length_be_bytes [simp]: "length (be_bytes k m) = k"
  by (induction k m rule: be_bytes.induct) simp_all

lemma big_endian_bytes_length [simp]: "length (big_endian_bytes w) = 8"
  by (simp add: big_endian_bytes_def)

lemma foldl_be_bytes:
  "foldl (\<lambda>a c. 256 * a + of_nat (of_char c)) 0 (be_bytes k m) = (of_nat (m mod 256 ^ k) :: u64)"
proof (induction k m rule: be_bytes.induct)
  case (2 k m)
  have "m mod 256 ^ Suc k = 256 * (m div 256 mod 256 ^ k) + m mod 256"
    by (simp add: mod_mult2_eq)
  then show ?case by (simp only: be_bytes.simps foldl_append foldl.simps 2) (simp add: of_char_of)
qed simp

lemma big_endian_roundtrip: "big_endian64 (big_endian_bytes w) = w"
proof -
  have "unat w < 256 ^ 8" using unsigned_less [where ?'a = nat, of w] by simp
  then show ?thesis by (simp add: big_endian64_def big_endian_bytes_def foldl_be_bytes)
qed

lemma find_unique:
  assumes "find P xs = Some y"
  shows "P y \<and> y \<in> set xs"
  using assms by (auto simp: find_Some_iff)

lemma digits_unique:
  "length bs = k \<Longrightarrow> m = foldl (\<lambda>a c. 256 * a + of_char c) 0 bs \<Longrightarrow> be_bytes k m = bs \<and> m < 256 ^ k"
proof (induction k arbitrary: bs m)
  case (Suc k)
  then obtain cs c where bs: "bs = cs @ [c]" "length cs = k" by (metis length_Suc_conv_rev)
  let ?q = "foldl (\<lambda>a c. 256 * a + of_char c) 0 cs :: nat"
  have c: "of_char c < (256 :: nat)" by simp
  have "m = 256 * ?q + of_char c" using Suc.prems(2) bs(1) by simp
  then have "m div 256 = ?q" "m mod 256 = of_char c" "m < 256 * (?q + 1)" using c by simp_all
  moreover have "be_bytes k ?q = cs" "?q < 256 ^ k" using Suc.IH [OF bs(2) refl] by simp_all
  ultimately show ?case using bs(1) by simp
qed simp

lemma foldl_digits: "foldl (\<lambda>a c. 256 * a + of_nat (of_char c)) 0 bs =
  (of_nat (foldl (\<lambda>a c. 256 * a + of_char c) 0 bs) :: u64)"
  by (induction bs rule: rev_induct) simp_all

lemma big_endian_unique:
  assumes "length bs = 8"
  shows "big_endian64 bs = w \<longleftrightarrow> bs = big_endian_bytes w"
proof
  assume w: "big_endian64 bs = w"
  let ?m = "foldl (\<lambda>a c. 256 * a + of_char c) 0 bs :: nat"
  have m: "be_bytes 8 ?m = bs" "?m < 256 ^ 8" using digits_unique [OF assms refl] by simp_all
  have "w = of_nat ?m" using w by (simp add: big_endian64_def foldl_digits)
  then have "unat w = ?m" using m(2) by (simp add: unat_of_nat take_bit_nat_eq_self)
  then show "bs = big_endian_bytes w" using m(1) by (simp add: big_endian_bytes_def)
qed (simp add: big_endian_roundtrip)

text \<open>The peer with a Raft address, or the address itself when no known peer has it.\<close>

definition names_peer :: "node \<Rightarrow> string \<Rightarrow> string \<Rightarrow> bool" where
  "names_peer n addr v \<longleftrightarrow> (if addr \<in> ran (n_knownPeers n) then n_knownPeers n v = Some addr else v = addr)"

lemma nodeIDForRaftAddr_names:
  assumes "map_order ks (n_knownPeers n)"
  shows "names_peer n addr (nodeIDForRaftAddr ks addr n)"
proof -
  have "find (\<lambda>k. n_knownPeers n k = Some addr) ks = None \<longleftrightarrow> addr \<notin> ran (n_knownPeers n)"
    using map_order_set [OF assms] by (auto simp: find_None_iff ran_def)
  then show ?thesis
    by (auto simp: names_peer_def nodeIDForRaftAddr_def dest: find_unique split: option.split)
qed

text \<open>Property C31. The vote the node reports is the vote the stable store holds for the
  current term, and nothing else: if the store holds the eight bytes of the current term
  and a candidate, the vote is the known peer at the candidate's address, or that
  address when no known peer has it; if the term is missing or cannot be read, has another
  length or is of another term, or the candidate is missing or empty, no vote is reported.\<close>

theorem vote_of_current_term:
  assumes "map_order (rd_Order (e 3)) (n_knownPeers n)"
  defines "v \<equiv> votedForFromStore e n"
  shows "case (rd_StoreGet (e 0) ''LastVoteTerm'', rd_StoreGet (e 2) ''LastVoteCand'') of
       (Some t, Some (c # cs)) \<Rightarrow>
         if t = big_endian_bytes (rd_CurrentTerm (e 1)) then names_peer n (c # cs) v else v = []
     | _ \<Rightarrow> v = []"
  using nodeIDForRaftAddr_names [OF assms(1)] big_endian_unique
  by (auto simp: v_def votedForFromStore_def split: option.split list.split)

definition voted_reading :: reading where
  "voted_reading = sample_reading\<lparr>rd_StoreGet := (\<lambda>k. if k = ''LastVoteTerm'' then Some (big_endian_bytes 3)
     else Some ''127.0.0.1:7001'')\<rparr>"

theorem vote_of_current_term_witness:
  "n_knownPeers sample_node (votedForFromStore (\<lambda>_. voted_reading) sample_node) = Some ''127.0.0.1:7001''"
  using vote_of_current_term [of "\<lambda>_. voted_reading" sample_node]
  by (simp add: voted_reading_def sample_reading_def sample_node_def initial_node_def map_order_def
      sample_config_def names_peer_def)

section \<open>Proposals\<close>

lemma ApplyKV_cases:
  "ApplyKV tz e apply op key val n =
     (if rd_State (e 0) \<noteq> Leader
      then (n, Some (''not the leader (current leader: '' @ rd_LeaderAddr (e 1) @ '')''))
      else case apply (marshal_command tz (new_command op key val (rd_Now (e 1)) n)) of
             Inl err \<Rightarrow> (n, Some (''failed to apply command to raft: '' @ err))
           | Inr index \<Rightarrow>
               (broadcast (replicated_event op key val index (rd_CurrentTerm (e 2)) (rd_CurrentTerm (e 3)) n) n, None))"
  by (simp add: ApplyKV_def Let_def)

lemma replicated_event_class [simp]:
  "is_lifecycle (replicated_event op key val i t t' n)"
  "unstamped (replicated_event op key val i t t' n) = replicated_event op key val i t t' n"
  by (simp_all add: replicated_event_def)

text \<open>Property C32. A proposal succeeds exactly when this node is the leader and the engine
  commits the entry; a failed one changes nothing at this node, and a successful one
  changes nothing but announces the replication, with the index the engine gave.\<close>

theorem proposal_outcomes:
  assumes "node_ok n" and "ApplyKV tz e apply op key val n = (n', r)"
  defines "outcome \<equiv> apply (marshal_command tz (new_command op key val (rd_Now (e 1)) n))"
  shows "(r = None) = (rd_State (e 0) = Leader \<and> \<not> isl outcome) \<and>
     (if r \<noteq> None then n' = n
      else \<exists>index. outcome = Inr index \<and> n'\<lparr>n_hub := n_hub n\<rparr> = n \<and>
        map unstamped (GetHistory (n_hub n')) = last_n 50 (map unstamped (GetHistory (n_hub n)) @
          [replicated_event op key val index (rd_CurrentTerm (e 2)) (rd_CurrentTerm (e 3)) n]))"
proof -
  have "map unstamped (GetHistory (n_hub (broadcast ev n))) = last_n 50 (map unstamped (GetHistory (n_hub n)) @ [ev])"
    if "is_lifecycle ev" "unstamped ev = ev" for ev
    using node_sink.journal_emit [OF assms(1), of ev] that
    by (simp add: journal_of_def announced_def GetHistory_def maxHistory_def)
  then show ?thesis
    using assms(2) by (auto simp: outcome_def ApplyKV_cases broadcast_def split: if_splits sum.splits)
qed

theorem proposal_outcomes_witness:
  "\<exists>n'. ApplyKV sample_tz (\<lambda>_. sample_reading) (\<lambda>_. Inr 9) OpSet ''city'' ''ankara'' sample_node = (n', None) \<and>
     (\<exists>ev. map unstamped (GetHistory (n_hub n')) = [ev])"
proof -
  obtain n' r where a: "ApplyKV sample_tz (\<lambda>_. sample_reading) (\<lambda>_. Inr 9) OpSet ''city'' ''ankara'' sample_node
      = (n', r)" by fastforce
  from proposal_outcomes [OF sample_node_ok a] a show ?thesis by auto
qed

text \<open>What a successful write gave the engine takes effect on every replica: any
  well-formed machine that applies an entry with those bytes, at any index and time,
  performs the write and is otherwise unchanged.\<close>

lemma accepted_set_effect:
  assumes "ApplyKV tz e apply OpSet key val n = (n', None)"
    and "valid_utf8 key" and "valid_utf8 val" and "valid_utf8 (node_ID n)" and "time_survives tz (rd_Now (e 1))"
  shows "\<exists>data index. apply data = Inr index \<and>
     (\<forall>f now log. fsm_ok f \<and> log_Data log = data \<longrightarrow>
        (\<exists>f' gs. Apply tz now log f = Some (f', None, gs) \<and> fsm_Get f' key = (val, True) \<and>
           (\<forall>k. k \<noteq> key \<longrightarrow> fsm_Get f' k = fsm_Get f k)))"
proof -
  let ?c = "new_command OpSet key val (rd_Now (e 1)) n"
  obtain index where "apply (marshal_command tz ?c) = Inr index"
    using assms(1) by (auto simp: ApplyKV_cases split: if_splits sum.splits)
  moreover have "operation tz log = Some (KvSet key val)" if "log_Data log = marshal_command tz ?c" for log
    using marshalled_operation(1) [of ?c tz log] that assms(2-5) by (simp add: new_command_def)
  ultimately show ?thesis using Apply_set_effect by blast
qed

lemma accepted_delete_effect:
  assumes "ApplyKV tz e apply OpDelete key [] n = (n', None)"
    and "valid_utf8 key" and "valid_utf8 (node_ID n)" and "time_survives tz (rd_Now (e 1))"
  shows "\<exists>data index. apply data = Inr index \<and>
     (\<forall>f now log. fsm_ok f \<and> log_Data log = data \<longrightarrow>
        (\<exists>f' gs. Apply tz now log f = Some (f', None, gs) \<and> fsm_Get f' key = ([], False) \<and>
           (\<forall>k. k \<noteq> key \<longrightarrow> fsm_Get f' k = fsm_Get f k)))"
proof -
  let ?c = "new_command OpDelete key [] (rd_Now (e 1)) n"
  obtain index where "apply (marshal_command tz ?c) = Inr index"
    using assms(1) by (auto simp: ApplyKV_cases split: if_splits sum.splits)
  moreover have "operation tz log = Some (KvDelete key)" if "log_Data log = marshal_command tz ?c" for log
    using marshalled_operation(2) [of ?c tz log] that assms(2-4) by (simp add: new_command_def)
  ultimately show ?thesis using Apply_delete_effect by blast
qed

section \<open>Membership requests\<close>

text \<open>Only a leader changes the membership, and it reports what its engine
  says: on success of a removal the health of the server is forgotten and nothing else
  changes; adding a voter makes its HTTP address, when it gave one, the address this node
  uses for it, and this even when the engine refuses the voter.\<close>

theorem membership_requests:
  "(snd (RemoveServer e remove i n) = None) = (rd_State (e 0) = Leader \<and> remove i = None) \<and>
   fst (RemoveServer e remove i n) =
     (if snd (RemoveServer e remove i n) = None then n\<lparr>n_peerHealth := (n_peerHealth n)(i := None)\<rparr> else n) \<and>
   (snd (AddVoter e add i ra ha n) = None) = (rd_State (e 0) = Leader \<and> add i ra = None) \<and>
   GetPeerHTTP j rb (fst (AddVoter e add i ra ha n)) =
     (if rd_State (e 0) = Leader \<and> j = i \<and> ha \<noteq> [] then ha else GetPeerHTTP j rb n)"
  by (auto simp: RemoveServer_def AddVoter_def RegisterPeerHTTP_def GetPeerHTTP_def httpAddrFor_def Let_def
      split: option.splits)

section \<open>Address inference\<close>

text \<open>Without a registered HTTP address the node infers one: the same host and
  the Raft port plus 1000, for every plain host and every port.  Two Raft addresses never
  share an inferred address, and an unparsable one infers none.\<close>

theorem inferred_address:
  assumes "plain_host h" and "p + 1000 < 2 ^ 63" and "plain_host h'" and "q + 1000 < 2 ^ 63"
    and "SplitHostPort bad = None"
  shows "inferHTTPAddrFromRaft (host_port h (itoa p)) = host_port h (itoa (p + 1000)) \<and>
     (inferHTTPAddrFromRaft (host_port h (itoa p)) = inferHTTPAddrFromRaft (host_port h' (itoa q))) =
       (h = h' \<and> p = q) \<and>
     inferHTTPAddrFromRaft bad = []"
  using assms inferHTTP_host_port [of h p] inferHTTP_host_port [of h' q]
    host_port_inj [of "itoa (p + 1000)" "itoa (q + 1000)" h h']
  by (auto simp: inferHTTPAddrFromRaft_def)

theorem inferred_address_witness:
  "inferHTTPAddrFromRaft (host_port ''10.0.0.2'' (itoa 7001)) = host_port ''10.0.0.2'' (itoa 8001) \<and>
   inferHTTPAddrFromRaft ''nowhere'' = []"
  using inferred_address [of "''10.0.0.2''" 7001 "''10.0.0.3''" 7001 "''nowhere''"]
  by (simp add: plain_host_def SplitHostPort_def last_index_of_def)

text \<open>The inference loses the brackets of an IPv6 host: whenever the host part of a
  Raft address contains a colon, the inferred address cannot be split into host and port
  again, so no request can be sent to it.\<close>

theorem ipv6_inference_unusable:
  assumes "SplitHostPort a = Some (h, ps)" and "CHR '':'' \<in> set h" and "Atoi ps = Some p"
    and "hd h \<noteq> CHR ''[''"
  shows "inferHTTPAddrFromRaft a \<noteq> [] \<and> SplitHostPort (inferHTTPAddrFromRaft a) = None"
proof -
  let ?port = "itoa_int (wrap64 (p + 1000))"
  have port: "CHR '':'' \<notin> set ?port"
    using itoa_not_in [of "CHR '':''"] by (auto simp: itoa_int_def)
  have a: "inferHTTPAddrFromRaft a = h @ CHR '':'' # ?port"
    using assms(1,3) by (simp add: inferHTTPAddrFromRaft_def)
  have "(h @ CHR '':'' # ?port) ! 0 \<noteq> CHR ''[''"
    using assms(2,4) by (cases h) auto
  then show ?thesis
    using assms(2) last_index_of_sep [OF port, of h] by (simp add: a SplitHostPort_def)
qed

theorem ipv6_inference_unusable_witness:
  "inferHTTPAddrFromRaft ''[::1]:7001'' \<noteq> [] \<and> SplitHostPort (inferHTTPAddrFromRaft ''[::1]:7001'') = None"
proof -
  have "SplitHostPort ''[::1]:7001'' = Some (''::1'', ''7001'')" "Atoi ''7001'' = Some 7001"
    by (simp_all add: SplitHostPort_def last_index_of_def Atoi_def is_digit_def digits_val_def digit_val_def
        int64_range_def)
  from ipv6_inference_unusable [OF this(1) _ this(2)] show ?thesis by simp
qed

end
