(* ===== verification/Api_Props.thy ===== *)
theory Api_Props imports Api_Handler Process_Theorems Raft_Node_Theorems begin

text \<open>
  Lemmas on the handlers of \<open>internal/api/handler.go\<close>: how often each answers, as a locale
  with an interpretation per handler, the round trips of the request bodies, and what the
  handlers do on a node that leads.
\<close>

section \<open>One answer\<close>

named_theorems answers

text \<open>A response nobody has written a status on, which allows every origin; and what becomes of
  it: a number of statuses, of which the first is final, and a header that goes out with
  one line that allows every origin, followed by the lines in \<open>vs\<close>.\<close>

definition ready :: "response \<Rightarrow> bool" where
  "ready r \<longleftrightarrow> rw_status r = None \<and> \<not> rw_panicked r \<and> rw_header r ''Access-Control-Allow-Origin'' = Some [''*'']"

definition answered :: "nat \<Rightarrow> string list \<Rightarrow> response \<Rightarrow> response \<Rightarrow> bool" where
  "answered k vs r r' \<longleftrightarrow> rw_calls r' = rw_calls r + k \<and> rw_status r' \<noteq> None \<and> \<not> rw_panicked r' \<and>
     rw_sent r' ''Access-Control-Allow-Origin'' = Some (''*'' # vs)"

text \<open>The lines on origins of the answers the HTTP client got.\<close>

definition origin_lines :: "(string \<times> string list) list \<Rightarrow> string list" where
  "origin_lines hs = concat (map (\<lambda>(k, vv). if k = ''Access-Control-Allow-Origin'' then vv else []) hs)"

definition relayed_origins :: "api_env \<Rightarrow> api_effect list \<Rightarrow> string list" where
  "relayed_origins env effs =
     concat (map (\<lambda>x. case x of
                        Call m u b \<Rightarrow> (case en_client env m u b of Answered resp \<Rightarrow> origin_lines (hr_header resp) | _ \<Rightarrow> [])
                      | _ \<Rightarrow> []) effs)"

lemma relayed_origins_none [simp]:
  "relayed_origins env [] = []" "relayed_origins env (map OsEffect effs) = []"
  "relayed_origins env (xs @ ys) = relayed_origins env xs @ relayed_origins env ys"
  "relayed_origins env [ScheduleExit] = []"
  by (simp_all add: relayed_origins_def comp_def)

lemma response_sel [simp]:
  "rw_status (header_set k v r) = rw_status r" "rw_calls (header_set k v r) = rw_calls r"
  "rw_panicked (header_set k v r) = rw_panicked r" "rw_body (header_set k v r) = rw_body r"
  "rw_status (header_add k v r) = rw_status r" "rw_calls (header_add k v r) = rw_calls r"
  "rw_panicked (header_add k v r) = rw_panicked r" "rw_body (header_add k v r) = rw_body r"
  "rw_calls (write_body b r) = rw_calls r" "rw_panicked (write_body b r) = rw_panicked r"
  "rw_body (write_body b r) = rw_body r @ b" "rw_body (write_header st r) = rw_body r"
  "rw_header (header_set k v r) = (rw_header r)(k \<mapsto> [v])"
  by (simp_all add: header_set_def header_add_def write_body_def write_header_def Let_def)

lemma write_body_written [simp]:
  "rw_status r = Some st \<Longrightarrow> rw_status (write_body b r) = Some st"
  "rw_status r = Some st \<Longrightarrow> rw_sent (write_body b r) = rw_sent r"
  by (simp_all add: write_body_def)

lemma write_header_first:
  assumes "rw_status r = None" and "200 \<le> status" and "status \<le> 999"
  shows "rw_status (write_header status r) = Some status" "rw_sent (write_header status r) = rw_header r"
    "rw_calls (write_header status r) = Suc (rw_calls r)" "rw_panicked (write_header status r) = rw_panicked r"
  using assms by (simp_all add: write_header_def)

lemma answered_write:
  assumes "ready r" and "rw_status r1 = None" and "rw_calls r1 = rw_calls r" and "rw_panicked r1 = rw_panicked r"
    and "rw_header r1 ''Access-Control-Allow-Origin'' = Some (''*'' # vs)" and "200 \<le> status" and "status \<le> 999"
  shows "answered (Suc 0) vs r (write_body b (write_header status r1))"
  using assms write_header_first [OF assms(2,6,7)] by (simp add: ready_def answered_def)

lemma answered_json [answers]:
  "ready r \<Longrightarrow> 200 \<le> status \<Longrightarrow> status \<le> 999 \<Longrightarrow> answered (Suc 0) [] r (writeJSON status j r)"
  "ready r \<Longrightarrow> 200 \<le> status \<Longrightarrow> status \<le> 999 \<Longrightarrow> answered (Suc 0) [] r (writeError status msg r)"
  unfolding writeJSON_def writeError_def json_reply_def
  by (rule answered_write; simp add: ready_def)+

lemma answered_http_error [answers]:
  "ready r \<Longrightarrow> 200 \<le> status \<Longrightarrow> status \<le> 999 \<Longrightarrow> answered (Suc 0) [] r (http_error msg status r)"
  unfolding http_error_def by (rule answered_write) (simp_all add: ready_def)

lemma answered_notLeader [answers]: "ready r \<Longrightarrow> answered (Suc 0) [] r (notLeader r)"
  by (simp add: notLeader_def answers)

text \<open>A second error document changes nothing but the count and the body.\<close>

lemma answered_again: "answered (Suc k) vs r r1 \<Longrightarrow> answered (Suc (Suc k)) vs r (writeError status msg r1)"
  by (auto simp: answered_def writeError_def json_reply_def write_header_def write_body_def Let_def header_set_def)

text \<open>What \<open>http.Client\<close> answers has a final status.\<close>

definition client_ok :: "api_env \<Rightarrow> bool" where
  "client_ok env \<longleftrightarrow> (\<forall>m u b resp. en_client env m u b = Answered resp \<longrightarrow> 200 \<le> hr_status resp \<and> hr_status resp \<le> 999)"

lemma fold_header_add:
  "rw_status (fold (header_add k) vv r) = rw_status r" "rw_calls (fold (header_add k) vv r) = rw_calls r"
  "rw_panicked (fold (header_add k) vv r) = rw_panicked r" "rw_body (fold (header_add k) vv r) = rw_body r"
  "rw_header r x = Some vs \<Longrightarrow> rw_header (fold (header_add k) vv r) x = Some (vs @ (if k = x then vv else []))"
  by (induction vv arbitrary: r vs) (auto simp: header_add_def)

lemma fold_headers:
  "rw_status (fold (\<lambda>(k, vv). fold (header_add k) vv) hs r) = rw_status r"
  "rw_calls (fold (\<lambda>(k, vv). fold (header_add k) vv) hs r) = rw_calls r"
  "rw_panicked (fold (\<lambda>(k, vv). fold (header_add k) vv) hs r) = rw_panicked r"
  "rw_body (fold (\<lambda>(k, vv). fold (header_add k) vv) hs r) = rw_body r"
  "rw_header r ''Access-Control-Allow-Origin'' = Some vs \<Longrightarrow>
   rw_header (fold (\<lambda>(k, vv). fold (header_add k) vv) hs r) ''Access-Control-Allow-Origin'' = Some (vs @ origin_lines hs)"
  by (induction hs arbitrary: r vs) (auto simp: fold_header_add origin_lines_def)

lemma proxyJSON_answer:
  assumes "en_client env m u (json_print data) = Answered resp" and "200 \<le> hr_status resp" and "hr_status resp \<le> 999"
    and "ready r"
  shows "rw_status (fst (proxyJSON env m u data r)) = Some (hr_status resp)"
    "rw_body (fst (proxyJSON env m u data r)) = rw_body r @ hr_body resp"
    "answered (Suc 0) (origin_lines (hr_header resp)) r (fst (proxyJSON env m u data r))"
proof -
  let ?r1 = "fold (\<lambda>(k, vv). fold (header_add k) vv) (hr_header resp) r"
  have s: "rw_status ?r1 = None" "\<not> rw_panicked ?r1" "rw_calls ?r1 = rw_calls r"
    "rw_header ?r1 ''Access-Control-Allow-Origin'' = Some (''*'' # origin_lines (hr_header resp))"
    "rw_body ?r1 = rw_body r" "\<not> rw_panicked r"
    using assms(4) by (simp_all add: fold_headers ready_def)
  note w = write_header_first [OF s(1) assms(2,3)]
  have p: "fst (proxyJSON env m u data r) = write_body (hr_body resp) (write_header (hr_status resp) ?r1)"
    using assms(1) s w by (simp add: proxyJSON_def Let_def)
  show "rw_status (fst (proxyJSON env m u data r)) = Some (hr_status resp)"
    "rw_body (fst (proxyJSON env m u data r)) = rw_body r @ hr_body resp"
    unfolding p using w s by simp_all
  show "answered (Suc 0) (origin_lines (hr_header resp)) r (fst (proxyJSON env m u data r))"
    unfolding p by (rule answered_write [OF assms(4)]) (simp_all add: s assms)
qed

lemma answered_proxyJSON [answers]:
  assumes "client_ok env" and "ready r"
  shows "answered (Suc 0) (relayed_origins env (snd (proxyJSON env m u data r))) r (fst (proxyJSON env m u data r))"
proof (cases "en_client env m u (json_print data)")
  case (Answered resp)
  have "snd (proxyJSON env m u data r) = [Call m u (json_print data)]"
    using Answered by (simp add: proxyJSON_def Let_def)
  then show ?thesis
    using assms proxyJSON_answer(3) [OF Answered] Answered by (simp add: client_ok_def relayed_origins_def)
qed (simp_all add: proxyJSON_def Let_def answers assms(2) relayed_origins_def)

text \<open>The contract of a handler: whatever the server, it answers a ready response with a known number
  of statuses, and \<open>relay\<close> gives the lines on origins it takes over from an answer of the HTTP client.\<close>

locale http_handler =
  fixes times :: "request \<Rightarrow> nat"
    and relay :: "api_env \<Rightarrow> api_effect list \<Rightarrow> string list"
    and handle :: "api_env \<Rightarrow> request \<Rightarrow> server \<Rightarrow> response \<Rightarrow> answer"
  assumes answers_times:
    "client_ok env \<Longrightarrow> ready r \<Longrightarrow>
     answered (times req) (relay env (snd (snd (handle env req s r)))) r (fst (snd (handle env req s r)))"
begin

lemma not_silent: "client_ok env \<Longrightarrow> ready r \<Longrightarrow> rw_status (fst (snd (handle env req s r))) \<noteq> None"
  using answers_times by (auto simp: answered_def)

lemma answers: "client_ok env \<Longrightarrow> ready r \<Longrightarrow> handle env req s r = (s', r', effs) \<Longrightarrow>
  answered (times req) (relay env effs) r r'"
  using answers_times by (metis fst_conv snd_conv)

end

lemma answered_forward_or [answers]:
  "client_ok env \<Longrightarrow> ready r \<Longrightarrow> answered (Suc 0) [] r otherwise \<Longrightarrow>
   answered (Suc 0) (relayed_origins env (snd (snd (forward_or env path payload otherwise s r)))) r
     (fst (snd (forward_or env path payload otherwise s r)))"
  using answered_proxyJSON [of env r]
  by (auto simp: forward_or_def forwardToLeader_def reply_def Let_def case_prod_beta split: option.split)

lemma decodeBody_cases:
  "decodeBody d r = (if snd d then (r, True) else (writeError 400 ''invalid request body'' r, False))"
  by (simp add: decodeBody_def)

interpretation get_state: http_handler "\<lambda>_. Suc 0" relayed_origins handleGetState
  by unfold_locales (simp add: handleGetState_def reply_def answers)

interpretation fsm_data: http_handler "\<lambda>_. Suc 0" relayed_origins handleFSMData
  by unfold_locales (simp add: handleFSMData_def reply_def answers)

interpretation join: http_handler "\<lambda>_. Suc 0" relayed_origins handleJoin
  by unfold_locales
    (auto simp: handleJoin_def decodeBody_cases Let_def reply_def intro!: answers split: prod.split option.split)

interpretation remove: http_handler "\<lambda>_. Suc 0" relayed_origins handleRemove
  by unfold_locales
    (auto simp: handleRemove_def decodeBody_cases Let_def reply_def intro!: answers split: prod.split option.split)

interpretation transfer: http_handler "\<lambda>_. Suc 0" relayed_origins handleLeaderTransfer
  by unfold_locales
    (auto simp: handleLeaderTransfer_def Let_def reply_def intro!: answers split: prod.split option.split)

interpretation fsm_set: http_handler "\<lambda>_. Suc 0" relayed_origins handleFSMSet
  by unfold_locales
    (auto simp: handleFSMSet_def decodeBody_cases Let_def reply_def case_prod_beta intro!: answers split: option.split)

interpretation fsm_delete: http_handler "\<lambda>req. if snd (decode_delete (rq_Body req)) then Suc 0 else Suc (Suc 0)" relayed_origins handleFSMDelete
  by unfold_locales
    (auto simp: handleFSMDelete_def decodeBody_cases Let_def reply_def case_prod_beta
      intro!: answers answered_again split: option.split)

interpretation spawn: http_handler "\<lambda>_. Suc 0" relayed_origins handleSpawnNodes
  by unfold_locales (auto simp: handleSpawnNodes_def Let_def case_prod_beta intro!: answers)

interpretation stop_node: http_handler "\<lambda>_. Suc 0" relayed_origins "\<lambda>env. handleStopNode env i" for i
  by unfold_locales (auto simp: handleStopNode_def Let_def case_prod_beta intro!: answers)

interpretation remove_node: http_handler "\<lambda>_. Suc 0" "\<lambda>_ _. []" "\<lambda>env. handleRemoveNode env i" for i
  by unfold_locales (auto simp: handleRemoveNode_def Let_def case_prod_beta intro!: answers)

section \<open>Bodies survive forwarding\<close>

named_theorems bodies

lemma decode_printed:
  assumes "wf_json (JObj ms)" and "json_depth (JObj ms) \<le> max_nesting"
  shows "decode_into tags set_field zero (json_print (JObj ms)) = decode_members tags set_field ms zero"
  using json_first_print [OF assms, of "[]"] by (simp add: decode_into_def json_decode_def decode_struct_def)

lemma decode_join_json [bodies]:
  "valid_utf8 (jb_NodeID q) \<Longrightarrow> valid_utf8 (jb_RaftAddr q) \<Longrightarrow> valid_utf8 (jb_HTTPAddr q) \<Longrightarrow>
   decode_join (json_print (join_json q)) = (q, True)"
  unfolding decode_join_def join_json_def
  by (subst decode_printed) (simp_all add: max_nesting_def set_join_field_def string_value_def valid_utf8_ascii)

lemma decode_remove_json [bodies]:
  "valid_utf8 i \<Longrightarrow> decode_remove (json_print (remove_json i)) = (i, True)"
  unfolding decode_remove_def remove_json_def
  by (subst decode_printed) (simp_all add: max_nesting_def string_value_def valid_utf8_ascii)

lemma decode_transfer_json [bodies]:
  "valid_utf8 (fst q) \<Longrightarrow> valid_utf8 (snd q) \<Longrightarrow> decode_transfer (json_print (transfer_json q)) = (q, True)"
  unfolding decode_transfer_def transfer_json_def
  by (subst decode_printed) (simp_all add: max_nesting_def string_value_def valid_utf8_ascii)

lemma decode_set_json [bodies]:
  "valid_utf8 (sb_Key q) \<Longrightarrow> valid_utf8 (sb_Value q) \<Longrightarrow> decode_set (json_print (set_json q)) = (q, True)"
  unfolding decode_set_def set_json_def
  by (subst decode_printed) (simp_all add: max_nesting_def set_set_field_def string_value_def valid_utf8_ascii)

lemma decode_delete_json [bodies]:
  "valid_utf8 k \<Longrightarrow> decode_delete (json_print (delete_json k)) = (k, True)"
  unfolding decode_delete_def delete_json_def
  by (subst decode_printed) (simp_all add: max_nesting_def string_value_def valid_utf8_ascii)

text \<open>What a body is decoded to holds well-formed UTF-8 only.\<close>

lemma decode_into_invariant:
  assumes "P zero" and "\<And>f v y. f \<in> set tags \<Longrightarrow> utf8_json v \<Longrightarrow> P y \<Longrightarrow> P (fst (set_field f v y))"
  shows "P (fst (decode_into tags set_field zero body))"
proof (cases "json_decode body")
  case (Some j)
  have u: "utf8_json j" by (rule json_decode_utf8 [OF Some])
  show ?thesis
  proof (cases j)
    case (JObj ms)
    have "\<forall>(k, v) \<in> set ms. utf8_json v" using u JObj by (auto simp: utf8_members_iff)
    then show ?thesis
      using decode_members_invariant [of P zero ms utf8_json tags set_field, OF assms(1) _ assms(2)] Some JObj
      by (simp add: decode_into_def decode_struct_def)
  qed (use assms(1) Some in \<open>simp_all add: decode_into_def decode_struct_def\<close>)
qed (use assms(1) in \<open>simp add: decode_into_def\<close>)

lemma string_value_valid: "utf8_json v \<Longrightarrow> valid_utf8 old \<Longrightarrow> valid_utf8 (fst (string_value v old))"
  by (cases v) (simp_all add: string_value_def)

lemma decode_join_utf8:
  "valid_utf8 (jb_NodeID (fst (decode_join b))) \<and> valid_utf8 (jb_RaftAddr (fst (decode_join b))) \<and>
   valid_utf8 (jb_HTTPAddr (fst (decode_join b)))"
  unfolding decode_join_def
  by (rule decode_into_invariant [where P = "\<lambda>q. valid_utf8 (jb_NodeID q) \<and> valid_utf8 (jb_RaftAddr q) \<and> valid_utf8 (jb_HTTPAddr q)"])
    (auto simp: set_join_field_def case_prod_beta Let_def string_value_valid)

lemma decode_remove_utf8: "valid_utf8 (fst (decode_remove b))"
  unfolding decode_remove_def by (rule decode_into_invariant) (auto simp: string_value_valid)

lemma decode_delete_utf8: "valid_utf8 (fst (decode_delete b))"
  unfolding decode_delete_def by (rule decode_into_invariant) (auto simp: string_value_valid)

lemma decode_transfer_utf8: "valid_utf8 (fst (fst (decode_transfer b))) \<and> valid_utf8 (snd (fst (decode_transfer b)))"
  unfolding decode_transfer_def
  by (rule decode_into_invariant [where P = "\<lambda>q. valid_utf8 (fst q) \<and> valid_utf8 (snd q)"])
    (auto simp: case_prod_beta Let_def string_value_valid)

lemma decode_set_utf8: "valid_utf8 (sb_Key (fst (decode_set b))) \<and> valid_utf8 (sb_Value (fst (decode_set b)))"
  unfolding decode_set_def
  by (rule decode_into_invariant [where P = "\<lambda>q. valid_utf8 (sb_Key q) \<and> valid_utf8 (sb_Value q)"])
    (auto simp: set_set_field_def case_prod_beta Let_def string_value_valid)

section \<open>Routing\<close>

definition post :: "string \<Rightarrow> string \<Rightarrow> request" where
  "post path body = \<lparr>rq_Method = ''POST'', rq_Path = path, rq_Body = body\<rparr>"

lemma post_sel [simp]: "rq_Method (post p b) = ''POST''" "rq_Path (post p b) = p" "rq_Body (post p b) = b"
  by (simp_all add: post_def)

lemma clean_paths:
  "clean_url ''/join'' = ''/join''" "clean_url ''/remove'' = ''/remove''"
  "clean_url ''/leader/transfer'' = ''/leader/transfer''" "clean_url ''/fsm/set'' = ''/fsm/set''"
  "clean_url ''/fsm/delete'' = ''/fsm/delete''" "clean_url ''/nodes'' = ''/nodes''"
  by (simp_all add: clean_url_def path_clean_def clean_step_def)

lemma post_routes:
  "routes ''POST'' (path_segments ''/join'') = JoinRoute" "routes ''POST'' (path_segments ''/remove'') = RemoveRoute"
  "routes ''POST'' (path_segments ''/leader/transfer'') = TransferRoute"
  "routes ''POST'' (path_segments ''/fsm/set'') = SetRoute"
  "routes ''POST'' (path_segments ''/fsm/delete'') = DeleteRoute" "routes ''POST'' (path_segments ''/nodes'') = SpawnRoute"
  by (simp_all add: routes_def path_segments_def path_unescape_def)

lemma ready_cors [simp]: "ready (cors_headers new_response)"
  by (simp add: ready_def cors_headers_def new_response_def)

lemma cors_sel [simp]: "rw_body (cors_headers r) = rw_body r" "rw_calls (cors_headers r) = rw_calls r"
  "rw_body new_response = []" "rw_calls new_response = 0"
  by (simp_all add: cors_headers_def new_response_def)

lemma ServeHTTP_post:
  "clean_url p = p \<Longrightarrow> ServeHTTP env (post p b) s new_response =
     run_route env (routes ''POST'' (path_segments p)) (post p b) s (cors_headers new_response)"
  by (simp add: ServeHTTP_def mux_ServeHTTP_def)

lemmas serve_post = ServeHTTP_post clean_paths post_routes

end
