(* ===== verification/Api_Theorems.thy ===== *)
theory Api_Theorems imports Api_Props begin

text \<open>
  The properties of \<open>internal/api/handler.go\<close>: every request is answered once, bad
  requests change nothing, a follower answers what its leader answers, and an acknowledged
  write is replicated.
\<close>

section \<open>One answer per request\<close>

text \<open>Property C12. Every request to an API route but the event stream is answered, whatever the
  state of the server, the engine and the network: a status is written, it is final and
  no handler panics.  It is written once, except that a delete request whose body cannot be
  decoded writes two.  The header that goes out allows every origin in exactly one line, except
  that an answer relayed from the leader repeats the leader's own lines after it.\<close>

theorem answered_once:
  assumes "client_ok env" and "rq_Method req \<noteq> ''OPTIONS''" and "clean_url (rq_Path req) = rq_Path req"
    and "route = routes (rq_Method req) (path_segments (rq_Path req))" and "route \<notin> {EventsRoute, StaticRoute}"
    and "ServeHTTP env req s new_response = (s', r, effs)"
  shows "rw_calls r = (if route = DeleteRoute \<and> \<not> snd (decode_delete (rq_Body req)) then 2 else 1) \<and>
     rw_status r \<noteq> None \<and> \<not> rw_panicked r \<and>
     rw_sent r ''Access-Control-Allow-Origin'' =
       Some (''*'' # (if \<exists>i. route = RemoveNodeRoute i then [] else relayed_origins env effs))"
proof -
  have run: "run_route env route req s (cors_headers new_response) = (s', r, effs)"
    using assms(2,3,4,6) by (simp add: ServeHTTP_def mux_ServeHTTP_def)
  note h = assms(1) ready_cors
  have "answered (if route = DeleteRoute \<and> \<not> snd (decode_delete (rq_Body req)) then Suc (Suc 0) else Suc 0)
     (if \<exists>i. route = RemoveNodeRoute i then [] else relayed_origins env effs) (cors_headers new_response) r"
    using run assms(5) get_state.answers [OF h] join.answers [OF h] remove.answers [OF h] transfer.answers [OF h]
      fsm_set.answers [OF h] fsm_delete.answers [OF h] fsm_data.answers [OF h] spawn.answers [OF h]
      stop_node.answers [OF h] remove_node.answers [OF h]
    by (cases route) (simp_all, metis+)
  then show ?thesis by (auto simp: answered_def)
qed

definition sample_env :: api_env where
  "sample_env =
     \<lparr>en_engine = (\<lambda>_. sample_reading), en_tz = sample_tz, en_apply = (\<lambda>_. Inr 9), en_add = (\<lambda>_ _. None),
      en_remove = (\<lambda>_. None), en_transfer = (\<lambda>_. None), en_client = (\<lambda>_ _ _. ClientFailed ''refused''),
      en_os = (\<lambda>_. sample_os), en_now = (\<lambda>_. 0), en_manager = (\<lambda>_ m. m), en_flusher = True, en_others = (\<lambda>_ n. n), en_wakes = [],
      en_static = (\<lambda>_ r. r), en_redirect = (\<lambda>_ _ r. r)\<rparr>"

definition sample_server :: server where
  "sample_server = NewServer sample_node sample_manager False"

theorem answered_once_witness:
  "rw_calls (fst (snd (ServeHTTP sample_env (post ''/join'' ''nonsense'') sample_server new_response))) = 1 \<and>
   rw_sent (fst (snd (ServeHTTP sample_env (post ''/join'' ''nonsense'') sample_server new_response)))
     ''Access-Control-Allow-Origin'' = Some [''*'']"
proof -
  obtain s' r effs where a: "ServeHTTP sample_env (post ''/join'' ''nonsense'') sample_server new_response = (s', r, effs)"
    by (cases "ServeHTTP sample_env (post ''/join'' ''nonsense'') sample_server new_response")
  have c: "client_ok sample_env" by (simp add: client_ok_def sample_env_def)
  have "relayed_origins sample_env effs = []"
    by (induction effs) (auto simp: relayed_origins_def sample_env_def split: api_effect.split)
  then show ?thesis
    using answered_once [OF c _ _ refl _ a] by (simp add: clean_paths post_routes a)
qed

text \<open>A delete request with a body that is no JSON gets two error documents.\<close>

theorem delete_answers_twice:
  assumes "\<not> snd (decode_delete body)"
  shows "rw_calls (fst (snd (ServeHTTP env (post ''/fsm/delete'' body) s new_response))) = 2 \<and>
     rw_body (fst (snd (ServeHTTP env (post ''/fsm/delete'' body) s new_response))) =
       json_print (JObj [(''error'', JStr ''invalid request body'')]) @ [CHR 0x0A] @
       json_print (JObj [(''error'', JStr ''key is required'')]) @ [CHR 0x0A]"
  using assms
  by (simp add: serve_post handleFSMDelete_def decodeBody_cases Let_def reply_def writeError_def json_reply_def
      write_header_def write_body_def)

section \<open>Bad requests\<close>

text \<open>What each route requires of a body.\<close>

definition acceptable :: "string \<Rightarrow> string \<Rightarrow> bool" where
  "acceptable path body \<longleftrightarrow>
     (if path = ''/join'' then snd (decode_join body) \<and> jb_NodeID (fst (decode_join body)) \<noteq> [] \<and>
        jb_RaftAddr (fst (decode_join body)) \<noteq> []
      else if path = ''/remove'' then snd (decode_remove body) \<and> fst (decode_remove body) \<noteq> []
      else if path = ''/fsm/set'' then snd (decode_set body) \<and> sb_Key (fst (decode_set body)) \<noteq> []
      else if path = ''/fsm/delete'' then snd (decode_delete body) \<and> fst (decode_delete body) \<noteq> []
      else True)"

definition checked_paths :: "string set" where
  "checked_paths = {''/join'', ''/remove'', ''/fsm/set'', ''/fsm/delete''}"

lemma json_reply_first [simp]:
  "ready r \<Longrightarrow> 200 \<le> st \<Longrightarrow> st \<le> 999 \<Longrightarrow> rw_status (json_reply st j r) = Some st"
  "rw_status r = Some st' \<Longrightarrow> rw_status (json_reply st j r) = Some st'"
  by (simp_all add: json_reply_def write_header_def ready_def)

text \<open>Property C28. A request to join, remove, set or delete whose body cannot be decoded, or
  lacks a required field, is answered 400 and has no effect: the server is as before and
  nothing is asked of the engine's leader or of the machine.\<close>

theorem bad_request_rejected:
  assumes "path \<in> checked_paths" and "\<not> acceptable path body"
  shows "\<exists>r. ServeHTTP env (post path body) s new_response = (s, r, []) \<and> rw_status r = Some 400"
  using assms
  by (auto simp: checked_paths_def acceptable_def serve_post handleJoin_def handleRemove_def handleFSMSet_def
      handleFSMDelete_def decodeBody_cases Let_def reply_def writeError_def)

theorem bad_request_rejected_witness:
  "\<exists>r. ServeHTTP sample_env (post ''/fsm/set'' (json_print (set_json \<lparr>sb_Key = [], sb_Value = ''x''\<rparr>))) sample_server new_response =
     (sample_server, r, []) \<and> rw_status r = Some 400"
  by (rule bad_request_rejected)
    (simp_all add: checked_paths_def acceptable_def decode_set_json valid_utf8_ascii)

section \<open>Forwarding to the leader\<close>

definition response_of :: "api_env \<Rightarrow> string \<Rightarrow> string \<Rightarrow> server \<Rightarrow> response" where
  "response_of env path body s = fst (snd (ServeHTTP env (post path body) s new_response))"

text \<open>The HTTP client of \<open>env\<close> reaches the server \<open>sL\<close> at the address \<open>L\<close>.\<close>

definition reaches :: "api_env \<Rightarrow> string \<Rightarrow> api_env \<Rightarrow> server \<Rightarrow> bool" where
  "reaches env L envL sL \<longleftrightarrow>
     (\<forall>path body. \<exists>hdr. en_client env ''POST'' (''http://'' @ L @ path) body =
        Answered \<lparr>hr_status = the (rw_status (response_of envL path body sL)), hr_header = hdr,
                  hr_body = rw_body (response_of envL path body sL)\<rparr>)"

definition known_leader :: "api_env \<Rightarrow> server \<Rightarrow> string" where
  "known_leader env s = cs_LeaderHTTPAddr (GetState (later 1 (en_engine env)) (s_node s))"

text \<open>What a follower relays is what the leader says to the same body re-encoded.\<close>

lemma relayed:
  assumes "reaches env L envL sL"
    and "rw_status (response_of envL path (json_print payload) sL) = Some st" and "200 \<le> st" and "st \<le> 999"
  shows "rw_status (fst (proxyJSON env ''POST'' (''http://'' @ L @ path) payload (cors_headers new_response))) = Some st \<and>
     rw_body (fst (proxyJSON env ''POST'' (''http://'' @ L @ path) payload (cors_headers new_response))) =
       rw_body (response_of envL path (json_print payload) sL)"
proof -
  obtain hdr where a: "en_client env ''POST'' (''http://'' @ L @ path) (json_print payload) =
      Answered \<lparr>hr_status = the (rw_status (response_of envL path (json_print payload) sL)), hr_header = hdr,
                hr_body = rw_body (response_of envL path (json_print payload) sL)\<rparr>"
    using assms(1) unfolding reaches_def by blast
  show ?thesis
    using proxyJSON_answer(1,2) [OF a _ _ ready_cors] assms(2-4) by simp
qed

lemma forward_or_known:
  "known_leader env s \<noteq> [] \<Longrightarrow> fst (snd (forward_or env path payload otherwise s r)) =
     fst (proxyJSON env ''POST'' (''http://'' @ known_leader env s @ path) payload r)"
  by (simp add: forward_or_def forwardToLeader_def known_leader_def Let_def case_prod_beta)

text \<open>The status a leader gives itself.\<close>

definition leader_status :: "response \<Rightarrow> bool" where
  "leader_status r \<longleftrightarrow> (\<exists>st. rw_status r = Some st \<and> 200 \<le> st \<and> st \<le> 999)"

lemma leader_status_reply [simp]:
  "ready r \<Longrightarrow> 200 \<le> st \<Longrightarrow> st \<le> 999 \<Longrightarrow> leader_status (writeJSON st j r)"
  "ready r \<Longrightarrow> 200 \<le> st \<Longrightarrow> st \<le> 999 \<Longrightarrow> leader_status (writeError st m r)"
  by (simp_all add: leader_status_def writeJSON_def writeError_def)

text \<open>The contract of a route that a follower forwards: a body the leader would refuse is
  refused the same way; for any other the follower proxies the re-encoded body, which the
  leader answers as it would answer the body itself.\<close>

locale forwarded_route =
  fixes path :: string and payload :: "string \<Rightarrow> json"
  assumes refused: "\<not> acceptable path body \<Longrightarrow> response_of env path body s = response_of env' path body s'"
    and proxied: "acceptable path body \<Longrightarrow> \<not> IsLeader (en_engine env) \<Longrightarrow> known_leader env s \<noteq> [] \<Longrightarrow>
      response_of env path body s = fst (proxyJSON env ''POST'' (''http://'' @ known_leader env s @ path)
        (payload body) (cors_headers new_response))"
    and reencoded: "acceptable path body \<Longrightarrow>
      response_of env path (json_print (payload body)) s = response_of env path body s"
    and final_status: "acceptable path body \<Longrightarrow> IsLeader (en_engine env) \<Longrightarrow> leader_status (response_of env path body s)"
begin

lemma transparent:
  assumes "reaches env (known_leader env s) envL sL" and "known_leader env s \<noteq> []"
    and "\<not> IsLeader (en_engine env)" and "IsLeader (en_engine envL)"
  shows "rw_status (response_of env path body s) = rw_status (response_of envL path body sL) \<and>
     rw_body (response_of env path body s) = rw_body (response_of envL path body sL)"
proof (cases "acceptable path body")
  case True
  note r = reencoded [OF True, of envL sL]
  obtain st where "rw_status (response_of envL path body sL) = Some st" "200 \<le> st" "st \<le> 999"
    using final_status [OF True assms(4), of sL] by (auto simp: leader_status_def)
  then show ?thesis
    using relayed [OF assms(1), of path "payload body" st] unfolding proxied [OF True assms(3,2)] r by simp
next
  case False
  show ?thesis unfolding refused [OF False, of env s envL sL] by simp
qed

end

lemmas route_defs =
  response_of_def serve_post decodeBody_cases Let_def reply_def acceptable_def case_prod_beta

interpretation join_route: forwarded_route "''/join''" "\<lambda>b. join_json (fst (decode_join b))"
proof unfold_locales
  fix body :: string and env env' :: api_env and s s' :: server
  have round: "decode_join (json_print (join_json (fst (decode_join body)))) = (fst (decode_join body), True)"
    using decode_join_utf8 by (intro decode_join_json) blast+
  note d = route_defs handleJoin_def
  show "response_of env ''/join'' body s = response_of env' ''/join'' body s'" if "\<not> acceptable ''/join'' body"
    using that by (auto simp: d)
  assume a: "acceptable ''/join'' body"
  show "response_of env ''/join'' (json_print (join_json (fst (decode_join body)))) s = response_of env ''/join'' body s"
    using a by (simp add: d round)
  show "leader_status (response_of env ''/join'' body s)" if "IsLeader (en_engine env)"
    using a that by (simp add: d split: option.split)
  show "response_of env ''/join'' body s = fst (proxyJSON env ''POST'' (''http://'' @ known_leader env s @ ''/join'')
      (join_json (fst (decode_join body))) (cors_headers new_response))"
    if "\<not> IsLeader (en_engine env)" "known_leader env s \<noteq> []"
    using a that forward_or_known [of env s "''/join''"] by (simp add: d)
qed

interpretation remove_route: forwarded_route "''/remove''" "\<lambda>b. remove_json (fst (decode_remove b))"
proof unfold_locales
  fix body :: string and env env' :: api_env and s s' :: server
  have round: "decode_remove (json_print (remove_json (fst (decode_remove body)))) = (fst (decode_remove body), True)"
    using decode_remove_utf8 by (rule decode_remove_json)
  note d = route_defs handleRemove_def
  show "response_of env ''/remove'' body s = response_of env' ''/remove'' body s'" if "\<not> acceptable ''/remove'' body"
    using that by (auto simp: d)
  assume a: "acceptable ''/remove'' body"
  show "response_of env ''/remove'' (json_print (remove_json (fst (decode_remove body)))) s = response_of env ''/remove'' body s"
    using a by (simp add: d round)
  show "leader_status (response_of env ''/remove'' body s)" if "IsLeader (en_engine env)"
    using a that by (simp add: d split: option.split)
  show "response_of env ''/remove'' body s = fst (proxyJSON env ''POST'' (''http://'' @ known_leader env s @ ''/remove'')
      (remove_json (fst (decode_remove body))) (cors_headers new_response))"
    if "\<not> IsLeader (en_engine env)" "known_leader env s \<noteq> []"
    using a that forward_or_known [of env s "''/remove''"] by (simp add: d)
qed

interpretation transfer_route: forwarded_route "''/leader/transfer''" "\<lambda>b. transfer_json (fst (decode_transfer b))"
proof unfold_locales
  fix body :: string and env env' :: api_env and s s' :: server
  have round: "decode_transfer (json_print (transfer_json (fst (decode_transfer body)))) = (fst (decode_transfer body), True)"
    using decode_transfer_utf8 by (intro decode_transfer_json) blast+
  note d = route_defs handleLeaderTransfer_def
  show "response_of env ''/leader/transfer'' body s = response_of env' ''/leader/transfer'' body s'"
    if "\<not> acceptable ''/leader/transfer'' body"
    using that by (simp add: acceptable_def)
  assume a: "acceptable ''/leader/transfer'' body"
  show "response_of env ''/leader/transfer'' (json_print (transfer_json (fst (decode_transfer body)))) s =
      response_of env ''/leader/transfer'' body s"
    by (simp add: d round)
  show "leader_status (response_of env ''/leader/transfer'' body s)" if "IsLeader (en_engine env)"
    using that by (simp add: d split: option.split)
  show "response_of env ''/leader/transfer'' body s =
      fst (proxyJSON env ''POST'' (''http://'' @ known_leader env s @ ''/leader/transfer'')
        (transfer_json (fst (decode_transfer body))) (cors_headers new_response))"
    if "\<not> IsLeader (en_engine env)" "known_leader env s \<noteq> []"
    using that forward_or_known [of env s "''/leader/transfer''"] by (simp add: d)
qed

interpretation set_route: forwarded_route "''/fsm/set''" "\<lambda>b. set_json (fst (decode_set b))"
proof unfold_locales
  fix body :: string and env env' :: api_env and s s' :: server
  have round: "decode_set (json_print (set_json (fst (decode_set body)))) = (fst (decode_set body), True)"
    using decode_set_utf8 by (intro decode_set_json) blast+
  note d = route_defs handleFSMSet_def
  show "response_of env ''/fsm/set'' body s = response_of env' ''/fsm/set'' body s'" if "\<not> acceptable ''/fsm/set'' body"
    using that by (auto simp: d)
  assume a: "acceptable ''/fsm/set'' body"
  show "response_of env ''/fsm/set'' (json_print (set_json (fst (decode_set body)))) s = response_of env ''/fsm/set'' body s"
    using a by (simp add: d round)
  show "leader_status (response_of env ''/fsm/set'' body s)" if "IsLeader (en_engine env)"
    using a that by (simp add: d split: option.split)
  show "response_of env ''/fsm/set'' body s = fst (proxyJSON env ''POST'' (''http://'' @ known_leader env s @ ''/fsm/set'')
      (set_json (fst (decode_set body))) (cors_headers new_response))"
    if "\<not> IsLeader (en_engine env)" "known_leader env s \<noteq> []"
    using a that by (simp add: d known_leader_def)
qed

interpretation delete_route: forwarded_route "''/fsm/delete''" "\<lambda>b. delete_json (fst (decode_delete b))"
proof unfold_locales
  fix body :: string and env env' :: api_env and s s' :: server
  have round: "decode_delete (json_print (delete_json (fst (decode_delete body)))) = (fst (decode_delete body), True)"
    using decode_delete_utf8 by (rule decode_delete_json)
  note d = route_defs handleFSMDelete_def
  show "response_of env ''/fsm/delete'' body s = response_of env' ''/fsm/delete'' body s'" if "\<not> acceptable ''/fsm/delete'' body"
    using that by (auto simp: d)
  assume a: "acceptable ''/fsm/delete'' body"
  show "response_of env ''/fsm/delete'' (json_print (delete_json (fst (decode_delete body)))) s = response_of env ''/fsm/delete'' body s"
    using a by (simp add: d round)
  show "leader_status (response_of env ''/fsm/delete'' body s)" if "IsLeader (en_engine env)"
    using a that by (simp add: d split: option.split)
  show "response_of env ''/fsm/delete'' body s = fst (proxyJSON env ''POST'' (''http://'' @ known_leader env s @ ''/fsm/delete'')
      (delete_json (fst (decode_delete body))) (cors_headers new_response))"
    if "\<not> IsLeader (en_engine env)" "known_leader env s \<noteq> []"
    using a that forward_or_known [of env s "''/fsm/delete''"] by (simp add: d)
qed

definition forwarded_paths :: "string set" where
  "forwarded_paths = {''/join'', ''/remove'', ''/leader/transfer'', ''/fsm/set'', ''/fsm/delete''}"

lemma forwarded_answer:
  assumes "path \<in> forwarded_paths" and "reaches env (known_leader env s) envL sL" and "known_leader env s \<noteq> []"
    and "\<not> IsLeader (en_engine env)" and "IsLeader (en_engine envL)"
  shows "rw_status (response_of env path body s) = rw_status (response_of envL path body sL) \<and>
     rw_body (response_of env path body s) = rw_body (response_of envL path body sL)"
  using assms(1) join_route.transparent [OF assms(2-5)] remove_route.transparent [OF assms(2-5)]
    transfer_route.transparent [OF assms(2-5)] set_route.transparent [OF assms(2-5)]
    delete_route.transparent [OF assms(2-5)]
  unfolding forwarded_paths_def by blast

text \<open>Property C5. It does not matter which node a client asks: a node that does not lead but
  knows the leader's address and reaches the leader there answers every write and
  membership request - good, bad or unreadable - with the status and the body the leader
  itself would have answered.\<close>

theorem forwarding_transparent:
  assumes "path \<in> forwarded_paths" and "reaches env (known_leader env s) envL sL" and "known_leader env s \<noteq> []"
    and "\<not> IsLeader (en_engine env)" and "IsLeader (en_engine envL)"
  shows "rw_status (response_of env path body s) = rw_status (response_of envL path body sL) \<and>
     rw_body (response_of env path body s) = rw_body (response_of envL path body sL)"
  by (rule forwarded_answer [OF assms])

definition follower_env :: api_env where
  "follower_env = sample_env\<lparr>en_engine := (\<lambda>_. sample_reading\<lparr>rd_State := Follower\<rparr>),
     en_client := (\<lambda>_ u b. let r = response_of sample_env (drop (length ''http://127.0.0.1:8001'') u) b sample_server in
       Answered \<lparr>hr_status = the (rw_status r), hr_header = [], hr_body = rw_body r\<rparr>)\<rparr>"

theorem forwarding_transparent_witness:
  "rw_status (response_of follower_env ''/fsm/set'' (json_print (set_json \<lparr>sb_Key = ''city'', sb_Value = ''ankara''\<rparr>)) sample_server) =
     rw_status (response_of sample_env ''/fsm/set'' (json_print (set_json \<lparr>sb_Key = ''city'', sb_Value = ''ankara''\<rparr>)) sample_server)"
proof -
  have L: "known_leader follower_env sample_server = ''127.0.0.1:8001''"
    by (simp add: known_leader_def GetState_def Let_def follower_env_def sample_env_def sample_server_def NewServer_def
        httpAddrFor_def sample_node_def initial_node_def sample_config_def sample_reading_def)
  have "reaches follower_env (known_leader follower_env sample_server) sample_env sample_server"
    unfolding reaches_def L by (simp add: follower_env_def Let_def)
  then show ?thesis
    using forwarding_transparent [of "''/fsm/set''" follower_env sample_server sample_env sample_server] L
    by (simp add: forwarded_paths_def IsLeader_def follower_env_def sample_env_def)
qed

section \<open>Acknowledged writes\<close>

text \<open>What a write does to the store of a replica.\<close>

definition written :: "string \<Rightarrow> string \<Rightarrow> kv_fsm \<Rightarrow> kv_fsm \<Rightarrow> bool" where
  "written path body f f' \<longleftrightarrow>
     (\<forall>k. fsm_Get f' k =
       (if path = ''/fsm/set'' \<and> k = sb_Key (fst (decode_set body)) then (sb_Value (fst (decode_set body)), True)
        else if path = ''/fsm/delete'' \<and> k = fst (decode_delete body) then ([], False)
        else fsm_Get f k))"

lemma status_200:
  "ready r \<Longrightarrow> 200 \<le> st \<Longrightarrow> st \<le> 999 \<Longrightarrow> (rw_status (writeJSON st j r) = Some 200) = (st = 200)"
  "ready r \<Longrightarrow> 200 \<le> st \<Longrightarrow> st \<le> 999 \<Longrightarrow> (rw_status (writeError st m r) = Some 200) = (st = 200)"
  by (simp_all add: writeJSON_def writeError_def)

lemma set_acknowledged:
  assumes "IsLeader (en_engine env)" and "rw_status (response_of env ''/fsm/set'' body s) = Some 200"
  obtains n1 n' where "ApplyKV (en_tz env) (later 18 (en_engine env)) (en_apply env) OpSet (sb_Key (fst (decode_set body)))
      (sb_Value (fst (decode_set body))) n1 = (n', None)" and "node_ID n1 = node_ID (s_node s)"
proof -
  let ?q = "fst (decode_set body)"
  let ?n1 = "broadcast (proposal_received_event (GetState (later 1 (en_engine env)) (s_node s)) ?q (s_node s)) (s_node s)"
  obtain n' err where a: "ApplyKV (en_tz env) (later 18 (en_engine env)) (en_apply env) OpSet (sb_Key ?q) (sb_Value ?q) ?n1 = (n', err)"
    by fastforce
  have "err = None"
    using assms a by (auto simp: route_defs handleFSMSet_def status_200 split: if_splits option.splits)
  with a that show ?thesis by simp
qed

lemma delete_acknowledged:
  assumes "IsLeader (en_engine env)" and "rw_status (response_of env ''/fsm/delete'' body s) = Some 200"
  obtains n' where "ApplyKV (en_tz env) (later 1 (en_engine env)) (en_apply env) OpDelete (fst (decode_delete body)) []
      (s_node s) = (n', None)"
proof -
  obtain n' err where a: "ApplyKV (en_tz env) (later 1 (en_engine env)) (en_apply env) OpDelete (fst (decode_delete body)) []
      (s_node s) = (n', err)"
    by fastforce
  have "rw_status (writeError 400 m (writeError 400 m' (cors_headers new_response))) = Some 400" for m m'
    by (simp add: writeError_def)
  then have "err = None"
    using assms a by (auto simp: route_defs handleFSMDelete_def status_200 split: if_splits option.splits)
  with a that show ?thesis by simp
qed

lemma acknowledged_write:
  assumes "path \<in> {''/fsm/set'', ''/fsm/delete''}" and "IsLeader (en_engine env)"
    and "rw_status (response_of env path body s) = Some 200"
    and "\<forall>i. time_survives (en_tz env) (rd_Now (en_engine env i))" and "valid_utf8 (node_ID (s_node s))"
  shows "\<exists>data index. en_apply env data = Inr index \<and>
     (\<forall>f now log. fsm_ok f \<and> log_Data log = data \<longrightarrow>
        (\<exists>f' gs. Apply (en_tz env) now log f = Some (f', None, gs) \<and> written path body f f'))"
proof (cases "path = ''/fsm/set''")
  case True
  obtain n1 n' where a: "ApplyKV (en_tz env) (later 18 (en_engine env)) (en_apply env) OpSet (sb_Key (fst (decode_set body)))
      (sb_Value (fst (decode_set body))) n1 = (n', None)" "node_ID n1 = node_ID (s_node s)"
    using set_acknowledged [OF assms(2)] assms(3) unfolding True by blast
  have "time_survives (en_tz env) (rd_Now (later 18 (en_engine env) 1))" using assms(4) by simp
  from accepted_set_effect [OF a(1) _ _ _ this] assms(5) decode_set_utf8 [of body] a(2)
  show ?thesis unfolding written_def True by simp meson
next
  case False
  then have p: "path = ''/fsm/delete''" using assms(1) by simp
  obtain n' where a: "ApplyKV (en_tz env) (later 1 (en_engine env)) (en_apply env) OpDelete (fst (decode_delete body)) []
      (s_node s) = (n', None)"
    using delete_acknowledged [OF assms(2)] assms(3) unfolding p by blast
  have "time_survives (en_tz env) (rd_Now (later 1 (en_engine env) 1))" using assms(4) by simp
  from accepted_delete_effect [OF a _ _ this] assms(5) decode_delete_utf8 [of body]
  show ?thesis unfolding written_def p by simp meson
qed

text \<open>Property C4. A write a leader acknowledges with 200 is a write of the replicated log:
  the engine accepted an entry, and every replica that applies an entry with those bytes,
  whenever and at whatever index, performs exactly the write the client asked for - the
  pair it set, or the key it deleted - and no other.  (Reading back the time stamp of the
  command must work in the zone of the process.)\<close>

theorem acknowledged_write_replicated:
  assumes "path \<in> {''/fsm/set'', ''/fsm/delete''}" and "IsLeader (en_engine env)"
    and "rw_status (response_of env path body s) = Some 200"
    and "\<forall>i. time_survives (en_tz env) (rd_Now (en_engine env i))" and "valid_utf8 (node_ID (s_node s))"
  shows "\<exists>data index. en_apply env data = Inr index \<and>
     (\<forall>f now log. fsm_ok f \<and> log_Data log = data \<longrightarrow>
        (\<exists>f' gs. Apply (en_tz env) now log f = Some (f', None, gs) \<and> written path body f f'))"
  by (rule acknowledged_write [OF assms])

theorem acknowledged_write_replicated_witness:
  "\<exists>data index. en_apply sample_env data = Inr index \<and>
     (\<exists>f' gs. Apply sample_tz 7 \<lparr>log_Index = 1, log_Term = 1, log_Data = data\<rparr> NewKVStoreFSM = Some (f', None, gs) \<and>
        fsm_Get f' ''city'' = (''ankara'', True))"
proof -
  let ?q = "\<lparr>sb_Key = ''city'', sb_Value = ''ankara''\<rparr>" and ?b = "json_print (set_json \<lparr>sb_Key = ''city'', sb_Value = ''ankara''\<rparr>)"
  have d: "decode_set ?b = (?q, True)" by (rule decode_set_json) simp_all
  have "rw_status (response_of sample_env ''/fsm/set'' ?b sample_server) = Some 200"
    by (simp add: route_defs handleFSMSet_def d status_200 IsLeader_def sample_env_def ApplyKV_cases)
  moreover have "time_survives sample_tz 5" by (simp add: sample_tz_def time_survives_def)
  ultimately have "\<exists>data index. en_apply sample_env data = Inr index \<and>
     (\<forall>f now log. fsm_ok f \<and> log_Data log = data \<longrightarrow>
        (\<exists>f' gs. Apply (en_tz sample_env) now log f = Some (f', None, gs) \<and> written ''/fsm/set'' ?b f f'))"
    by (intro acknowledged_write_replicated [where s = sample_server])
      (simp_all add: IsLeader_def sample_env_def sample_server_def NewServer_def)
  then obtain data index where i: "en_apply sample_env data = Inr index"
    and all: "\<And>f now log. fsm_ok f \<and> log_Data log = data \<Longrightarrow>
        \<exists>f' gs. Apply (en_tz sample_env) now log f = Some (f', None, gs) \<and> written ''/fsm/set'' ?b f f'"
    by blast
  obtain f' gs where f: "Apply (en_tz sample_env) 7 \<lparr>log_Index = 1, log_Term = 1, log_Data = data\<rparr> NewKVStoreFSM = Some (f', None, gs)"
    "written ''/fsm/set'' ?b NewKVStoreFSM f'"
    using all [of NewKVStoreFSM "\<lparr>log_Index = 1, log_Term = 1, log_Data = data\<rparr>" 7] by auto
  have "fsm_Get f' ''city'' = (''ankara'', True)" using f(2) by (simp add: written_def d)
  then show ?thesis using i f(1) by (intro exI conjI) (simp_all add: sample_env_def)
qed

end
