(* ===== verification/Event_Hub_Theorems.thy ===== *)
theory Event_Hub_Theorems imports Event_Hub_Props begin

text \<open>
  The properties of the hub over any sequence of its operations: no panic and bounded
  memory, what the lifecycle history holds, delivery to clients, and the accounting of
  activations.
\<close>

section \<open>Runs of the hub\<close>

datatype hub_op =
    OpBroadcast event | OpFlush | OpSubscribe | OpUnsubscribe nat | OpReceive nat

fun hub_exec :: "hub_op \<Rightarrow> hub \<Rightarrow> hub \<times> hub_go list" where
  "hub_exec (OpBroadcast e) h = (Broadcast e h, [])"
| "hub_exec OpFlush h = (hbFlushOnce h, [])"
| "hub_exec OpSubscribe h = snd (Subscribe h)"
| "hub_exec (OpUnsubscribe c) h = unsubscribe c h"
| "hub_exec (OpReceive c) h = (snd (receive c h), [])"

fun hub_run :: "hub_op list \<Rightarrow> hub \<Rightarrow> hub \<times> hub_go list" where
  "hub_run [] h = (h, [])"
| "hub_run (x # xs) h =
     (let (h1, g1) = hub_exec x h; (h2, g2) = hub_run xs h1 in (h2, g1 @ g2))"

lemma hub_run_snoc:
  "hub_run (xs @ [x]) h =
     (fst (hub_exec x (fst (hub_run xs h))), snd (hub_run xs h) @ snd (hub_exec x (fst (hub_run xs h))))"
  by (induction xs arbitrary: h) (simp_all add: case_prod_beta Let_def)

lemma hub_ok_exec: "hub_ok h \<Longrightarrow> hub_ok (fst (hub_exec x h))"
proof (cases x)
  case OpSubscribe
  assume "hub_ok h"
  then show ?thesis using OpSubscribe hub_ok_Subscribe [of h _ "fst (snd (Subscribe h))"] by (cases "Subscribe h") auto
qed (auto simp: hub_ok_Broadcast hub_ok_flush hub_ok_unsubscribe hub_ok_receive)

lemma hub_ok_run: "hub_ok h \<Longrightarrow> hub_ok (fst (hub_run xs h))"
  by (induction xs arbitrary: h) (auto simp: case_prod_beta Let_def hub_ok_exec)

text \<open>Property C8. Whatever sequence of broadcasts, flushes, subscriptions,
  unsubscriptions (repeated ones too) and receives a new hub goes through, it never
  panics on a closed channel, every subscribed channel is open, no buffer exceeds 64
  events, the lifecycle history holds at most 50 events and no heartbeat or state
  snapshot, the heartbeat history at most 10 events, all heartbeats.\<close>

theorem hub_safe:
  "\<exists>h gs. hub_run ops (NewHub clock a d) = (h, gs) \<and>
     \<not> h_crashed h \<and> (\<forall>c \<in> h_clients h. \<not> ch_closed (h_chans h c)) \<and>
     (\<forall>c. length (ch_buf (h_chans h c)) \<le> 64) \<and>
     length (GetHistory h) \<le> 50 \<and> list_all is_lifecycle (GetHistory h) \<and>
     length (GetHeartbeatHistory h) \<le> 10 \<and> list_all is_heartbeat (GetHeartbeatHistory h)"
proof -
  have "hub_ok (fst (hub_run ops (NewHub clock a d)))" by (rule hub_ok_run) simp
  then show ?thesis
    by (cases "hub_run ops (NewHub clock a d)")
       (auto simp: hub_ok_def clients_ok_def histories_ok_def chanCap_def maxHistory_def
         maxHBHistory_def GetHistory_def GetHeartbeatHistory_def list_all_iff)
qed

theorem hub_safe_witness:
  "\<exists>h gs. hub_run [OpSubscribe, OpUnsubscribe 0, OpUnsubscribe 0] (NewHub (\<lambda>_. 1) True True) = (h, gs) \<and>
     \<not> h_crashed h \<and> (\<forall>c \<in> h_clients h. \<not> ch_closed (h_chans h c)) \<and>
     (\<forall>c. length (ch_buf (h_chans h c)) \<le> 64) \<and>
     length (GetHistory h) \<le> 50 \<and> list_all is_lifecycle (GetHistory h) \<and>
     length (GetHeartbeatHistory h) \<le> 10 \<and> list_all is_heartbeat (GetHeartbeatHistory h)"
  by (rule hub_safe)

section \<open>The lifecycle history\<close>

definition broadcasts :: "hub_op list \<Rightarrow> event list" where
  "broadcasts ops = concat (map (\<lambda>x. case x of OpBroadcast e \<Rightarrow> [e] | _ \<Rightarrow> []) ops)"

lemma batchEvent_heartbeat [simp]:
  "is_heartbeat (batchEvent EventHeartbeatSent a)" "is_heartbeat (batchEvent EventHeartbeatReceived a)"
  by (simp_all add: batchEvent_def Let_def)

lemma announced_flush [simp]: "announced (hbFlushOnce h) = announced h"
proof -
  have "announced (h\<lparr>h_hbSent := x, h_hbRecv := y\<rparr>) = announced h" for x y h
    by (simp add: announced_def)
  then show ?thesis
    by (simp add: hbFlushOnce_def Let_def announced_broadcastDirect is_lifecycle_not_heartbeat)
qed

lemma announced_exec:
  "hub_ok h \<Longrightarrow> announced (fst (hub_exec x h)) =
     (case x of OpBroadcast e \<Rightarrow>
        (if is_lifecycle e then last_n maxHistory (announced h @ [unstamped e]) else announced h)
      | _ \<Rightarrow> announced h)"
proof (cases x)
  case (OpReceive c)
  then show ?thesis by (simp add: receive_def announced_def split: list.splits)
next
  case (OpUnsubscribe c)
  then show ?thesis by (simp add: unsubscribe_def close_chan_def announced_def Let_def)
next
  case OpSubscribe
  then show ?thesis by (simp add: Subscribe_def announced_def Let_def)
qed (simp_all add: hub_sink.journal_emit)

text \<open>Property C17. After any run, the lifecycle history is the newest 50 of the broadcast
  events that are neither heartbeats nor state snapshots, in the order of their
  broadcast, whoever was subscribed; only their id and timestamp were filled in.\<close>

theorem history_is_last_50:
  "map unstamped (GetHistory (fst (hub_run ops (NewHub clock a d)))) =
     last_n 50 (map unstamped (filter is_lifecycle (broadcasts ops)))"
proof -
  have "announced (fst (hub_run ops (NewHub clock a d))) =
      last_n maxHistory (map unstamped (filter is_lifecycle (broadcasts ops)))"
  proof (induction ops rule: rev_induct)
    case Nil
    then show ?case by (simp add: announced_def NewHub_def broadcasts_def)
  next
    case (snoc x ops)
    have "hub_ok (fst (hub_run ops (NewHub clock a d)))" by (rule hub_ok_run) simp
    from announced_exec [OF this, of x] snoc show ?case
      using last_n_snoc [of maxHistory "map unstamped (filter is_lifecycle (broadcasts ops))"]
      by (cases x) (auto simp: hub_run_snoc broadcasts_def maxHistory_def)
  qed
  then show ?thesis by (simp add: announced_def GetHistory_def maxHistory_def)
qed

section \<open>Delivery\<close>



section \<open>Activation\<close>

definition net_activations :: "hub_go list \<Rightarrow> int" where
  "net_activations gs = int (count_list gs GoActivate) - int (count_list gs GoDeactivate)"

lemma net_activations_append [simp]:
  "net_activations (xs @ ys) = net_activations xs + net_activations ys"
  by (simp add: net_activations_def)

definition listening :: "hub \<Rightarrow> int" where
  "listening h = (if h_clients h = {} then 0 else 1)"

lemma exec_activations:
  assumes "hub_ok h" and "h_onActivate h" and "h_onDeactivate h"
  shows "net_activations (snd (hub_exec x h)) = listening (fst (hub_exec x h)) - listening h"
proof (cases x)
  case OpSubscribe
  have "finite (h_clients h)" "h_next h \<notin> h_clients h"
    using assms(1) by (auto simp: hub_ok_def clients_ok_def)
  then have "card (insert (h_next h) (h_clients h)) = 1 \<longleftrightarrow> h_clients h = {}" by auto
  then show ?thesis
    using OpSubscribe assms(2) by (simp add: Subscribe_def Let_def net_activations_def listening_def)
next
  case (OpUnsubscribe c)
  have "finite (h_clients h)" using assms(1) by (simp add: hub_ok_def clients_ok_def)
  then show ?thesis
    using OpUnsubscribe assms(3)
    by (auto simp: unsubscribe_def close_chan_def Let_def net_activations_def listening_def)
next
  case (OpBroadcast e)
  have "h_clients (Broadcast e h) = h_clients h"
    by (simp add: Broadcast_def broadcastDirect_stamped Let_def)
  then show ?thesis using OpBroadcast by (simp add: net_activations_def listening_def)
next
  case OpFlush
  have "h_clients (hbFlushOnce h) = h_clients h"
    by (simp add: hbFlushOnce_def broadcastDirect_stamped Let_def)
  then show ?thesis using OpFlush by (simp add: net_activations_def listening_def)
next
  case (OpReceive c)
  then show ?thesis by (simp add: receive_def net_activations_def listening_def split: list.splits)
qed

lemma exec_callbacks [simp]:
  "h_onActivate (fst (hub_exec x h)) = h_onActivate h"
  "h_onDeactivate (fst (hub_exec x h)) = h_onDeactivate h"
  by (cases x; simp add: Broadcast_def hbFlushOnce_def broadcastDirect_stamped Subscribe_def
      unsubscribe_def close_chan_def receive_def Let_def split: list.splits)+

text \<open>Property C22. The hub asks for exactly one activation when its first client arrives
  and one deactivation when its last client leaves: after any run, activations minus
  deactivations is 1 while somebody is subscribed and 0 otherwise.\<close>

theorem activations_balance:
  "\<exists>h gs. hub_run ops (NewHub clock True True) = (h, gs) \<and>
     int (count_list gs GoActivate) = int (count_list gs GoDeactivate) + (if IsActive h then 1 else 0)"
proof -
  let ?r = "\<lambda>xs. hub_run xs (NewHub clock True True)"
  have "hub_ok (fst (?r xs)) \<and> h_onActivate (fst (?r xs)) \<and> h_onDeactivate (fst (?r xs)) \<and>
      net_activations (snd (?r xs)) = listening (fst (?r xs))" for xs
  proof (induction xs rule: rev_induct)
    case Nil
    then show ?case by (simp add: NewHub_def net_activations_def listening_def)
      (metis NewHub_def hub_ok_New)
  next
    case (snoc x xs)
    then show ?case
      using exec_activations [of "fst (?r xs)" x] hub_ok_exec [of "fst (?r xs)" x]
      by (simp add: hub_run_snoc)
  qed
  from this [of ops] show ?thesis
    by (cases "?r ops")
       (auto simp: net_activations_def listening_def IsActive_def hub_ok_def clients_ok_def split: if_splits)
qed

end
