(* ===== verification/Event_Stream.thy ===== *)
theory Event_Stream imports Event_Hub_Theorems begin

text \<open>
  What one client of the hub of \<open>internal/events/hub.go\<close> sees: the events that are
  published while it is subscribed, as they pass through its channel, and what the
  histories hold meanwhile.  The event stream of \<open>internal/api/handler.go\<close> rests on it.
\<close>

section \<open>What an operation publishes\<close>

text \<open>The stamped events an operation hands to the clients.\<close>

fun published :: "hub_op \<Rightarrow> hub \<Rightarrow> event list" where
  "published (OpBroadcast e) h = (if is_heartbeat e then [] else [stamped e h])"
| "published OpFlush h =
     (let h1 = h\<lparr>h_hbSent := newHBAccum, h_hbRecv := newHBAccum\<rparr>;
          sent = batchEvent EventHeartbeatSent (h_hbSent h); recv = batchEvent EventHeartbeatReceived (h_hbRecv h);
          h2 = (if hb_count (h_hbSent h) > 0 then broadcastDirect sent h1 else h1)
      in (if hb_count (h_hbSent h) > 0 then [stamped sent h1] else [])
         @ (if hb_count (h_hbRecv h) > 0 then [stamped recv h2] else []))"
| "published _ h = []"

fun published_run :: "hub_op list \<Rightarrow> hub \<Rightarrow> event list" where
  "published_run [] h = []"
| "published_run (x # xs) h = published x h @ published_run xs (fst (hub_exec x h))"

lemma hub_run_Cons_fst [simp]: "fst (hub_run (x # xs) h) = fst (hub_run xs (fst (hub_exec x h)))"
  by (simp add: case_prod_beta Let_def)

lemma hub_run_append_fst [simp]: "fst (hub_run (xs @ ys) h) = fst (hub_run ys (fst (hub_run xs h)))"
  by (induction xs arbitrary: h) (simp_all del: hub_run.simps(2))

lemma published_run_append [simp]:
  "published_run (xs @ ys) h = published_run xs h @ published_run ys (fst (hub_run xs h))"
  by (induction xs arbitrary: h) (simp_all del: hub_run.simps(2))

text \<open>The operations of the others do not receive from the client's channel nor close it.\<close>

fun leaves :: "nat \<Rightarrow> hub_op \<Rightarrow> bool" where
  "leaves ch (OpUnsubscribe c) = (c \<noteq> ch)"
| "leaves ch (OpReceive c) = (c \<noteq> ch)"
| "leaves ch _ = True"

section \<open>A subscribed client\<close>

definition subscribed :: "nat \<Rightarrow> hub \<Rightarrow> bool" where
  "subscribed ch h \<longleftrightarrow> hub_ok h \<and> ch \<in> h_clients h"

abbreviation buffer :: "nat \<Rightarrow> hub \<Rightarrow> event list" where
  "buffer ch h \<equiv> ch_buf (h_chans h ch)"

text \<open>From \<open>h\<close> to \<open>h'\<close> the events \<open>evs\<close> were published: the client that has room for them
  has them, in order, and the histories hold the newest.\<close>

definition took :: "nat \<Rightarrow> hub \<Rightarrow> event list \<Rightarrow> hub \<Rightarrow> bool" where
  "took ch h evs h' \<longleftrightarrow> subscribed ch h' \<and>
     (length (buffer ch h) + length evs \<le> chanCap \<longrightarrow> buffer ch h' = buffer ch h @ evs) \<and>
     h_history h' = last_n maxHistory (h_history h @ filter is_lifecycle evs) \<and>
     h_heartbeatHistory h' = last_n maxHBHistory (h_heartbeatHistory h @ filter is_heartbeat evs)"

lemma took_trans: "took ch h as h1 \<Longrightarrow> took ch h1 bs h2 \<Longrightarrow> took ch h (as @ bs) h2"
  using last_n_append [of maxHistory "h_history h @ filter is_lifecycle as"]
    last_n_append [of maxHBHistory "h_heartbeatHistory h @ filter is_heartbeat as"]
  by (simp add: took_def)

lemma took_nothing:
  assumes "subscribed ch h'" and "buffer ch h' = buffer ch h" and "h_history h' = h_history h"
    and "h_heartbeatHistory h' = h_heartbeatHistory h"
  shows "took ch h [] h'"
  using assms by (auto simp: took_def subscribed_def hub_ok_def histories_ok_def)

lemma took_same: "subscribed ch h \<Longrightarrow> took ch h [] h"
  by (rule took_nothing) simp_all

lemma subscribed_active: "subscribed ch h \<Longrightarrow> IsActive h"
  by (auto simp: subscribed_def IsActive_def hub_ok_def clients_ok_def card_gt_0_iff)

lemma took_direct:
  assumes "subscribed ch h"
  shows "took ch h [stamped e h] (broadcastDirect e h)"
proof -
  let ?h3 = "record_event (stamped e h) (stamping e h)"
  have ok: "hub_ok ?h3" using assms by (simp add: subscribed_def hub_ok_record)
  then have c: "clients_ok ?h3" by (simp add: hub_ok_def)
  have "IsActive ?h3" using subscribed_active [OF assms] by (simp add: IsActive_def)
  then have b: "broadcastDirect e h = deliver (stamped e h) ?h3"
    by (simp add: broadcastDirect_stamped Let_def)
  have ch: "ch \<in> h_clients ?h3" using assms by (simp add: subscribed_def)
  have "subscribed ch (deliver (stamped e h) ?h3)"
    using ch hub_ok_deliver [OF ok] by (simp add: subscribed_def)
  moreover have "h_history h = last_n maxHistory (h_history h)" "h_heartbeatHistory h = last_n maxHBHistory (h_heartbeatHistory h)"
    using assms by (simp_all add: subscribed_def hub_ok_def histories_ok_def)
  ultimately show ?thesis
    using ch by (auto simp: took_def b deliver_ok_eq [OF c] offer_def record_event_histories)
qed

lemma took_broadcast:
  assumes "subscribed ch h"
  shows "took ch h (published (OpBroadcast e) h) (Broadcast e h)"
proof (cases "is_heartbeat e")
  case True
  have "subscribed ch (Broadcast e h)"
    using assms True by (auto simp: subscribed_def hub_ok_accumulate Broadcast_def)
  then show ?thesis
    using True took_nothing [of ch "Broadcast e h" h] by (auto simp: Broadcast_def)
next
  case False
  then show ?thesis using took_direct [OF assms] by (simp add: Broadcast_def)
qed

lemma took_flush:
  assumes "subscribed ch h"
  shows "took ch h (published OpFlush h) (hbFlushOnce h)"
proof -
  let ?h1 = "h\<lparr>h_hbSent := newHBAccum, h_hbRecv := newHBAccum\<rparr>"
  let ?sent = "batchEvent EventHeartbeatSent (h_hbSent h)" and ?recv = "batchEvent EventHeartbeatReceived (h_hbRecv h)"
  let ?h2 = "if hb_count (h_hbSent h) > 0 then broadcastDirect ?sent ?h1 else ?h1"
  let ?h3 = "if hb_count (h_hbRecv h) > 0 then broadcastDirect ?recv ?h2 else ?h2"
  let ?p1 = "if hb_count (h_hbSent h) > 0 then [stamped ?sent ?h1] else []"
  let ?p2 = "if hb_count (h_hbRecv h) > 0 then [stamped ?recv ?h2] else []"
  have s1: "subscribed ch ?h1"
    using assms clients_ok_cong [of ?h1 h] histories_ok_cong [of ?h1 h]
    by (simp add: subscribed_def hub_ok_def accums_ok_def newHBAccum_def)
  have 1: "took ch h [] ?h1" by (rule took_nothing [OF s1]) simp_all
  have 2: "took ch ?h1 ?p1 ?h2" using took_direct [OF s1, of ?sent] took_same [OF s1] by simp
  then have s2: "subscribed ch ?h2" by (simp add: took_def)
  have 3: "took ch ?h2 ?p2 ?h3" using took_direct [OF s2, of ?recv] took_same [OF s2] by simp
  have all: "took ch h (?p1 @ ?p2) ?h3"
    using took_trans [OF took_trans [OF 1 2] 3] by simp
  show ?thesis
  proof (cases "hb_count (h_hbSent h) = 0 \<and> hb_count (h_hbRecv h) = 0")
    case True
    then show ?thesis using took_same [OF assms] by (simp add: hbFlushOnce_def Let_def)
  next
    case False
    then show ?thesis using all took_same [OF assms] by (simp add: hbFlushOnce_def Let_def)
  qed
qed

lemma took_exec:
  assumes "subscribed ch h" and "leaves ch x"
  shows "took ch h (published x h) (fst (hub_exec x h))"
proof (cases x)
  case OpSubscribe
  have "ch < h_next h" using assms(1) by (auto simp: subscribed_def hub_ok_def clients_ok_def)
  moreover have "hub_ok (fst (snd (Subscribe h)))"
    using assms(1) hub_ok_Subscribe [of h _ "fst (snd (Subscribe h))"] by (cases "Subscribe h") (auto simp: subscribed_def)
  ultimately show ?thesis
    using OpSubscribe assms(1) by (auto intro!: took_nothing simp: subscribed_def Subscribe_def Let_def)
next
  case (OpUnsubscribe c)
  then have "c \<noteq> ch" using assms(2) by simp
  moreover have "hub_ok (fst (unsubscribe c h))" using assms(1) by (simp add: subscribed_def hub_ok_unsubscribe)
  ultimately show ?thesis
    using OpUnsubscribe assms(1) unsubscribe_eq [of h c]
    by (cases "c \<in> h_clients h") (auto intro!: took_nothing simp: subscribed_def hub_ok_def unsubscribe_def)
next
  case (OpReceive c)
  then have "c \<noteq> ch" using assms(2) by simp
  moreover have "hub_ok (snd (receive c h))" using assms(1) by (simp add: subscribed_def hub_ok_receive)
  ultimately show ?thesis
    using OpReceive assms(1) by (auto intro!: took_nothing simp: subscribed_def receive_def split: list.splits)
qed (use assms took_broadcast took_flush in auto)

lemma took_run:
  assumes "subscribed ch h" and "\<forall>x \<in> set xs. leaves ch x"
  shows "took ch h (published_run xs h) (fst (hub_run xs h))"
  using assms
proof (induction xs arbitrary: h)
  case Nil
  then show ?case using took_same by simp
next
  case (Cons x xs)
  have 1: "took ch h (published x h) (fst (hub_exec x h))" using took_exec Cons.prems by simp
  then have "subscribed ch (fst (hub_exec x h))" by (simp add: took_def)
  from Cons.IH [OF this] Cons.prems(2) took_trans [OF 1] show ?case by (simp del: hub_run.simps(2))
qed

lemma subscribed_Subscribe:
  assumes "hub_ok h"
  shows "subscribed (h_next h) (fst (snd (Subscribe h)))" "buffer (h_next h) (fst (snd (Subscribe h))) = []"
    "h_history (fst (snd (Subscribe h))) = h_history h"
    "h_heartbeatHistory (fst (snd (Subscribe h))) = h_heartbeatHistory h" "fst (Subscribe h) = h_next h"
proof -
  have "hub_ok (fst (snd (Subscribe h)))"
    using assms hub_ok_Subscribe [of h _ "fst (snd (Subscribe h))"] by (cases "Subscribe h") auto
  then show "subscribed (h_next h) (fst (snd (Subscribe h)))"
    by (simp add: subscribed_def) (simp add: Subscribe_def Let_def)
qed (simp_all add: Subscribe_def Let_def)

end
