(* ===== verification/Api_Stream.thy ===== *)
theory Api_Stream imports Api_Theorems Event_Stream begin

text \<open>
  The event stream of \<open>internal/api/handler.go\<close>: what a client of \<open>GET /events\<close> receives
  while the other goroutines of the node publish events, subscribe and unsubscribe at any
  moment between two steps of the handler.
\<close>

section \<open>Writing frames\<close>

lemma fold_writeSSE_body: "rw_body (fold (writeSSE tz) evs r) = rw_body r @ concat (map (sse_frame tz) evs)"
  by (induction evs arbitrary: r) (simp_all add: writeSSE_def)

lemma sse_headers_body [simp]: "rw_body (sse_headers r) = rw_body r"
  by (simp add: sse_headers_def)

section \<open>The loop\<close>

text \<open>What the other goroutines do between two steps, on the hub.\<close>

definition on_hub :: "hub_op list \<Rightarrow> node \<Rightarrow> node" where
  "on_hub ops n = n\<lparr>n_hub := fst (hub_run ops (n_hub n))\<rparr>"

lemma on_hub_sel [simp]: "n_hub (on_hub ops n) = fst (hub_run ops (n_hub n))"
  by (simp add: on_hub_def)

text \<open>The client keeps up: before each of its turns its buffer has room for what is
  published, of which it then takes one.\<close>

fun keeps_up :: "nat \<Rightarrow> hub_op list list \<Rightarrow> hub \<Rightarrow> bool" where
  "keeps_up ch [] h = True"
| "keeps_up ch (ops # rest) h =
     (length (buffer ch h) + length (published_run ops h) \<le> chanCap \<and>
      keeps_up ch rest (snd (receive ch (fst (hub_run ops h)))))"

fun live_events :: "nat \<Rightarrow> hub_op list list \<Rightarrow> hub \<Rightarrow> event list" where
  "live_events ch [] h = []"
| "live_events ch (ops # rest) h =
     published_run ops h @ live_events ch rest (snd (receive ch (fst (hub_run ops h))))"

lemma receive_subscribed:
  assumes "subscribed ch h"
  shows "subscribed ch (snd (receive ch h))"
    "buffer ch (snd (receive ch h)) = tl (buffer ch h)"
    "fst (receive ch h) = (case buffer ch h of [] \<Rightarrow> None | e # es \<Rightarrow> Some e)"
    "\<not> ch_closed (h_chans h ch)"
proof -
  show "subscribed ch (snd (receive ch h))"
    using assms hub_ok_receive [of h ch] by (auto simp: subscribed_def receive_def split: list.splits)
  show "\<not> ch_closed (h_chans h ch)"
    using assms by (auto simp: subscribed_def hub_ok_def clients_ok_def)
qed (simp_all add: receive_def split: list.split)

lemma receive_empty: "buffer ch h = [] \<Longrightarrow> snd (receive ch h) = h"
  by (simp add: receive_def)

lemma sse_live_sent:
  assumes "subscribed ch (n_hub n)" and "\<forall>ops \<in> set ws. \<forall>x \<in> set ops. leaves ch x"
    and "keeps_up ch ws (n_hub n)" and "sse_live tz ch (map on_hub ws) n r = (n', r')"
  shows "\<exists>sent. r' = fold (writeSSE tz) sent r \<and> subscribed ch (n_hub n') \<and>
     sent @ buffer ch (n_hub n') = buffer ch (n_hub n) @ live_events ch ws (n_hub n)"
  using assms
proof (induction ws arbitrary: n r)
  case Nil
  then show ?case by (intro exI [of _ "[]"]) simp
next
  case (Cons ops ws)
  let ?h = "n_hub n" and ?n1 = "on_hub ops n"
  let ?h1 = "fst (hub_run ops ?h)"
  let ?h2 = "snd (receive ch ?h1)"
  have t: "took ch ?h (published_run ops ?h) ?h1" using took_run Cons.prems(1,2) by simp
  then have b: "buffer ch ?h1 = buffer ch ?h @ published_run ops ?h" and s1: "subscribed ch ?h1"
    using Cons.prems(3) by (simp_all add: took_def)
  note rec = receive_subscribed [OF s1]
  have keep: "keeps_up ch ws ?h2" and leave: "\<forall>ops \<in> set ws. \<forall>x \<in> set ops. leaves ch x"
    using Cons.prems(2,3) by simp_all
  show ?case
  proof (cases "buffer ch ?h1")
    case Nil
    have "?h2 = ?h1" using Nil by (rule receive_empty)
    then have "sse_live tz ch (map on_hub ws) ?n1 r = (n', r')"
      using Cons.prems(4) rec(3,4) Nil by (simp add: Let_def case_prod_beta split: option.splits)
    from Cons.IH [OF _ leave _ this] s1 keep \<open>?h2 = ?h1\<close> b Nil show ?thesis by simp
  next
    case (Cons e es)
    obtain h2 where h2: "receive ch ?h1 = (Some e, h2)"
      using rec(3) Cons by (cases "receive ch ?h1") simp
    then have r2: "?h2 = h2" by simp
    have "sse_live tz ch (map on_hub ws) (?n1\<lparr>n_hub := h2\<rparr>) (writeSSE tz e r) = (n', r')"
      using \<open>sse_live tz ch (map on_hub (ops # ws)) n r = (n', r')\<close> h2 by (simp add: Let_def)
    from Cons.IH [OF _ leave _ this] rec(1) keep obtain sent where
      "r' = fold (writeSSE tz) sent (writeSSE tz e r)" "subscribed ch (n_hub n')"
      "sent @ buffer ch (n_hub n') = buffer ch h2 @ live_events ch ws h2"
      unfolding r2 by auto
    moreover have "e # buffer ch h2 = buffer ch ?h @ published_run ops ?h" using rec(2) b Cons r2 by (metis list.sel(3))
    then have "(e # buffer ch h2) @ live_events ch ws h2 = buffer ch ?h @ live_events ch (ops # ws) ?h"
      using r2 by simp
    ultimately show ?thesis by (intro exI [of _ "e # sent"]) simp
  qed
qed

section \<open>The whole stream\<close>

definition state_event_sse :: "engine \<Rightarrow> node \<Rightarrow> event" where
  "state_event_sse e n = mk_event EventStateSnapshot [] 0 [] (VState (GetState e n))"

definition sync_event :: event where
  "sync_event = mk_event EventSyncComplete [] 0 [] (VMap [])"

text \<open>Property C7. A client of the event stream that keeps up misses nothing and gets
  everything in order: a snapshot of the cluster, the newest 50 lifecycle events and the
  newest 10 heartbeat batches, the end-of-history mark, and then every event published
  since it subscribed, but for those still in its channel when it went.  So an event
  published between its subscription and the reading of the history comes twice, and none
  is lost between the two.  When the client has gone it is unsubscribed and its channel
  is closed once.\<close>

theorem stream_complete:
  assumes "hub_ok (n_hub (s_node s))" and "en_flusher env"
    and "en_others env = (\<lambda>k. on_hub (others k))" and "en_wakes env = map on_hub ws"
    and "ch = h_next (n_hub (s_node s))"
    and "\<forall>ops \<in> set (others 0 # others 1 # others 2 # ws). \<forall>x \<in> set ops. leaves ch x"
    and "h1 = fst (snd (Subscribe (n_hub (s_node s))))"
    and "early = published_run (others 0 @ others 1 @ others 2) h1" and "length early \<le> chanCap"
    and "h2 = fst (hub_run (others 0 @ others 1 @ others 2) h1)" and "keeps_up ch ws h2"
    and "handleSSEEvents env req s r = (s', r', effs)"
  shows "\<exists>n1 sent unread. sent @ unread = early @ live_events ch ws h2 \<and> length unread \<le> 64 \<and>
     rw_body r' = rw_body r @ concat (map (sse_frame (en_tz env))
       ([state_event_sse (en_engine env) n1]
        @ last_n 50 (h_history (n_hub (s_node s)) @ filter is_lifecycle (published_run (others 0 @ others 1) h1))
        @ last_n 10 (h_heartbeatHistory (n_hub (s_node s)) @ filter is_heartbeat early)
        @ [sync_event] @ sent)) \<and>
     ch \<notin> h_clients (n_hub (s_node s')) \<and> hub_ok (n_hub (s_node s'))"
proof -
  let ?tz = "en_tz env" and ?h0 = "n_hub (s_node s)"
  note sub = subscribed_Subscribe [OF assms(1), folded assms(5) assms(7)]
  have l01: "\<forall>x \<in> set (others 0 @ others 1). leaves ch x" and l: "\<forall>x \<in> set (others 0 @ others 1 @ others 2). leaves ch x"
    and lw: "\<forall>ops \<in> set ws. \<forall>x \<in> set ops. leaves ch x"
    using assms(6) by auto
  note t01 = took_run [OF sub(1) l01] and t = took_run [OF sub(1) l, folded assms(8) assms(10)]
  have buf: "buffer ch h2 = early" and s2: "subscribed ch h2" using t sub(2) assms(9) by (simp_all add: took_def)
  obtain gs where S: "Subscribe ?h0 = (ch, h1, gs)"
    using sub(5) assms(7) by (cases "Subscribe ?h0") auto
  let ?n1 = "on_hub (others 0) (s_node s\<lparr>n_hub := h1\<rparr>)"
  let ?n3 = "on_hub (others 2) (on_hub (others 1) ?n1)"
  have n3: "n_hub ?n3 = h2" and n2: "n_hub (on_hub (others 1) ?n1) = fst (hub_run (others 0 @ others 1) h1)"
    by (simp_all add: assms(10))
  define r4 where "r4 = writeSSE ?tz sync_event (fold (writeSSE ?tz) (h_heartbeatHistory h2)
    (fold (writeSSE ?tz) (h_history (fst (hub_run (others 0 @ others 1) h1)))
      (writeSSE ?tz (state_event_sse (en_engine env) ?n1) (sse_headers r))))"
  obtain n4 r5 where live: "sse_live ?tz ch (map on_hub ws) ?n3 r4 = (n4, r5)" by fastforce
  have "n_hub ?n3 = h2" by (rule n3)
  with live obtain sent where sent: "r5 = fold (writeSSE ?tz) sent r4" "subscribed ch (n_hub n4)"
    "sent @ buffer ch (n_hub n4) = early @ live_events ch ws h2"
    using sse_live_sent [of ch ?n3 ws ?tz r4 n4 r5] s2 lw assms(11) unfolding n3 buf by blast
  have res: "s' = s\<lparr>s_node := n4\<lparr>n_hub := fst (unsubscribe ch (n_hub n4))\<rparr>\<rparr>" "r' = r5"
    using assms(12) live S n2 n3
    by (simp_all add: handleSSEEvents_def assms(2-4) GetHistory_def GetHeartbeatHistory_def
        state_event_sse_def [symmetric] sync_event_def [symmetric] r4_def case_prod_beta Let_def)
  have gone: "ch \<notin> h_clients (n_hub (s_node s'))" "hub_ok (n_hub (s_node s'))"
    using sent(2) unsubscribe_eq [of "n_hub n4" ch] hub_ok_unsubscribe [of "n_hub n4" ch]
    by (simp_all add: res subscribed_def hub_ok_def)
  have room: "length (buffer ch (n_hub n4)) \<le> 64"
    using sent(2) by (simp add: subscribed_def hub_ok_def clients_ok_def chanCap_def)
  have body: "rw_body r' = rw_body r @ concat (map (sse_frame ?tz)
       ([state_event_sse (en_engine env) ?n1]
        @ last_n 50 (h_history ?h0 @ filter is_lifecycle (published_run (others 0 @ others 1) h1))
        @ last_n 10 (h_heartbeatHistory ?h0 @ filter is_heartbeat early) @ [sync_event] @ sent))"
    using t01 t sub(3,4) unfolding res(2) sent(1) fold_writeSSE_body r4_def
    by (simp add: took_def fold_writeSSE_body writeSSE_def maxHistory_def maxHBHistory_def)
  show ?thesis using sent(3) room body gone by blast
qed

definition stream_env :: api_env where
  "stream_env = sample_env\<lparr>en_others := (\<lambda>k. on_hub (if k = 1 then [OpBroadcast (mk_event EventLeaderChanged ''node-1'' 3 [] VNil)] else [])),
     en_wakes := map on_hub [[]]\<rparr>"

theorem stream_complete_witness:
  "\<exists>n1 sent unread e. unstamped e = mk_event EventLeaderChanged ''node-1'' 3 [] VNil \<and> sent @ unread = [e] \<and>
     rw_body (fst (snd (handleSSEEvents stream_env (post [] []) sample_server new_response))) =
       concat (map (sse_frame sample_tz)
         ([state_event_sse (\<lambda>_. sample_reading) n1] @ [e] @ [sync_event] @ sent))"
proof -
  let ?e = "mk_event EventLeaderChanged ''node-1'' 3 [] VNil" and ?h0 = "n_hub sample_node"
  let ?others = "\<lambda>k::nat. if k = 1 then [OpBroadcast ?e] else []"
  obtain s' r' effs where a: "handleSSEEvents stream_env (post [] []) sample_server new_response = (s', r', effs)"
    by (cases "handleSSEEvents stream_env (post [] []) sample_server new_response")
  have n: "s_node sample_server = sample_node" by (simp add: sample_server_def NewServer_def)
  have ok: "hub_ok (n_hub (s_node sample_server))" using sample_node_ok by (simp add: n node_ok_def)
  have env: "en_flusher stream_env" "en_others stream_env = (\<lambda>k. on_hub (?others k))"
    "en_wakes stream_env = map on_hub [[]]" "en_tz stream_env = sample_tz" "en_engine stream_env = (\<lambda>_. sample_reading)"
    by (simp_all add: stream_env_def sample_env_def)
  let ?h1 = "fst (snd (Subscribe ?h0))" and ?ch = "h_next ?h0"
  let ?st = "stamped ?e ?h1"
  have early: "published_run (?others 0 @ ?others 1 @ ?others 2) ?h1 = [?st]" by simp
  have hist: "h_history ?h0 = []" "h_heartbeatHistory ?h0 = []"
    by (simp_all add: sample_node_def initial_node_def NewHub_def)
  have keep: "keeps_up ?ch [[]] (fst (hub_run (?others 0 @ ?others 1 @ ?others 2) ?h1))"
  proof -
    have "took ?ch ?h1 [?st] (Broadcast ?e ?h1)"
      using took_broadcast [OF subscribed_Subscribe(1), of ?h0 ?e] ok by (simp add: n)
    then have "buffer ?ch (Broadcast ?e ?h1) = [?st]"
      using subscribed_Subscribe(2) [of ?h0] ok by (simp add: took_def chanCap_def n)
    then show ?thesis by (simp add: chanCap_def)
  qed
  obtain n1 sent unread where "sent @ unread = [?st] @ live_events ?ch [[]] (fst (hub_run (?others 0 @ ?others 1 @ ?others 2) ?h1))"
    "rw_body r' = rw_body new_response @ concat (map (sse_frame sample_tz)
       ([state_event_sse (\<lambda>_. sample_reading) n1] @ last_n 50 ([] @ filter is_lifecycle (published_run (?others 0 @ ?others 1) ?h1))
        @ last_n 10 ([] @ filter is_heartbeat [?st]) @ [sync_event] @ sent))"
    using stream_complete [OF ok env(1,2,3) refl _ refl refl _ refl _ a, unfolded n early hist env(4,5)] keep
    by (auto simp: chanCap_def)
  then show ?thesis using a
    by (intro exI [of _ n1] exI [of _ sent] exI [of _ unread] exI [of _ ?st]) simp
qed

section \<open>The backlog drains\<close>

lemma live_events_quiet [simp]: "live_events ch (ws @ replicate k []) h = live_events ch ws h"
proof (induction ws arbitrary: h)
  case Nil
  show ?case by (induction k arbitrary: h) simp_all
qed simp

lemma keeps_up_quiet:
  assumes "subscribed ch h" and "\<forall>ops \<in> set ws. \<forall>x \<in> set ops. leaves ch x" and "keeps_up ch ws h"
  shows "keeps_up ch (ws @ replicate k []) h"
  using assms
proof (induction ws arbitrary: h)
  case Nil
  then have "keeps_up ch (replicate k []) h"
  proof (induction k arbitrary: h)
    case (Suc k)
    have "length (buffer ch h) \<le> chanCap" using Suc.prems(1) by (simp add: subscribed_def hub_ok_def clients_ok_def)
    then show ?case using Suc receive_subscribed(1) [OF Suc.prems(1)] by simp
  qed simp
  then show ?case by simp
next
  case (Cons ops ws)
  have "subscribed ch (fst (hub_run ops h))" using took_run [OF Cons.prems(1), of ops] Cons.prems(2) by (simp add: took_def)
  then show ?case using Cons.IH [OF receive_subscribed(1)] Cons.prems(2,3) by simp
qed

lemma sse_live_append:
  "subscribed ch (n_hub n) \<Longrightarrow> \<forall>ops \<in> set ws. \<forall>x \<in> set ops. leaves ch x \<Longrightarrow>
   sse_live tz ch (map on_hub ws @ vs) n r =
     (let (n1, r1) = sse_live tz ch (map on_hub ws) n r in sse_live tz ch vs n1 r1)"
proof (induction ws arbitrary: n r)
  case (Cons ops ws)
  let ?h1 = "fst (hub_run ops (n_hub n))"
  have s1: "subscribed ch ?h1" using took_run [OF Cons.prems(1), of ops] Cons.prems(2) by (simp add: took_def)
  obtain x h2 where x: "receive ch ?h1 = (x, h2)" by fastforce
  then have s2: "subscribed ch h2" using receive_subscribed(1) [OF s1] by simp
  show ?case
    using x s1 s2 receive_subscribed(4) [OF s1] Cons.prems(2) Cons.IH [of "on_hub ops n"]
      Cons.IH [of "on_hub ops n\<lparr>n_hub := h2\<rparr>"]
    by (simp add: Let_def split: option.split)
qed (simp add: Let_def)

lemma sse_live_quiet:
  assumes "subscribed ch (n_hub n)" and "length (buffer ch (n_hub n)) \<le> k"
    and "sse_live tz ch (map on_hub (replicate k [])) n r = (n', r')"
  shows "buffer ch (n_hub n') = []"
  using assms
proof (induction k arbitrary: n r)
  case (Suc k)
  obtain x h2 where x: "receive ch (n_hub n) = (x, h2)" by fastforce
  then have s2: "subscribed ch h2" "buffer ch h2 = tl (buffer ch (n_hub n))"
    "x = (case buffer ch (n_hub n) of [] \<Rightarrow> None | e # es \<Rightarrow> Some e)"
    using receive_subscribed [OF Suc.prems(1)] by simp_all
  have on: "on_hub [] n = n" by (simp add: on_hub_def)
  show ?case
  proof (cases "buffer ch (n_hub n)")
    case Nil
    then show ?thesis
      using Suc.IH [of n r] Suc.prems x s2(3) receive_subscribed(4) [OF Suc.prems(1)] on by (simp add: Let_def)
  next
    case (Cons e es)
    then show ?thesis
      using Suc.IH [of "n\<lparr>n_hub := h2\<rparr>" "writeSSE tz e r"] Suc.prems x s2 on by (simp add: Let_def)
  qed
qed simp

text \<open>Property C19. A client that keeps up gets everything: once 64 turns of the loop have
  passed in which nothing new was published, every event published since it subscribed
  has been written to it, in order, and its channel is empty.\<close>

theorem stream_drains:
  assumes "subscribed ch (n_hub n)" and "\<forall>ops \<in> set ws. \<forall>x \<in> set ops. leaves ch x"
    and "keeps_up ch ws (n_hub n)"
    and "sse_live tz ch (map on_hub (ws @ replicate 64 [])) n r = (n', r')"
  shows "rw_body r' = rw_body r @ concat (map (sse_frame tz) (buffer ch (n_hub n) @ live_events ch ws (n_hub n))) \<and>
     buffer ch (n_hub n') = []"
proof -
  have l: "\<forall>ops \<in> set (ws @ replicate 64 []). \<forall>x \<in> set ops. leaves ch x" using assms(2) by auto
  obtain sent where sent: "r' = fold (writeSSE tz) sent r"
    "sent @ buffer ch (n_hub n') = buffer ch (n_hub n) @ live_events ch ws (n_hub n)"
    using sse_live_sent [OF assms(1) l keeps_up_quiet [OF assms(1-3)] assms(4)] by auto
  obtain n1 r1 where 1: "sse_live tz ch (map on_hub ws) n r = (n1, r1)" by fastforce
  then have 2: "sse_live tz ch (map on_hub (replicate 64 [])) n1 r1 = (n', r')"
    using assms(4) sse_live_append [OF assms(1,2), of tz "map on_hub (replicate 64 [])"] by (simp only: map_append Let_def prod.case)
  have s1: "subscribed ch (n_hub n1)" using sse_live_sent [OF assms(1-3) 1] by blast
  then have "length (buffer ch (n_hub n1)) \<le> 64" by (simp add: subscribed_def hub_ok_def clients_ok_def chanCap_def)
  from sse_live_quiet [OF s1 this 2] show ?thesis using sent by (simp add: fold_writeSSE_body)
qed

theorem stream_drains_witness:
  "\<exists>n' r' e. sse_live sample_tz 0 (map on_hub ([[OpBroadcast (mk_event EventLeaderChanged ''node-1'' 3 [] VNil)]] @ replicate 64 []))
       (sample_node\<lparr>n_hub := fst (snd (Subscribe (n_hub sample_node)))\<rparr>) new_response = (n', r') \<and>
     unstamped e = mk_event EventLeaderChanged ''node-1'' 3 [] VNil \<and> rw_body r' = sse_frame sample_tz e"
proof -
  let ?e = "mk_event EventLeaderChanged ''node-1'' 3 [] VNil" and ?h0 = "n_hub sample_node"
  let ?h1 = "fst (snd (Subscribe ?h0))" and ?n = "sample_node\<lparr>n_hub := fst (snd (Subscribe (n_hub sample_node)))\<rparr>"
  have ok: "hub_ok ?h0" using sample_node_ok by (simp add: node_ok_def)
  have ch: "h_next ?h0 = 0" by (simp add: sample_node_def initial_node_def NewHub_def)
  note sub = subscribed_Subscribe(1,2) [OF ok, unfolded ch]
  obtain n' r' where run: "sse_live sample_tz 0 (map on_hub ([[OpBroadcast ?e]] @ replicate 64 [])) ?n new_response = (n', r')"
    by (cases "sse_live sample_tz 0 (map on_hub ([[OpBroadcast ?e]] @ replicate 64 [])) ?n new_response")
  have "rw_body r' = rw_body new_response @ concat (map (sse_frame sample_tz) (buffer 0 (n_hub ?n) @ live_events 0 [[OpBroadcast ?e]] (n_hub ?n)))"
    using stream_drains [OF _ _ _ run] sub by (simp add: chanCap_def)
  then have "rw_body r' = sse_frame sample_tz (stamped ?e ?h1)" using sub by simp
  then show ?thesis using run by (intro exI [of _ n'] exI [of _ r'] exI [of _ "stamped ?e ?h1"]) simp
qed

end
