(* ===== verification/Api_Spawn.thy ===== *)
theory Api_Spawn imports Api_Theorems begin

text \<open>
  The properties of the routes that start and stop node processes: how many nodes a spawn
  request starts, and with which names and addresses.
\<close>

section \<open>One round\<close>

lemma used_ids_spawned:
  assumes "SpawnNode os i join m = (m', eff, r)"
  shows "used_ids (peers @ [i]) m' = insert i (used_ids peers m)"
proof (cases r)
  case (Inl err)
  then have s: "SpawnNode os i join m = (m', eff, Inl err)" using assms by simp
  have "m_localNodeID m' = m_localNodeID m"
    using s by (auto simp: SpawnNode_def Let_def split: sum.splits option.splits)
  then show ?thesis using SpawnNode_Inl [OF s] by (auto simp: used_ids_def)
next
  case (Inr p)
  then have s: "SpawnNode os i join m = (m', eff, Inr p)" using assms by simp
  show ?thesis by (rule SpawnNode_Inr [OF s]) (auto simp: used_ids_def)
qed

definition starts :: "os_effect list \<Rightarrow> nat" where
  "starts effs = length (filter (\<lambda>e. case e of StartProcess x a \<Rightarrow> True | _ \<Rightarrow> False) effs)"

lemma starts_append [simp]: "starts (xs @ ys) = starts xs + starts ys" "starts [] = 0"
  by (simp_all add: starts_def)

lemma starts_SpawnNode: "SpawnNode os i join m = (m', eff, r) \<Longrightarrow> starts eff \<le> 1"
  by (auto simp: SpawnNode_def Let_def starts_def split: sum.splits option.splits)

section \<open>The loop\<close>

text \<open>What other requests may do to the manager: anything that keeps it well formed and does
  not take its next port back.\<close>

definition others_spawn_ok :: "api_env \<Rightarrow> bool" where
  "others_spawn_ok env \<longleftrightarrow>
     (\<forall>i m. manager_ok m \<longrightarrow> manager_ok (en_manager env i m) \<and> m_nextPort m \<le> m_nextPort (en_manager env i m))"

lemma other_requests:
  "manager_ok m \<Longrightarrow> manager_ok (fst (SpawnNode os i join m)) \<and> m_nextPort m \<le> m_nextPort (fst (SpawnNode os i join m))"
  "manager_ok m \<Longrightarrow> manager_ok (fst (StopProcess i m)) \<and> m_nextPort m \<le> m_nextPort (fst (StopProcess i m))"
proof -
  obtain m1 eff r where s: "SpawnNode os i join m = (m1, eff, r)" by (cases "SpawnNode os i join m")
  have "spawn_all [(os, i, join)] m = (m1, case r of Inr p \<Rightarrow> [p] | Inl err \<Rightarrow> [])" by (simp add: s)
  from spawn_all_ports [OF this]
  show "manager_ok m \<Longrightarrow> manager_ok (fst (SpawnNode os i join m)) \<and> m_nextPort m \<le> m_nextPort (fst (SpawnNode os i join m))"
    using manager_ok_SpawnNode [OF _ s] by (auto simp: s)
  show "manager_ok m \<Longrightarrow> manager_ok (fst (StopProcess i m)) \<and> m_nextPort m \<le> m_nextPort (fst (StopProcess i m))"
    using manager_ok_StopProcess [of m i] by (auto simp: StopProcess_def split: option.splits)
qed

text \<open>What the loop gives whatever the others do.\<close>

definition ported :: "process_info list \<Rightarrow> int \<Rightarrow> int \<Rightarrow> bool" where
  "ported ps low high \<longleftrightarrow> low \<le> high \<and>
     (\<exists>rps. map pr_RaftAddr ps = map (\<lambda>r. ''127.0.0.1:'' @ itoa_int r) rps \<and> sorted_wrt (<) rps \<and> set rps \<subseteq> {low..<high})"

lemma ported_distinct: "ported ps low high \<Longrightarrow> 0 \<le> low \<Longrightarrow> distinct (map pr_RaftAddr ps)"
proof -
  assume "ported ps low high" and low: "0 \<le> low"
  then obtain rps where r: "map pr_RaftAddr ps = map (\<lambda>r. ''127.0.0.1:'' @ itoa_int r) rps" "sorted_wrt (<) rps"
    "set rps \<subseteq> {low..<high}" by (auto simp: ported_def)
  have "inj_on (\<lambda>r. ''127.0.0.1:'' @ itoa_int r) (set rps)"
    using order_trans [OF low] r(3) by (intro inj_onI) (auto simp: itoa_int_inj subset_iff)
  then show "distinct (map pr_RaftAddr ps)" unfolding r(1) using r(2) by (simp add: distinct_map strict_sorted_iff)
qed

lemma ported_widen:
  assumes "ported ps low high" and "low' \<le> low"
  shows "ported ps low' high"
proof -
  obtain rps where "map pr_RaftAddr ps = map (\<lambda>r. ''127.0.0.1:'' @ itoa_int r) rps" "sorted_wrt (<) rps"
    "set rps \<subseteq> {low..<high}" "low \<le> high" using assms(1) by (auto simp: ported_def)
  then show ?thesis using assms(2) unfolding ported_def by (intro conjI exI [of _ rps]) auto
qed

lemma ported_step:
  assumes "SpawnNode os i join m = (m1, eff, r)" and "low \<le> m_nextPort m" and "ported ps (m_nextPort m1) high"
  shows "ported (case r of Inr p \<Rightarrow> p # ps | Inl err \<Rightarrow> ps) low high"
proof (cases r)
  case (Inl err)
  then have "m_nextPort m \<le> m_nextPort m1" using SpawnNode_Inl assms(1) by blast
  then show ?thesis using ported_widen [OF assms(3), of low] assms(2) Inl by simp
next
  case (Inr p)
  with assms(1) obtain rp where rp: "FindFreePort (os_free os 0) (m_nextPort m) = Inr rp"
    "pr_RaftAddr p = ''127.0.0.1:'' @ itoa_int rp" "m_nextPort m1 = rp + 1"
    by (auto elim!: SpawnNode_Inr)
  then have "m_nextPort m \<le> rp" using FindFreePort_bounds by blast
  moreover obtain rps where "map pr_RaftAddr ps = map (\<lambda>r. ''127.0.0.1:'' @ itoa_int r) rps" "sorted_wrt (<) rps"
    "set rps \<subseteq> {m_nextPort m1..<high}" "m_nextPort m1 \<le> high" using assms(3) by (auto simp: ported_def)
  ultimately show ?thesis
    using assms(2) rp Inr unfolding ported_def by (intro conjI exI [of _ "rp # rps"]) (auto simp: subset_iff)
qed

lemma spawn_loop_bounds:
  assumes "others_spawn_ok env" and "manager_ok m" and "spawn_loop env join k i peers m = (m', ps, effs)"
  shows "manager_ok m' \<and> length ps \<le> k \<and> starts effs \<le> k \<and> ported ps (m_nextPort m) (m_nextPort m')"
  using assms(2,3)
proof (induction k arbitrary: i peers m ps effs)
  case 0
  then show ?case by (simp add: ported_def)
next
  case (Suc k)
  define m0 where "m0 = en_manager env (2 * i) m"
  define mx where "mx = en_manager env (2 * i + 1) m0"
  define new where "new = NextAvailableNodeID (en_now env i) peers m0"
  have ok: "manager_ok mx" "m_nextPort m \<le> m_nextPort mx"
    using assms(1) Suc.prems(1) unfolding others_spawn_ok_def m0_def mx_def by (blast intro: order_trans)+
  obtain m1 eff r where s: "SpawnNode (en_os env i) new join mx = (m1, eff, r)"
    by (cases "SpawnNode (en_os env i) new join mx")
  obtain qs effs' where l: "spawn_loop env join k (Suc i) (peers @ [new]) m1 = (m', qs, effs')"
    and ps: "ps = (case r of Inr p \<Rightarrow> p # qs | Inl err \<Rightarrow> qs)" "effs = eff @ effs'"
    using Suc.prems(2) s by (auto simp: m0_def mx_def new_def Let_def split: prod.splits)
  note IH = Suc.IH [OF manager_ok_SpawnNode [OF ok(1) s] l]
  then show ?case
    using ported_step [OF s ok(2), of qs] starts_SpawnNode [OF s] by (auto simp: ps split: sum.split)
qed

text \<open>What it gives when no other request comes in between, in terms of the names taken before it.\<close>

definition children_of :: "process_info list \<Rightarrow> string \<rightharpoonup> process_info" where
  "children_of ps = map_of (map (\<lambda>p. (pr_NodeID p, p)) ps)"

definition spawn_result :: "string set \<Rightarrow> manager \<Rightarrow> manager \<Rightarrow> process_info list \<Rightarrow> bool" where
  "spawn_result used m m' ps \<longleftrightarrow>
     distinct (map pr_NodeID ps) \<and> pr_NodeID ` set ps \<inter> used = {} \<and>
     m_children m' = m_children m ++ children_of ps"

lemma spawn_result_step:
  assumes "SpawnNode os i join m = (m1, eff, r)" and "i \<notin> used" and "spawn_result (insert i used) m1 m' ps"
  shows "spawn_result used m m' (case r of Inr p \<Rightarrow> p # ps | Inl err \<Rightarrow> ps)"
proof (cases r)
  case (Inl err)
  then have s: "SpawnNode os i join m = (m1, eff, Inl err)" using assms(1) by simp
  show ?thesis using assms(3) SpawnNode_Inl [OF s] Inl by (simp add: spawn_result_def)
next
  case (Inr p)
  then have s: "SpawnNode os i join m = (m1, eff, Inr p)" using assms(1) by simp
  have p: "pr_NodeID p = i" "m_children m1 = (m_children m)(i \<mapsto> p)"
    by (rule SpawnNode_Inr [OF s], simp)+
  have fresh: "i \<notin> pr_NodeID ` set ps" using assms(3) by (auto simp: spawn_result_def)
  then have "children_of ps i = None" by (auto simp: children_of_def map_of_eq_None_iff image_iff)
  then have "m_children m1 ++ children_of ps = m_children m ++ children_of (p # ps)"
    unfolding p(2) by (auto simp: children_of_def p(1) map_add_def fun_eq_iff split: option.splits)
  then show ?thesis using assms(2,3) fresh p(1) Inr by (auto simp: spawn_result_def)
qed

lemma spawn_loop_result:
  assumes "\<forall>i m. en_manager env i m = m" and "manager_ok m" and "card (used_ids peers m) + k \<le> 500"
    and "spawn_loop env join k i peers m = (m', ps, effs)"
  shows "spawn_result (used_ids peers m) m m' ps"
  using assms(2-)
proof (induction k arbitrary: i peers m ps effs)
  case 0
  then show ?case by (simp add: spawn_result_def children_of_def)
next
  case (Suc k)
  define new where "new = NextAvailableNodeID (en_now env i) peers m"
  obtain m1 eff r where s: "SpawnNode (en_os env i) new join m = (m1, eff, r)"
    by (cases "SpawnNode (en_os env i) new join m")
  obtain qs effs' where l: "spawn_loop env join k (Suc i) (peers @ [new]) m1 = (m', qs, effs')"
    and ps: "ps = (case r of Inr p \<Rightarrow> p # qs | Inl err \<Rightarrow> qs)"
    using Suc.prems(3) s assms(1) by (auto simp: new_def [symmetric] Let_def split: prod.splits)
  have fin: "finite (dom (m_children m))" using Suc.prems(1) by (simp add: manager_ok_def)
  then have finu: "finite (used_ids peers m)" by (simp add: used_ids_def)
  have fresh: "new \<notin> used_ids peers m"
    using next_id_smallest [OF fin, of peers "en_now env i"] Suc.prems(2) by (simp add: new_def)
  have u: "used_ids (peers @ [new]) m1 = insert new (used_ids peers m)" by (rule used_ids_spawned [OF s])
  have "card (used_ids (peers @ [new]) m1) + k \<le> 500"
    unfolding u using Suc.prems(2) fresh finu by simp
  from Suc.IH [OF manager_ok_SpawnNode [OF Suc.prems(1) s] this l]
  show ?case unfolding u ps by (rule spawn_result_step [OF s fresh])
qed

definition join_address :: "cluster_state \<Rightarrow> node \<Rightarrow> string" where
  "join_address state n =
     (if cs_LeaderHTTPAddr state \<noteq> [] then ''http://'' @ cs_LeaderHTTPAddr state else ''http://'' @ node_HTTPAddr n)"

lemma handleSpawnNodes_eq:
  assumes "spawn_loop env (join_address (GetState (en_engine env) (s_node s)) (s_node s))
      (spawn_count (fst (decode_spawn (rq_Body req)))) 0 (map pi_ID (cs_Peers (GetState (en_engine env) (s_node s))))
      (s_procMgr s) = (m, ps, effs)"
  shows "handleSpawnNodes env req s r =
     (s\<lparr>s_procMgr := m\<rparr>,
      writeJSON 201 (JObj [(''message'', JStr (''Spawned '' @ itoa (length ps) @ '' node(s)'')),
        (''nodes'', JArr (map spawned_json ps)), (''success'', JBool True)]) r,
      map OsEffect effs)"
  unfolding handleSpawnNodes_def Let_def join_address_def [symmetric] assms prod.case ..

lemma spawn_count_bound: "spawn_count n \<le> 50" "1 \<le> spawn_count n"
  by (auto simp: spawn_count_def)

text \<open>Property C15. A spawn request starts at most 50 processes whatever number it names, whatever
  its body is, and whatever other requests do to the manager meanwhile; it is answered 201 with the nodes
  that were started, no two of them with the same Raft address, and leaves the node as it was and the
  manager well formed.  When no other request touches the manager meanwhile, and as many of the names up to
  \<open>node-500\<close> are free as the request asks for, those nodes have names no peer, no child and
  not the node itself had, all different, and they are exactly the new children of the manager.\<close>

theorem spawn_request_bounded:
  assumes "manager_ok (s_procMgr s)" and "others_spawn_ok env"
    and "used = used_ids (map pi_ID (cs_Peers (GetState (en_engine env) (s_node s)))) (s_procMgr s)"
    and "ServeHTTP env (post ''/nodes'' body) s new_response = (s', r, effs)"
  shows "\<exists>ps os_effs. length ps \<le> 50 \<and> effs = map OsEffect os_effs \<and> starts os_effs \<le> 50 \<and>
     distinct (map pr_RaftAddr ps) \<and> manager_ok (s_procMgr s') \<and> s_node s' = s_node s \<and> rw_status r = Some 201 \<and>
     rw_body r = json_print (JObj [(''message'', JStr (''Spawned '' @ itoa (length ps) @ '' node(s)'')),
       (''nodes'', JArr (map spawned_json ps)), (''success'', JBool True)]) @ [CHR 0x0A] \<and>
     ((\<forall>i m. en_manager env i m = m) \<longrightarrow> card used + spawn_count (fst (decode_spawn body)) \<le> 500 \<longrightarrow>
        distinct (map pr_NodeID ps) \<and> pr_NodeID ` set ps \<inter> used = {} \<and>
        m_children (s_procMgr s') = m_children (s_procMgr s) ++ children_of ps)"
proof -
  let ?peers = "map pi_ID (cs_Peers (GetState (en_engine env) (s_node s)))"
  let ?k = "spawn_count (fst (decode_spawn body))"
  let ?join = "join_address (GetState (en_engine env) (s_node s)) (s_node s)"
  obtain m ps os_effs where l: "spawn_loop env ?join ?k 0 ?peers (s_procMgr s) = (m, ps, os_effs)"
    by (cases "spawn_loop env ?join ?k 0 ?peers (s_procMgr s)")
  note bounds = spawn_loop_bounds [OF assms(2,1) l]
  have addrs: "distinct (map pr_RaftAddr ps)"
    using ported_distinct bounds assms(1) by (auto simp: manager_ok_def)
  have "handleSpawnNodes env (post ''/nodes'' body) s (cors_headers new_response) = (s', r, effs)"
    using assms(4) by (simp add: serve_post)
  then have serve: "s' = s\<lparr>s_procMgr := m\<rparr>" "effs = map OsEffect os_effs"
    "r = writeJSON 201 (JObj [(''message'', JStr (''Spawned '' @ itoa (length ps) @ '' node(s)'')),
       (''nodes'', JArr (map spawned_json ps)), (''success'', JBool True)]) (cors_headers new_response)"
    using handleSpawnNodes_eq [of env s "post ''/nodes'' body", unfolded post_sel, OF l] by simp_all
  have alone: "(\<forall>i m. en_manager env i m = m) \<Longrightarrow> card used + ?k \<le> 500 \<Longrightarrow> spawn_result used (s_procMgr s) m ps"
    using spawn_loop_result [OF _ assms(1) _ l] unfolding assms(3) by blast
  have k: "length ps \<le> 50" "starts os_effs \<le> 50"
    using bounds spawn_count_bound(1) [of "fst (decode_spawn body)"] by auto
  show ?thesis
    using bounds addrs k alone unfolding serve
    by (intro exI [of _ ps] exI [of _ os_effs])
      (simp add: spawn_result_def writeJSON_def, simp add: json_reply_def)
qed

theorem spawn_request_bounded_witness:
  "\<exists>ps. ps \<noteq> [] \<and> length ps \<le> 50 \<and> distinct (map pr_RaftAddr ps) \<and>
     m_children (s_procMgr (fst (ServeHTTP sample_env (post ''/nodes'' []) sample_server new_response))) = children_of ps"
proof -
  let ?a = "ServeHTTP sample_env (post ''/nodes'' []) sample_server new_response"
  obtain s' r effs where a: "?a = (s', r, effs)" by (cases ?a)
  have sel: "s_node sample_server = sample_node" "s_procMgr sample_server = sample_manager"
    by (simp_all add: sample_server_def NewServer_def)
  let ?peers = "map pi_ID (cs_Peers (GetState (en_engine sample_env) (s_node sample_server)))"
  have peers: "?peers = [''node-1'', ''node-2'']"
    by (simp add: sample_env_def sample_reading_def)
  have used: "used_ids ?peers (s_procMgr sample_server) = {''node-1'', ''node-2''}"
    unfolding peers unfolding sel by (auto simp: used_ids_def)
  have ok: "manager_ok (s_procMgr sample_server)"
    by (simp add: sel sample_manager_def manager_ok_New)
  have others: "others_spawn_ok sample_env" "\<forall>i m. en_manager sample_env i m = m"
    by (simp_all add: others_spawn_ok_def sample_env_def)
  have c: "spawn_count (fst (decode_spawn [])) = 1"
    by (simp add: decode_spawn_def decode_into_def json_decode_def json_first_def parse_fuel_def
        max_nesting_def skip_ws_def spawn_count_def)
  have room: "card (used_ids ?peers (s_procMgr sample_server)) + spawn_count (fst (decode_spawn [])) \<le> 500"
    unfolding used c by simp
  from spawn_request_bounded [OF ok others(1) refl a] room others(2) obtain ps where ps: "length ps \<le> 50"
    "distinct (map pr_RaftAddr ps)" "m_children (s_procMgr s') = m_children sample_manager ++ children_of ps"
    by (auto simp: sel)
  have "m_children (s_procMgr s') \<noteq> Map.empty"
  proof -
    define new where "new = NextAvailableNodeID 0 (map pi_ID (cs_Peers (GetState (\<lambda>_. sample_reading) (s_node sample_server)))) sample_manager"
    let ?join = "join_address (GetState (en_engine sample_env) (s_node sample_server)) (s_node sample_server)"
    have f: "FindFreePort (os_free sample_os 0) (m_nextPort sample_manager) = Inr 7004" "find_http_port sample_os 7004 = Inr 8005"
      by (simp_all add: find_http_port_def)
    from SpawnNode_success [OF f, of new ?join] obtain eff p where
      "SpawnNode sample_os new ?join sample_manager =
        (sample_manager\<lparr>m_nextPort := 7004 + 1, m_children := (m_children sample_manager)(new \<mapsto> p)\<rparr>, eff, Inr p)"
      by auto
    then have "spawn_loop sample_env ?join (Suc 0) 0 ?peers (s_procMgr sample_server) =
        (sample_manager\<lparr>m_nextPort := 7005, m_children := (m_children sample_manager)(new \<mapsto> p)\<rparr>, [p], eff)"
      by (simp add: sel(2) new_def [symmetric] sample_env_def del: sample_manager_sel GetState_sel)
    from handleSpawnNodes_eq [of sample_env sample_server "post ''/nodes'' []", unfolded post_sel c, OF this [folded One_nat_def]]
    show ?thesis using a by (auto simp: serve_post)
  qed
  then have "ps \<noteq> []" using ps(3) by (auto simp: children_of_def)
  then show ?thesis using ps a by (intro exI [of _ ps]) simp
qed

end
