(* ===== verification/Node_Observer_Theorems.thy ===== *)
theory Node_Observer_Theorems imports Raft_Node_Theorems begin

text \<open>
  The properties of \<open>observer.go\<close>: the health check reconciles the node's view with the
  configuration and announces exactly the differences, failing heartbeats are announced
  once per failure, and at most one broadcaster polls at any time.
\<close>

section \<open>The loops of the health check\<close>

lemma broadcast_httpAddrFor [simp]: "httpAddrFor i a (n\<lparr>n_knownPeers := k\<rparr>) = httpAddrFor i a n"
  by (simp add: httpAddrFor_def)

definition joined_event :: "(string \<rightharpoonup> string) \<Rightarrow> u64 \<Rightarrow> node \<Rightarrow> string \<Rightarrow> event" where
  "joined_event current term n i =
     peerJoinedEvent i (the (current i)) (httpAddrFor i (the (current i)) n) term"

definition removed_event :: "u64 \<Rightarrow> (string \<rightharpoonup> string) \<Rightarrow> string \<Rightarrow> event" where
  "removed_event term known i = peerRemovedEvent i (the (known i)) term"

lemma fold_join_step:
  "distinct ks \<Longrightarrow> fold (join_step current term) ks (n, acc) =
     (n\<lparr>n_knownPeers := (\<lambda>i. if i \<in> set ks \<and> n_knownPeers n i = None then Some (the (current i))
                               else n_knownPeers n i)\<rparr>,
      acc @ map (joined_event current term n) (filter (\<lambda>i. n_knownPeers n i = None) ks))"
proof (induction ks arbitrary: n acc)
  case Nil
  then show ?case by simp
next
  case (Cons k ks)
  show ?case
  proof (cases "n_knownPeers n k")
    case None
    let ?n = "n\<lparr>n_knownPeers := (n_knownPeers n)(k \<mapsto> the (current k))\<rparr>"
    have "join_step current term k (n, acc) = (?n, acc @ [joined_event current term n k])"
      by (simp add: join_step_def None joined_event_def Let_def)
    moreover have "joined_event current term ?n = joined_event current term n"
      by (simp add: joined_event_def fun_eq_iff)
    moreover have "filter (\<lambda>i. n_knownPeers ?n i = None) ks = filter (\<lambda>i. n_knownPeers n i = None) ks"
      using Cons.prems by (intro filter_cong) auto
    ultimately show ?thesis
      using Cons None by (auto simp: fun_eq_iff)
  next
    case (Some a)
    then have "join_step current term k (n, acc) = (n, acc)" by (simp add: join_step_def)
    then show ?thesis using Cons Some by (auto simp: fun_eq_iff)
  qed
qed

lemma fold_remove_step:
  "distinct ks \<Longrightarrow> fold (remove_step current term) ks (n, acc) =
     (n\<lparr>n_knownPeers := (\<lambda>i. if i \<in> set ks \<and> current i = None \<and> i \<noteq> node_ID n then None
                               else n_knownPeers n i)\<rparr>,
      acc @ map (removed_event term (n_knownPeers n)) (filter (\<lambda>i. current i = None \<and> i \<noteq> node_ID n) ks))"
proof (induction ks arbitrary: n acc)
  case Nil
  then show ?case by simp
next
  case (Cons k ks)
  show ?case
  proof (cases "current k = None \<and> k \<noteq> node_ID n")
    case True
    let ?n = "n\<lparr>n_knownPeers := (n_knownPeers n)(k := None)\<rparr>"
    have "remove_step current term k (n, acc) = (?n, acc @ [removed_event term (n_knownPeers n) k])"
      using True by (simp add: remove_step_def removed_event_def Let_def)
    moreover have "map (removed_event term (n_knownPeers ?n)) (filter (\<lambda>i. current i = None \<and> i \<noteq> node_ID n) ks)
        = map (removed_event term (n_knownPeers n)) (filter (\<lambda>i. current i = None \<and> i \<noteq> node_ID n) ks)"
      using Cons.prems by (auto simp: removed_event_def)
    ultimately show ?thesis
      using Cons True by (auto simp: fun_eq_iff)
  next
    case False
    then have "remove_step current term k (n, acc) = (n, acc)" by (auto simp: remove_step_def)
    then show ?thesis using Cons False by (auto simp: fun_eq_iff)
  qed
qed

lemma map_of_fresh: "x \<notin> f ` set xs \<Longrightarrow> map_of (map (\<lambda>s. (f s, g s)) xs) x = None"
  by (auto simp: map_of_eq_None_iff)

lemma server_map_distinct:
  "distinct (map rs_ID servers) \<Longrightarrow> server_map servers = map_of (map (\<lambda>s. (rs_ID s, rs_Address s)) servers)"
proof -
  have "foldl (\<lambda>m s. m(rs_ID s \<mapsto> rs_Address s)) m servers =
      m ++ map_of (map (\<lambda>s. (rs_ID s, rs_Address s)) servers)" if "distinct (map rs_ID servers)" for m
    using that
  proof (induction servers arbitrary: m)
    case (Cons s servers)
    then show ?case
      using map_of_fresh [of "rs_ID s" rs_ID servers rs_Address]
      by (auto simp: fun_eq_iff map_add_def split: option.split)
  qed simp
  from this [of Map.empty] show "distinct (map rs_ID servers) \<Longrightarrow> ?thesis" by (simp add: server_map_def)
qed

lemma dom_server_map: "dom (server_map servers) = rs_ID ` set servers"
proof -
  have "dom (foldl (\<lambda>m s. m(rs_ID s \<mapsto> rs_Address s)) m servers) = dom m \<union> rs_ID ` set servers" for m
    by (induction servers arbitrary: m) auto
  then show ?thesis by (simp add: server_map_def)
qed

definition probed :: "string \<Rightarrow> (string \<Rightarrow> bool) \<Rightarrow> raft_server list \<Rightarrow> string \<rightharpoonup> bool" where
  "probed self dial servers = map_of (map (\<lambda>s. (rs_ID s, rs_ID s = self \<or> dial (rs_Address s))) servers)"

definition health_changed ::
  "string \<Rightarrow> (string \<Rightarrow> bool) \<Rightarrow> (string \<rightharpoonup> bool) \<Rightarrow> raft_server list \<Rightarrow> bool" where
  "health_changed self dial old servers \<longleftrightarrow>
     (\<exists>s \<in> set servers. rs_ID s \<noteq> self \<and> (old (rs_ID s) = Some True) \<noteq> dial (rs_Address s))"

lemma fold_probe:
  "distinct (map rs_ID servers) \<Longrightarrow> fold (probe self dial old) servers (Map.empty, False) =
     (probed self dial servers, health_changed self dial old servers)"
proof -
  have "fold (probe self dial old) servers (m, c) =
      (m ++ probed self dial servers, c \<or> health_changed self dial old servers)"
    if "distinct (map rs_ID servers)" for m c
    using that
  proof (induction servers arbitrary: m c)
    case Nil
    then show ?case by (simp add: probed_def health_changed_def)
  next
    case (Cons s servers)
    have "probe self dial old s (m, c) = (m(rs_ID s \<mapsto> rs_ID s = self \<or> dial (rs_Address s)),
        c \<or> rs_ID s \<noteq> self \<and> (old (rs_ID s) = Some True) \<noteq> dial (rs_Address s))"
      by (auto simp: probe_def Let_def split: option.split)
    moreover have "probed self dial servers (rs_ID s) = None"
      using Cons.prems map_of_fresh [of "rs_ID s" rs_ID servers] by (simp add: probed_def)
    ultimately show ?case
      using Cons by (auto simp: probed_def health_changed_def fun_eq_iff map_add_def split: option.split)
  qed
  from this [of Map.empty False] show "distinct (map rs_ID servers) \<Longrightarrow> ?thesis" by simp
qed

section \<open>One health check\<close>

definition status_event :: "string \<Rightarrow> u64 \<Rightarrow> (string \<rightharpoonup> bool) \<Rightarrow> event" where
  "status_event self term health =
     mk_event EventNodeStatusChanged self term ''Cluster peer health status updated''
       (VMap [(''health'', VHealth health)])"

lemma lifecycle_events [simp]:
  "is_lifecycle (peerJoinedEvent a b c w)" "unstamped (peerJoinedEvent a b c w) = peerJoinedEvent a b c w"
  "is_lifecycle (peerRemovedEvent a b w)" "unstamped (peerRemovedEvent a b w) = peerRemovedEvent a b w"
  "is_lifecycle (joined_event cur w n i)" "unstamped (joined_event cur w n i) = joined_event cur w n i"
  "is_lifecycle (removed_event w k i)" "unstamped (removed_event w k i) = removed_event w k i"
  "is_lifecycle (status_event s w h)" "unstamped (status_event s w h) = status_event s w h"
  "\<not> is_lifecycle (state_event e m n)"
  by (simp_all add: peerJoinedEvent_def peerRemovedEvent_def joined_event_def removed_event_def
      status_event_def state_event_def)

lemma emit_all_broadcast_sel [simp]:
  "n_knownPeers (fold broadcast es n) = n_knownPeers n" "n_peerHealth (fold broadcast es n) = n_peerHealth n"
  "node_ID (fold broadcast es n) = node_ID n" "n_fsm (fold broadcast es n) = n_fsm n"
  by (induction es arbitrary: n) simp_all

lemma journal_events:
  assumes "node_ok n" and "\<forall>ev \<in> set es. is_lifecycle ev \<and> unstamped ev = ev"
  shows "journal_of (fold broadcast es n) = last_n maxHistory (journal_of n @ es) \<and> node_ok (fold broadcast es n)"
proof -
  have "filter is_lifecycle es = es" "map unstamped es = es"
    using assms(2) by (auto intro: filter_True map_idI)
  then show ?thesis
    using node_sink.journal_emit_all [OF assms(1), of es] node_sink.ok_emit_all [OF assms(1), of es]
    by (simp add: emit_all_def)
qed

text \<open>The check as its three effects: the view, the announcements, the health.\<close>

lemma checkPeersHealth_eq:
  fixes n :: node
  assumes "rd_Configuration (e 0) = Some servers" and "distinct (map rs_ID servers)"
    and "map_order (rd_Order (e 2)) (server_map servers)"
    and "map_order (rd_Order (e 3)) (server_map servers ++ n_knownPeers n)"
  defines "cur \<equiv> server_map servers" and "self \<equiv> node_ID n" and "term \<equiv> rd_CurrentTerm (e 1)"
  defines "known \<equiv> (cur ++ n_knownPeers n) |` (dom cur \<union> {self})"
    and "js \<equiv> filter (\<lambda>i. n_knownPeers n i = None) (rd_Order (e 2))"
    and "rs \<equiv> filter (\<lambda>i. cur i = None \<and> i \<noteq> self) (rd_Order (e 3))"
  defines "n3 \<equiv> fold broadcast (map (joined_event cur term n) js @ map (removed_event term (cur ++ n_knownPeers n)) rs)
      (n\<lparr>n_knownPeers := known\<rparr>)"
  shows "checkPeersHealth e dial n =
    (let n4 = n3\<lparr>n_peerHealth := probed self dial servers\<rparr>
     in if health_changed self dial (n_peerHealth n) servers
        then let n5 = broadcast (status_event self (rd_CurrentTerm (e 4)) (probed self dial servers)) n4
             in broadcast (state_event (later 5 e) ''Cluster health changed'' n5) n5
        else n4)"
proof -
  have ks: "distinct (rd_Order (e 2))" "set (rd_Order (e 2)) = dom cur"
    "distinct (rd_Order (e 3))" "set (rd_Order (e 3)) = dom cur \<union> dom (n_knownPeers n)"
    using assms(3,4) by (auto simp: map_order_def cur_def)
  let ?n1 = "n\<lparr>n_knownPeers := cur ++ n_knownPeers n\<rparr>"
  have "(\<lambda>i. if i \<in> set (rd_Order (e 2)) \<and> n_knownPeers n i = None then Some (the (cur i)) else n_knownPeers n i)
      = cur ++ n_knownPeers n"
    by (auto simp: fun_eq_iff map_add_def ks dom_def split: option.split)
  then have join: "fold (join_step cur term) (rd_Order (e 2)) (n, []) = (?n1, map (joined_event cur term n) js)"
    by (simp add: fold_join_step ks js_def)
  have "(\<lambda>i. if i \<in> set (rd_Order (e 3)) \<and> cur i = None \<and> i \<noteq> self then None else (cur ++ n_knownPeers n) i) = known"
    by (auto simp: fun_eq_iff known_def restrict_map_def map_add_def ks dom_def split: option.split)
  then have remove: "fold (remove_step cur term) (rd_Order (e 3)) (?n1, []) =
      (n\<lparr>n_knownPeers := known\<rparr>, map (removed_event term (cur ++ n_knownPeers n)) rs)"
    by (simp add: fold_remove_step ks rs_def self_def cong: if_cong)
  show ?thesis
    using assms(1,2) join remove
    by (simp add: checkPeersHealth_def Let_def cur_def [symmetric] term_def fold_probe n3_def
        self_def status_event_def)
qed

lemma health_check_result:
  assumes "node_ok n" and "rd_Configuration (e 0) = Some servers" and "distinct (map rs_ID servers)"
    and "map_order (rd_Order (e 2)) (server_map servers)"
    and "map_order (rd_Order (e 3)) (server_map servers ++ n_knownPeers n)"
  shows "n_knownPeers (checkPeersHealth e dial n) =
       (server_map servers ++ n_knownPeers n) |` (rs_ID ` set servers \<union> {node_ID n})"
    and "n_peerHealth (checkPeersHealth e dial n) = probed (node_ID n) dial servers"
    and "node_ID (checkPeersHealth e dial n) = node_ID n"
    and "node_ok (checkPeersHealth e dial n)"
proof -
  let ?known = "(server_map servers ++ n_knownPeers n) |` (rs_ID ` set servers \<union> {node_ID n})"
  let ?H = "probed (node_ID n) dial servers"
  obtain es where check: "checkPeersHealth e dial n =
      (let n4 = (fold broadcast es (n\<lparr>n_knownPeers := ?known\<rparr>))\<lparr>n_peerHealth := ?H\<rparr>
       in if health_changed (node_ID n) dial (n_peerHealth n) servers
          then let n5 = broadcast (status_event (node_ID n) (rd_CurrentTerm (e 4)) ?H) n4
               in broadcast (state_event (later 5 e) ''Cluster health changed'' n5) n5
          else n4)"
    using checkPeersHealth_eq [OF assms(2-5), of dial, unfolded dom_server_map] by blast
  define n4 where n4: "n4 = (fold broadcast es (n\<lparr>n_knownPeers := ?known\<rparr>))\<lparr>n_peerHealth := ?H\<rparr>"
  have c: "checkPeersHealth e dial n = n4 \<or> (\<exists>e1 e2. checkPeersHealth e dial n = broadcast e2 (broadcast e1 n4))"
    unfolding check n4 Let_def by (simp only: split: if_split) blast
  have "finite (dom ?known)" "finite (dom ?H)"
    using node_ok_finite(1) [OF assms(1)] by (simp_all add: dom_server_map probed_def dom_map_of_conv_image_fst)
  then have "node_ok n4"
    using node_sink.ok_emit_all [OF node_ok_maps(1) [OF assms(1)], of ?known es]
    by (simp add: n4 emit_all_def node_ok_maps(2))
  then show "n_knownPeers (checkPeersHealth e dial n) = ?known"
    "n_peerHealth (checkPeersHealth e dial n) = ?H" "node_ID (checkPeersHealth e dial n) = node_ID n"
    "node_ok (checkPeersHealth e dial n)"
    using c by (auto simp: n4)
qed

lemma health_check_summary:
  assumes "node_ok n" and "rd_Configuration (e 0) = Some servers" and "distinct (map rs_ID servers)"
    and "map_order (rd_Order (e 2)) (server_map servers)"
    and "map_order (rd_Order (e 3)) (server_map servers ++ n_knownPeers n)"
  shows "\<exists>js rs. distinct js \<and> set js = rs_ID ` set servers - dom (n_knownPeers n) \<and>
     distinct rs \<and> set rs = dom (n_knownPeers n) - rs_ID ` set servers - {node_ID n} \<and>
     map unstamped (GetHistory (n_hub (checkPeersHealth e dial n))) = last_n 50
       (map unstamped (GetHistory (n_hub n)) @
        map (joined_event (server_map servers) (rd_CurrentTerm (e 1)) n) js @
        map (removed_event (rd_CurrentTerm (e 1)) (n_knownPeers n)) rs @
        (if health_changed (node_ID n) dial (n_peerHealth n) servers
         then [status_event (node_ID n) (rd_CurrentTerm (e 4)) (probed (node_ID n) dial servers)] else [])) \<and>
     n_knownPeers (checkPeersHealth e dial n) =
       (server_map servers ++ n_knownPeers n) |` (rs_ID ` set servers \<union> {node_ID n}) \<and>
     n_peerHealth (checkPeersHealth e dial n) = probed (node_ID n) dial servers \<and>
     node_ok (checkPeersHealth e dial n)"
proof (intro exI conjI)
  let ?cur = "server_map servers" and ?self = "node_ID n" and ?now = "rd_CurrentTerm (e 1)"
  let ?js = "filter (\<lambda>i. n_knownPeers n i = None) (rd_Order (e 2))"
  let ?rs = "filter (\<lambda>i. ?cur i = None \<and> i \<noteq> ?self) (rd_Order (e 3))"
  let ?view = "(?cur ++ n_knownPeers n) |` (rs_ID ` set servers \<union> {?self})"
  let ?n2 = "n\<lparr>n_knownPeers := ?view\<rparr>"
  let ?es = "map (joined_event ?cur ?now n) ?js @ map (removed_event ?now (?cur ++ n_knownPeers n)) ?rs"
  let ?H = "probed ?self dial servers"
  note order = map_order_def [of _ ?cur] map_order_def [of _ "?cur ++ n_knownPeers n"]
  show "distinct ?js" "distinct ?rs" using assms(4,5) by (simp_all add: order)
  show "set ?js = rs_ID ` set servers - dom (n_knownPeers n)"
    using assms(4) dom_server_map [of servers] by (auto simp: order)
  have rs: "set ?rs = dom (n_knownPeers n) - rs_ID ` set servers - {?self}"
    using assms(5) dom_server_map [of servers] by (auto simp: order)
  then show "set ?rs = dom (n_knownPeers n) - rs_ID ` set servers - {?self}" .
  have same: "map (removed_event ?now (?cur ++ n_knownPeers n)) ?rs = map (removed_event ?now (n_knownPeers n)) ?rs"
    by (rule map_cong [OF refl]) (auto simp: removed_event_def map_add_def split: option.split)
  have "finite (dom ?view)"
    using node_ok_finite(1) [OF assms(1)] by (simp add: dom_server_map)
  then have ok2: "node_ok ?n2" by (rule node_ok_maps(1) [OF assms(1)])
  define n3 where "n3 = fold broadcast ?es ?n2"
  have "\<forall>ev \<in> set ?es. is_lifecycle ev \<and> unstamped ev = ev" by auto
  from journal_events [OF ok2 this]
  have j3: "journal_of n3 = last_n maxHistory (journal_of n @ ?es)" and ok3: "node_ok n3"
    unfolding n3_def by (simp_all only: journal_of_update)
  have "finite (dom ?H)" by (simp add: probed_def dom_map_of_conv_image_fst)
  then have ok4: "node_ok (n3\<lparr>n_peerHealth := ?H\<rparr>)" by (rule node_ok_maps(2) [OF ok3])
  note check = checkPeersHealth_eq [OF assms(2-5), of dial, unfolded dom_server_map, folded n3_def]
  have "journal_of (checkPeersHealth e dial n) = last_n maxHistory (journal_of n @ ?es @
      (if health_changed ?self dial (n_peerHealth n) servers
       then [status_event ?self (rd_CurrentTerm (e 4)) ?H] else []))"
    unfolding check Let_def
    using ok4 last_n_snoc [of maxHistory "journal_of n @ ?es"]
    by (simp add: node_sink.journal_emit j3 maxHistory_def)
  then show "map unstamped (GetHistory (n_hub (checkPeersHealth e dial n))) = last_n 50
       (map unstamped (GetHistory (n_hub n)) @ map (joined_event ?cur ?now n) ?js @
        map (removed_event ?now (n_knownPeers n)) ?rs @
        (if health_changed ?self dial (n_peerHealth n) servers
         then [status_event ?self (rd_CurrentTerm (e 4)) ?H] else []))"
    unfolding same by (simp add: journal_of_def announced_def GetHistory_def maxHistory_def)
  show "n_knownPeers (checkPeersHealth e dial n) = ?view" "n_peerHealth (checkPeersHealth e dial n) = ?H"
    "node_ok (checkPeersHealth e dial n)"
    by (rule health_check_result [OF assms])+
qed

text \<open>Property C13. A health check reconciles the node with the configuration, whatever the
  order in which the runtime visits its maps: afterwards the node knows exactly the
  configured servers and itself, keeping the address it had for those it knew; it has
  announced every newcomer once and every server that left once, and nobody else; the
  health it believes in is what the probes said, and a change of health is announced.\<close>

theorem health_check_reconciles:
  assumes "node_ok n" and "rd_Configuration (e 0) = Some servers" and "distinct (map rs_ID servers)"
    and "map_order (rd_Order (e 2)) (server_map servers)"
    and "map_order (rd_Order (e 3)) (server_map servers ++ n_knownPeers n)"
  shows "\<exists>js rs. distinct js \<and> set js = rs_ID ` set servers - dom (n_knownPeers n) \<and>
     distinct rs \<and> set rs = dom (n_knownPeers n) - rs_ID ` set servers - {node_ID n} \<and>
     map unstamped (GetHistory (n_hub (checkPeersHealth e dial n))) = last_n 50
       (map unstamped (GetHistory (n_hub n)) @
        map (joined_event (server_map servers) (rd_CurrentTerm (e 1)) n) js @
        map (removed_event (rd_CurrentTerm (e 1)) (n_knownPeers n)) rs @
        (if health_changed (node_ID n) dial (n_peerHealth n) servers
         then [status_event (node_ID n) (rd_CurrentTerm (e 4)) (probed (node_ID n) dial servers)] else [])) \<and>
     n_knownPeers (checkPeersHealth e dial n) =
       (server_map servers ++ n_knownPeers n) |` (rs_ID ` set servers \<union> {node_ID n}) \<and>
     n_peerHealth (checkPeersHealth e dial n) = probed (node_ID n) dial servers \<and>
     node_ok (checkPeersHealth e dial n)"
  by (rule health_check_summary [OF assms])

definition check_reading :: reading where
  "check_reading = sample_reading\<lparr>rd_Order := [''node-2'', ''node-1'']\<rparr>"

abbreviation sample_servers :: "raft_server list" where
  "sample_servers \<equiv> the (rd_Configuration sample_reading)"

lemma sample_check [simp]:
  "rd_Configuration check_reading = Some sample_servers" "distinct (map rs_ID sample_servers)"
  "map_order (rd_Order check_reading) (server_map sample_servers)"
  "map_order (rd_Order check_reading) (server_map sample_servers ++ n_knownPeers sample_node)"
  "rs_ID ` set sample_servers = {''node-1'', ''node-2''}" "dom (n_knownPeers sample_node) = {''node-1''}"
  by (auto simp: check_reading_def sample_reading_def map_order_def dom_server_map sample_node_def
      initial_node_def sample_config_def)

theorem health_check_reconciles_witness:
  "dom (n_knownPeers (checkPeersHealth (\<lambda>_. check_reading) (\<lambda>_. True) sample_node)) = {''node-1'', ''node-2''} \<and>
   node_ok (checkPeersHealth (\<lambda>_. check_reading) (\<lambda>_. True) sample_node)"
proof -
  obtain js rs :: "string list" where
    "n_knownPeers (checkPeersHealth (\<lambda>_. check_reading) (\<lambda>_. True) sample_node) =
       (server_map sample_servers ++ n_knownPeers sample_node) |` (rs_ID ` set sample_servers \<union> {node_ID sample_node})"
    and "node_ok (checkPeersHealth (\<lambda>_. check_reading) (\<lambda>_. True) sample_node)"
    using health_check_reconciles [of sample_node "\<lambda>_. check_reading" sample_servers "\<lambda>_. True"] by auto
  then show ?thesis using dom_server_map [of sample_servers] by auto
qed

text \<open>Property C33. A check that finds nothing new says nothing: with a configuration the node
  already knows and probes that answer as it believes, the view, the beliefs and the
  history stay exactly as they are.\<close>

theorem health_check_quiescent:
  assumes "node_ok n" and "rd_Configuration (e 0) = Some servers" and "distinct (map rs_ID servers)"
    and "map_order (rd_Order (e 2)) (server_map servers)"
    and "map_order (rd_Order (e 3)) (server_map servers ++ n_knownPeers n)"
    and "dom (n_knownPeers n) = insert (node_ID n) (rs_ID ` set servers)"
    and "n_peerHealth n = probed (node_ID n) dial servers"
  shows "checkPeersHealth e dial n = n"
proof -
  have js: "filter (\<lambda>i. n_knownPeers n i = None) (rd_Order (e 2)) = []"
    using assms(4,6) dom_server_map [of servers] by (auto simp: filter_empty_conv map_order_def)
  have rs: "filter (\<lambda>i. server_map servers i = None \<and> i \<noteq> node_ID n) (rd_Order (e 3)) = []"
    using assms(5,6) dom_server_map [of servers] by (auto simp: filter_empty_conv map_order_def)
  have known: "(server_map servers ++ n_knownPeers n) |` (dom (server_map servers) \<union> {node_ID n}) = n_knownPeers n"
  proof (rule ext)
    fix i
    show "((server_map servers ++ n_knownPeers n) |` (dom (server_map servers) \<union> {node_ID n})) i = n_knownPeers n i"
      using assms(6) dom_server_map [of servers] by (cases "n_knownPeers n i") (auto simp: restrict_map_def)
  qed
  have "(n_peerHealth n (rs_ID s) = Some True) = dial (rs_Address s)"
    if "s \<in> set servers" "rs_ID s \<noteq> node_ID n" for s
  proof -
    have "map_of (map (\<lambda>s. (rs_ID s, rs_ID s = node_ID n \<or> dial (rs_Address s))) servers) (rs_ID s)
        = Some (rs_ID s = node_ID n \<or> dial (rs_Address s))"
      using that(1) assms(3) by (intro map_of_is_SomeI) (auto simp: comp_def)
    then show ?thesis using that(2) by (simp add: assms(7) probed_def)
  qed
  then have "\<not> health_changed (node_ID n) dial (n_peerHealth n) servers"
    by (auto simp: health_changed_def)
  then show ?thesis
    unfolding checkPeersHealth_eq [OF assms(2-5)] js rs known assms(7) [symmetric] by simp
qed

definition quiet_node :: node where
  "quiet_node = checkPeersHealth (\<lambda>_. check_reading) (\<lambda>_. True) sample_node"

lemma sample_quiet:
  "node_ok quiet_node" "node_ID quiet_node = ''node-1''"
  "dom (n_knownPeers quiet_node) = insert (node_ID quiet_node) (rs_ID ` set sample_servers)"
  "n_peerHealth quiet_node = probed (node_ID quiet_node) (\<lambda>_. True) sample_servers"
proof -
  note r = health_check_result [of sample_node "\<lambda>_. check_reading" sample_servers "\<lambda>_. True", folded quiet_node_def,
      OF sample_node_ok sample_check(1,2,3,4)]
  show "node_ok quiet_node" by (rule r(4))
  show id: "node_ID quiet_node = ''node-1''" using r(3) by simp
  show "dom (n_knownPeers quiet_node) = insert (node_ID quiet_node) (rs_ID ` set sample_servers)"
    unfolding r(1) id using dom_server_map [of sample_servers] by auto
  show "n_peerHealth quiet_node = probed (node_ID quiet_node) (\<lambda>_. True) sample_servers"
    unfolding r(2) id by simp
qed

theorem health_check_quiescent_witness:
  "node_ok quiet_node \<and> n_knownPeers quiet_node ''node-2'' \<noteq> None \<and>
   checkPeersHealth (\<lambda>_. check_reading) (\<lambda>_. True) quiet_node = quiet_node"
proof (intro conjI)
  show "node_ok quiet_node" by (rule sample_quiet(1))
  have d: "dom (n_knownPeers quiet_node) = {''node-1'', ''node-2''}"
    unfolding sample_quiet(2,3) sample_check(5) by auto
  then show "n_knownPeers quiet_node ''node-2'' \<noteq> None" by (simp add: dom_def set_eq_iff)
  have "map_order (rd_Order check_reading) (server_map sample_servers ++ n_knownPeers quiet_node)"
    unfolding map_order_def dom_map_add d dom_server_map sample_check(5) by (simp add: check_reading_def) blast
  then show "checkPeersHealth (\<lambda>_. check_reading) (\<lambda>_. True) quiet_node = quiet_node"
    by (intro health_check_quiescent [OF sample_quiet(1) sample_check(1,2,3) _ sample_quiet(3,4)])
qed

text \<open>A peer that is down when it is first probed is never reported as down: the
  cluster state calls it healthy before the check and unhealthy after it, yet the check
  announces no change of status.\<close>

theorem unreachable_newcomer_unreported:
  assumes "node_ok n" and "rd_Configuration (e 0) = Some servers" and "distinct (map rs_ID servers)"
    and "map_order (rd_Order (e 2)) (server_map servers)"
    and "map_order (rd_Order (e 3)) (server_map servers ++ n_knownPeers n)"
    and "\<forall>s \<in> set servers. rs_ID s \<noteq> node_ID n \<longrightarrow> n_peerHealth n (rs_ID s) = None \<and> \<not> dial (rs_Address s)"
    and "s \<in> set servers" and "rs_ID s \<noteq> node_ID n"
  shows "pi_Healthy (peer_of li la st n s) \<and> \<not> pi_Healthy (peer_of li la st (checkPeersHealth e dial n) s) \<and>
     (\<exists>es. map unstamped (GetHistory (n_hub (checkPeersHealth e dial n))) =
              last_n 50 (map unstamped (GetHistory (n_hub n)) @ es) \<and>
            (\<forall>ev \<in> set es. ev_Type ev \<noteq> EventNodeStatusChanged))"
proof (intro conjI)
  show "pi_Healthy (peer_of li la st n s)" using assms(6-8) by (simp add: peer_of_def Let_def)
  have "map_of (map (\<lambda>s. (rs_ID s, rs_ID s = node_ID n \<or> dial (rs_Address s))) servers) (rs_ID s)
      = Some (rs_ID s = node_ID n \<or> dial (rs_Address s))"
    using assms(3,7) by (intro map_of_is_SomeI) (auto simp: comp_def)
  then show "\<not> pi_Healthy (peer_of li la st (checkPeersHealth e dial n) s)"
    using assms(6-8) health_check_result(2) [OF assms(1-5), of dial] by (simp add: peer_of_def Let_def probed_def)
  have "\<not> health_changed (node_ID n) dial (n_peerHealth n) servers"
    using assms(6) by (auto simp: health_changed_def)
  moreover have "ev_Type (joined_event c w n i) \<noteq> EventNodeStatusChanged"
    "ev_Type (removed_event w k i) \<noteq> EventNodeStatusChanged" for c w i k
    by (simp_all add: joined_event_def removed_event_def peerJoinedEvent_def peerRemovedEvent_def)
  moreover obtain js rs where "map unstamped (GetHistory (n_hub (checkPeersHealth e dial n))) = last_n 50
       (map unstamped (GetHistory (n_hub n)) @
        map (joined_event (server_map servers) (rd_CurrentTerm (e 1)) n) js @
        map (removed_event (rd_CurrentTerm (e 1)) (n_knownPeers n)) rs @
        (if health_changed (node_ID n) dial (n_peerHealth n) servers
         then [status_event (node_ID n) (rd_CurrentTerm (e 4)) (probed (node_ID n) dial servers)] else []))"
    using health_check_summary [OF assms(1-5), of dial] by blast
  ultimately show "\<exists>es. map unstamped (GetHistory (n_hub (checkPeersHealth e dial n))) =
              last_n 50 (map unstamped (GetHistory (n_hub n)) @ es) \<and>
            (\<forall>ev \<in> set es. ev_Type ev \<noteq> EventNodeStatusChanged)"
    by (intro exI [of _ "map (joined_event (server_map servers) (rd_CurrentTerm (e 1)) n) js @
        map (removed_event (rd_CurrentTerm (e 1)) (n_knownPeers n)) rs"]) auto
qed

theorem unreachable_newcomer_unreported_witness:
  "\<exists>es. map unstamped (GetHistory (n_hub (checkPeersHealth (\<lambda>_. check_reading) (\<lambda>_. False) sample_node))) =
      last_n 50 (map unstamped (GetHistory (n_hub sample_node)) @ es) \<and>
     (\<forall>ev \<in> set es. ev_Type ev \<noteq> EventNodeStatusChanged)"
proof -
  have new: "\<forall>s \<in> set sample_servers. rs_ID s \<noteq> node_ID sample_node \<longrightarrow>
      n_peerHealth sample_node (rs_ID s) = None \<and> \<not> (\<lambda>_. False) (rs_Address s)"
    by (simp add: sample_reading_def sample_node_def initial_node_def sample_config_def node_ID_def)
  let ?s = "\<lparr>rs_ID = ''node-2'', rs_Address = ''127.0.0.1:7002'', rs_Suffrage = Voter\<rparr>"
  have s: "?s \<in> set sample_servers" "rs_ID ?s \<noteq> node_ID sample_node"
    by (simp_all add: sample_reading_def)
  show ?thesis
    by (rule unreachable_newcomer_unreported [of sample_node "\<lambda>_. check_reading" sample_servers "\<lambda>_. False" ?s,
          OF sample_node_ok sample_check(1,2,3,4) new s, THEN conjunct2, THEN conjunct2])
qed

section \<open>Failing heartbeats\<close>

text \<open>The engine repeats the observation of a failed heartbeat while a peer is down.  What
  should be announced, by the set of peers that are down.\<close>

definition failed_event :: "string \<Rightarrow> (time \<Rightarrow> string) \<Rightarrow> u64 \<Rightarrow> string \<Rightarrow> time \<Rightarrow> event" where
  "failed_event self fmt w p t =
     mk_event EventNodeStatusChanged self w
       (''Heartbeat to '' @ p @ '' failed (unreachable since '' @ fmt t @ '')'')
       (VMap [(''node_id'', VString p), (''heartbeat_failed'', VBool True)])"

definition resumed_event :: "string \<Rightarrow> u64 \<Rightarrow> string \<Rightarrow> event" where
  "resumed_event self w p =
     mk_event EventNodeStatusChanged self w (''Heartbeat to '' @ p @ '' recovered'')
       (VMap [(''node_id'', VString p), (''heartbeat_resumed'', VBool True)])"

datatype heartbeat_report = Failed string time | Resumed string

fun observation_of :: "heartbeat_report \<Rightarrow> observation" where
  "observation_of (Failed p t) = FailedHeartbeatObservation p t"
| "observation_of (Resumed p) = ResumedHeartbeatObservation p"

fun announced_reports ::
  "string \<Rightarrow> (time \<Rightarrow> string) \<Rightarrow> string set \<Rightarrow> (engine \<times> heartbeat_report) list \<Rightarrow> event list" where
  "announced_reports self fmt down [] = []"
| "announced_reports self fmt down ((e, Failed p t) # xs) =
     (if p \<in> down then [] else [failed_event self fmt (rd_CurrentTerm (e 0)) p t]) @
     announced_reports self fmt (insert p down) xs"
| "announced_reports self fmt down ((e, Resumed p) # xs) =
     resumed_event self (rd_CurrentTerm (e 0)) p # announced_reports self fmt (down - {p}) xs"

definition down_peers :: "node \<Rightarrow> string set" where
  "down_peers n = {p. n_hbFailedPeers n p = Some True}"

lemma report_events [simp]:
  "is_lifecycle (failed_event s f w p t)" "unstamped (failed_event s f w p t) = failed_event s f w p t"
  "is_lifecycle (resumed_event s w p)" "unstamped (resumed_event s w p) = resumed_event s w p"
  by (simp_all add: failed_event_def resumed_event_def)

lemma broadcast_failing: "broadcast ev (n\<lparr>n_hbFailedPeers := f\<rparr>) = (broadcast ev n)\<lparr>n_hbFailedPeers := f\<rparr>"
  by (simp add: broadcast_def)

lemma reports_step:
  "handle_observation fmt (e, observation_of r) n =
     (case r of
        Failed p t \<Rightarrow> (fold broadcast (announced_reports (node_ID n) fmt (down_peers n) [(e, r)]) n)
                         \<lparr>n_hbFailedPeers := (n_hbFailedPeers n)(p \<mapsto> True)\<rparr>
      | Resumed p \<Rightarrow> (fold broadcast (announced_reports (node_ID n) fmt (down_peers n) [(e, r)]) n)
                         \<lparr>n_hbFailedPeers := (n_hbFailedPeers n)(p := None)\<rparr>)"
  by (cases r)
     (auto simp: observe_failed_def observe_resumed_def failed_event_def resumed_event_def down_peers_def
       broadcast_failing Let_def)

lemma report_effect:
  fixes e :: engine and r :: heartbeat_report and fmt :: "time \<Rightarrow> string"
  assumes "node_ok n"
  defines "n1 \<equiv> handle_observation fmt (e, observation_of r) n"
    and "es \<equiv> announced_reports (node_ID n) fmt (down_peers n) [(e, r)]"
  shows "node_ok n1" and "journal_of n1 = last_n maxHistory (journal_of n @ es)"
proof -
  have "\<forall>ev \<in> set es. is_lifecycle ev \<and> unstamped ev = ev" unfolding es_def by (cases r) auto
  from journal_events [OF assms(1) this]
  have *: "journal_of (fold broadcast es n) = last_n maxHistory (journal_of n @ es)" "node_ok (fold broadcast es n)"
    by blast+
  let ?f = "case r of Failed p t \<Rightarrow> (n_hbFailedPeers n)(p \<mapsto> True) | Resumed p \<Rightarrow> (n_hbFailedPeers n)(p := None)"
  have n1: "n1 = (fold broadcast es n)\<lparr>n_hbFailedPeers := ?f\<rparr>"
    unfolding n1_def es_def reports_step by (simp split: heartbeat_report.split)
  have "finite (dom ?f)" using node_ok_finite(3) [OF assms(1)] by (simp split: heartbeat_report.split)
  then show "node_ok n1" and "journal_of n1 = last_n maxHistory (journal_of n @ es)"
    using * by (simp_all only: n1 journal_of_update node_ok_maps(3))
qed

lemma reports_after:
  "announced_reports (node_ID n) fmt (down_peers n) ((e, r) # xs) =
   announced_reports (node_ID n) fmt (down_peers n) [(e, r)] @
   announced_reports (node_ID (handle_observation fmt (e, observation_of r) n)) fmt
     (down_peers (handle_observation fmt (e, observation_of r) n)) xs"
proof (cases r)
  case (Failed p t)
  then have "down_peers (handle_observation fmt (e, observation_of r) n) = insert p (down_peers n)"
    "node_ID (handle_observation fmt (e, observation_of r) n) = node_ID n"
    by (auto simp: reports_step down_peers_def simp del: observation_of.simps)
  then show ?thesis by (simp add: Failed)
next
  case (Resumed p)
  then have "down_peers (handle_observation fmt (e, observation_of r) n) = down_peers n - {p}"
    "node_ID (handle_observation fmt (e, observation_of r) n) = node_ID n"
    by (auto simp: reports_step down_peers_def simp del: observation_of.simps)
  then show ?thesis by (simp add: Resumed)
qed

text \<open>Property C34. Whatever sequence of failed and resumed heartbeats the engine reports, a
  failure is announced when the peer was up and a recovery always: a peer that stays down
  is announced once, however often the engine repeats it.\<close>

theorem heartbeat_failures_once:
  assumes "node_ok n"
  shows "map unstamped (GetHistory (n_hub (handleObservations fmt (map (\<lambda>(e, r). (e, observation_of r)) xs) n))) =
     last_n 50 (map unstamped (GetHistory (n_hub n)) @ announced_reports (node_ID n) fmt (down_peers n) xs)"
proof -
  have "journal_of (handleObservations fmt (map (\<lambda>(e, r). (e, observation_of r)) xs) n) =
      last_n maxHistory (journal_of n @ announced_reports (node_ID n) fmt (down_peers n) xs)"
    using assms
  proof (induction xs arbitrary: n)
    case Nil
    then show ?case using node_sink.journal_bound by (simp add: handleObservations_def)
  next
    case (Cons x xs)
    obtain e r where x: "x = (e, r)" by (cases x)
    note step = report_effect [OF Cons.prems, of fmt e r]
    show ?case
      unfolding x reports_after [of n fmt e r xs]
      using Cons.IH [OF step(1)] step(2) by (simp add: handleObservations_def) (simp add: last_n_append)
  qed
  then show ?thesis by (simp add: journal_of_def announced_def GetHistory_def maxHistory_def)
qed

theorem heartbeat_failures_once_witness:
  "map unstamped (GetHistory (n_hub (handleObservations (\<lambda>_. ''12:00:00'')
      [(\<lambda>_. sample_reading, FailedHeartbeatObservation ''node-2'' 1),
       (\<lambda>_. sample_reading, FailedHeartbeatObservation ''node-2'' 2),
       (\<lambda>_. sample_reading, FailedHeartbeatObservation ''node-2'' 3)] sample_node))) =
     [failed_event ''node-1'' (\<lambda>_. ''12:00:00'') 3 ''node-2'' 1]"
proof -
  have "down_peers sample_node = {}" "rd_CurrentTerm sample_reading = 3"
    by (simp_all add: down_peers_def sample_node_def initial_node_def sample_reading_def)
  then show ?thesis
    using heartbeat_failures_once [OF sample_node_ok, of "\<lambda>_. ''12:00:00''"
        "[(\<lambda>_. sample_reading, Failed ''node-2'' 1), (\<lambda>_. sample_reading, Failed ''node-2'' 2),
          (\<lambda>_. sample_reading, Failed ''node-2'' 3)]"] by simp
qed

section \<open>Polling\<close>

text \<open>A sequence of activations (with what the engine answers) and deactivations, and the
  broadcasters they start.\<close>

fun poll_run :: "engine option list \<Rightarrow> node \<Rightarrow> node \<times> nat list" where
  "poll_run [] n = (n, [])"
| "poll_run (Some e # xs) n =
     (let (n1, cs) = onSSEActivated e n; (n2, ds) = poll_run xs n1 in (n2, cs @ ds))"
| "poll_run (None # xs) n = poll_run xs (onSSEDeactivated n)"

text \<open>How the channels evolve: the broadcasters started use the fresh ones.\<close>

definition fresh_run :: "node \<Rightarrow> node \<Rightarrow> nat list \<Rightarrow> bool" where
  "fresh_run n n' cs \<longleftrightarrow> node_ok n' \<and> n_nextChan n \<le> n_nextChan n' \<and>
     cs = [n_nextChan n..<n_nextChan n'] \<and>
     (\<forall>c. n_pollCancel n' = Some c \<longrightarrow> n_pollCancel n = Some c \<or> n_nextChan n \<le> c)"

lemma fresh_run_trans:
  "fresh_run n n1 cs \<Longrightarrow> fresh_run n1 n2 ds \<Longrightarrow> fresh_run n n2 (cs @ ds)"
  unfolding fresh_run_def
  using upt_add_eq_append [of "n_nextChan n" "n_nextChan n1" "n_nextChan n2 - n_nextChan n1"]
  by (auto intro: order_trans)

lemma activate_ok:
  assumes "node_ok n" and "onSSEActivated e n = (n1, cs)"
  shows "fresh_run n n1 cs" and "n_pollingRunning n1"
proof -
  let ?m = "n\<lparr>n_pollingRunning := True, n_pollCancel := Some (n_nextChan n), n_nextChan := Suc (n_nextChan n)\<rparr>"
  have "node_ok ?m" if "\<not> n_pollingRunning n"
    using assms(1) that by (auto simp: node_ok_def maps_ok_def polling_ok_def)
  then show "fresh_run n n1 cs" and "n_pollingRunning n1"
    using assms by (auto simp: onSSEActivated_def Let_def fresh_run_def split: if_splits)
qed

lemma deactivate_ok:
  assumes "node_ok n"
  shows "fresh_run n (onSSEDeactivated n) []" and "\<not> n_pollingRunning (onSSEDeactivated n)"
proof -
  have "fresh_run n (onSSEDeactivated n) [] \<and> \<not> n_pollingRunning (onSSEDeactivated n)"
  proof (cases "n_pollCancel n")
    case (Some c)
    then have "n_pollingRunning n" "c \<notin> n_closedChans n" using assms by (auto simp: node_ok_def polling_ok_def)
    moreover have "node_ok (n\<lparr>n_pollingRunning := False, n_closedChans := insert c (n_closedChans n), n_pollCancel := None\<rparr>)"
      using assms Some by (auto simp: node_ok_def maps_ok_def polling_ok_def)
    ultimately show ?thesis using Some by (simp add: onSSEDeactivated_def Let_def fresh_run_def)
  qed (use assms in \<open>simp add: onSSEDeactivated_def node_ok_def polling_ok_def fresh_run_def\<close>)
  then show "fresh_run n (onSSEDeactivated n) []" and "\<not> n_pollingRunning (onSSEDeactivated n)" by simp_all
qed

lemma poll_run_ok:
  "node_ok n \<Longrightarrow> poll_run xs n = (n', cs) \<Longrightarrow>
   fresh_run n n' cs \<and> n_pollingRunning n' = (if xs = [] then n_pollingRunning n else last xs \<noteq> None)"
proof (induction xs n arbitrary: n' cs rule: poll_run.induct)
  case (1 n)
  then show ?case by (simp add: fresh_run_def)
next
  case (2 e xs n)
  obtain n1 c1 where a: "onSSEActivated e n = (n1, c1)" by (cases "onSSEActivated e n")
  obtain c2 where r: "poll_run xs n1 = (n', c2)" "cs = c1 @ c2"
    using 2(3) a by (auto simp: case_prod_beta Let_def prod_eq_iff)
  note s = activate_ok [OF 2(2) a]
  then have "node_ok n1" by (simp add: fresh_run_def)
  from 2(1) [OF a [symmetric] refl this r(1)] show ?case
    using s fresh_run_trans [OF s(1)] r(2) by auto
next
  case (3 xs n)
  note s = deactivate_ok [OF 3(2)]
  then have "node_ok (onSSEDeactivated n)" by (simp add: fresh_run_def)
  from 3(1) [OF this] 3(3) show ?case
    using s fresh_run_trans [OF s(1)] by auto
qed

text \<open>Property C24. Whatever sequence of activations and deactivations a node goes through,
  every broadcaster it starts has a cancel channel of its own, at most one of them is not
  cancelled, there is one exactly when the last request was an activation, and no channel
  is closed twice.\<close>

theorem one_broadcaster:
  assumes "node_ok n" and "\<not> n_pollingRunning n" and "poll_run xs n = (n', cs)"
  shows "distinct cs \<and> \<not> n_crashed n' \<and> length (filter (\<lambda>c. c \<notin> n_closedChans n') cs) \<le> 1 \<and>
     (filter (\<lambda>c. c \<notin> n_closedChans n') cs \<noteq> []) = (xs \<noteq> [] \<and> last xs \<noteq> None) \<and>
     n_pollingRunning n' = (xs \<noteq> [] \<and> last xs \<noteq> None)"
proof -
  let ?l = "filter (\<lambda>c. c \<notin> n_closedChans n') cs"
  have f: "fresh_run n n' cs" and run: "n_pollingRunning n' = (xs \<noteq> [] \<and> last xs \<noteq> None)"
    using poll_run_ok [OF assms(1,3)] assms(2) by auto
  then have ok: "node_ok n'" and cs: "cs = [n_nextChan n..<n_nextChan n']"
    by (simp_all add: fresh_run_def)
  have p: "polling_ok n'" "polling_ok n" using ok assms(1) by (simp_all add: node_ok_def)
  have "n_pollCancel n = None" using p(2) assms(2) by (auto simp: polling_ok_def)
  then have old: "n_pollCancel n' = Some c \<Longrightarrow> n_nextChan n \<le> c" for c
    using f by (auto simp: fresh_run_def)
  have l: "set ?l = set_option (n_pollCancel n')"
    using old p(1) by (auto simp: cs polling_ok_def)
  have d: "distinct ?l" by (simp add: cs)
  have "length ?l = card (set_option (n_pollCancel n'))" using distinct_card [OF d] l by simp
  then have "length ?l \<le> 1" by (cases "n_pollCancel n'") simp_all
  moreover have "(?l \<noteq> []) = n_pollingRunning n'"
    unfolding set_empty [symmetric] l using p(1) by (cases "n_pollCancel n'") (simp_all add: polling_ok_def)
  ultimately show ?thesis using ok run by (simp add: node_ok_def cs)
qed

theorem one_broadcaster_witness:
  "\<exists>n' cs. poll_run [Some (\<lambda>_. sample_reading), None, Some (\<lambda>_. sample_reading)] sample_node = (n', cs) \<and>
     length (filter (\<lambda>c. c \<notin> n_closedChans n') cs) \<le> 1 \<and> n_pollingRunning n'"
proof -
  have "\<not> n_pollingRunning sample_node" by (simp add: sample_node_def initial_node_def)
  moreover obtain n' cs where r: "poll_run [Some (\<lambda>_. sample_reading), None, Some (\<lambda>_. sample_reading)] sample_node = (n', cs)"
    by fastforce
  ultimately show ?thesis using one_broadcaster [OF sample_node_ok _ r] r by auto
qed

end
