(* ===== verification/Api_Invariant.thy ===== *)
theory Api_Invariant imports Api_Stream Api_Spawn Node_Observer_Theorems begin

text \<open>
  The invariant of the server of \<open>internal/api/handler.go\<close>: its node and its process
  manager are well formed, and every sequence of requests, with the goroutines of the hub
  they start, keeps them so, gives back the subscriptions and leaves the polling as it should be.
\<close>

definition server_ok :: "server \<Rightarrow> bool" where
  "server_ok s \<longleftrightarrow> node_ok (s_node s) \<and> manager_ok (s_procMgr s)"

named_theorems keeps

text \<open>The operations of the node.\<close>

lemma node_ok_hub: "node_ok n \<Longrightarrow> hub_ok h \<Longrightarrow> node_ok (n\<lparr>n_hub := h\<rparr>)"
  by (simp add: node_ok_def maps_ok_def polling_ok_def)

lemma node_ok_AddVoter [keeps]: "node_ok n \<Longrightarrow> node_ok (fst (AddVoter e add i ra ha n))"
  by (auto simp: AddVoter_def RegisterPeerHTTP_def Let_def node_ok_maps node_ok_finite split: option.split)

lemma node_ok_RemoveServer [keeps]: "node_ok n \<Longrightarrow> node_ok (fst (RemoveServer e rem i n))"
  by (auto simp: RemoveServer_def Let_def node_ok_maps node_ok_finite split: option.split)

lemma node_ok_ApplyKV [keeps]: "node_ok n \<Longrightarrow> node_ok (fst (ApplyKV tz e apply op k v n))"
  by (auto simp: ApplyKV_cases split: sum.split)

lemma node_ok_SetPeerHealth [keeps]: "node_ok n \<Longrightarrow> node_ok (SetPeerHealth e i b n)"
  by (simp add: SetPeerHealth_def Let_def node_ok_maps node_ok_finite)

lemma node_ok_run_go:
  "node_ok n \<Longrightarrow> node_ok (fst (onSSEActivated e n))" "node_ok n \<Longrightarrow> node_ok (onSSEDeactivated n)"
  using activate_ok(1) [of n e "fst (onSSEActivated e n)" "snd (onSSEActivated e n)"] deactivate_ok(1) [of n]
  by (simp_all add: fresh_run_def)

section \<open>The clients and the polling\<close>

lemma Broadcast_subscribers [simp]:
  "h_clients (Broadcast e h) = h_clients h" "h_onActivate (Broadcast e h) = h_onActivate h"
  "h_onDeactivate (Broadcast e h) = h_onDeactivate h"
  by (simp_all add: Broadcast_def broadcastDirect_stamped Let_def)

definition same_clients :: "node \<Rightarrow> node \<Rightarrow> bool" where
  "same_clients n m \<longleftrightarrow> h_clients (n_hub m) = h_clients (n_hub n) \<and> h_onActivate (n_hub m) = h_onActivate (n_hub n) \<and>
     h_onDeactivate (n_hub m) = h_onDeactivate (n_hub n) \<and> n_pollingRunning m = n_pollingRunning n"

lemma same_clients_refl [keeps]: "same_clients n n"
  by (simp add: same_clients_def)

lemma same_clients_trans: "same_clients n m \<Longrightarrow> same_clients m k \<Longrightarrow> same_clients n k"
  by (simp add: same_clients_def)

lemma same_clients_AddVoter [keeps]: "same_clients n (fst (AddVoter e add i ra ha n))"
  by (simp add: same_clients_def AddVoter_def RegisterPeerHTTP_def Let_def split: option.split)

lemma same_clients_RemoveServer [keeps]: "same_clients n (fst (RemoveServer e rem i n))"
  by (simp add: same_clients_def RemoveServer_def Let_def split: option.split)

lemma same_clients_ApplyKV [keeps]: "same_clients n m \<Longrightarrow> same_clients n (fst (ApplyKV tz e apply op k v m))"
  by (simp add: same_clients_def ApplyKV_cases split: sum.split)

lemma same_clients_broadcast [keeps]: "same_clients n (broadcast ev n)"
  by (simp add: same_clients_def)

lemma same_clients_SetPeerHealth [keeps]: "same_clients n (SetPeerHealth e i b n)"
  by (simp add: same_clients_def SetPeerHealth_def Let_def)

text \<open>The goroutines of the hub that a request starts.\<close>

definition hub_gos :: "api_effect list \<Rightarrow> hub_go list" where
  "hub_gos effs = concat (map (\<lambda>x. case x of Go g \<Rightarrow> [g] | _ \<Rightarrow> []) effs)"

lemma hub_gos_simps [simp]:
  "hub_gos [] = []" "hub_gos (xs @ ys) = hub_gos xs @ hub_gos ys" "hub_gos (map OsEffect es) = []"
  "hub_gos [ScheduleExit] = []" "hub_gos [Call m u b] = []" "hub_gos (map Go gs) = gs"
  by (simp_all add: hub_gos_def comp_def)

fun run_hub_go :: "engine \<Rightarrow> hub_go \<Rightarrow> node \<Rightarrow> node" where
  "run_hub_go e GoActivate n = fst (onSSEActivated e n)"
| "run_hub_go e GoDeactivate n = onSSEDeactivated n"

lemma node_ok_run_hub_gos: "node_ok n \<Longrightarrow> node_ok (fold (run_hub_go e) gs n)"
proof (induction gs arbitrary: n)
  case (Cons g gs)
  then show ?case by (cases g) (simp_all add: node_ok_run_go)
qed simp

lemma run_hub_go_clients:
  assumes "node_ok n"
  shows "h_clients (n_hub (run_hub_go e g n)) = h_clients (n_hub n)"
    and "h_onActivate (n_hub (run_hub_go e g n)) = h_onActivate (n_hub n)"
    and "h_onDeactivate (n_hub (run_hub_go e g n)) = h_onDeactivate (n_hub n)"
    and "n_pollingRunning (run_hub_go e g n) = (g = GoActivate)"
proof -
  show "n_pollingRunning (run_hub_go e g n) = (g = GoActivate)"
    using activate_ok(2) [of n e] deactivate_ok(2) [of n] assms by (cases g) (auto simp: prod_eq_iff)
  show "h_clients (n_hub (run_hub_go e g n)) = h_clients (n_hub n)"
    "h_onActivate (n_hub (run_hub_go e g n)) = h_onActivate (n_hub n)"
    "h_onDeactivate (n_hub (run_hub_go e g n)) = h_onDeactivate (n_hub n)"
    by (cases g; simp add: onSSEActivated_def onSSEDeactivated_def Let_def split: option.split)+
qed

section \<open>The environment\<close>

text \<open>Other requests, other goroutines and the handlers of the libraries do not break the server: they
  keep the node and the manager well formed, do not take back a port and do not panic.\<close>

definition outside_ok :: "api_env \<Rightarrow> bool" where
  "outside_ok env \<longleftrightarrow> client_ok env \<and> others_spawn_ok env \<and>
     (\<forall>k n. node_ok n \<longrightarrow> node_ok (en_others env k n)) \<and> (\<forall>w \<in> set (en_wakes env). \<forall>n. node_ok n \<longrightarrow> node_ok (w n)) \<and>
     (\<forall>req r. \<not> rw_panicked r \<longrightarrow> \<not> rw_panicked (en_static env req r)) \<and>
     (\<forall>req p r. \<not> rw_panicked r \<longrightarrow> \<not> rw_panicked (en_redirect env req p r))"

text \<open>No other client comes or goes while a stream runs.\<close>

definition others_quiet :: "api_env \<Rightarrow> bool" where
  "others_quiet env \<longleftrightarrow> (\<forall>k n. same_clients n (en_others env k n)) \<and> (\<forall>w \<in> set (en_wakes env). \<forall>n. same_clients n (w n))"

lemma manager_ok_spawn_loop [keeps]:
  "outside_ok env \<Longrightarrow> manager_ok m \<Longrightarrow> manager_ok (fst (spawn_loop env join k i peers m))"
  using spawn_loop_bounds [of env m join k i peers]
  by (cases "spawn_loop env join k i peers m") (auto simp: outside_ok_def)

section \<open>The handlers\<close>

text \<open>The contract: a handler keeps the server well formed and the clients as they are, and
  starts no goroutine of the hub.\<close>

locale keeping_handler =
  fixes handle :: "api_env \<Rightarrow> request \<Rightarrow> server \<Rightarrow> response \<Rightarrow> answer"
  assumes keeps_ok: "outside_ok env \<Longrightarrow> server_ok s \<Longrightarrow> server_ok (fst (handle env req s r))"
    and keeps_clients: "same_clients (s_node s) (s_node (fst (handle env req s r)))"
    and starts_none: "hub_gos (snd (snd (handle env req s r))) = []"
begin

lemma kept: "handle env req s r = (s', r', effs) \<Longrightarrow>
  (outside_ok env \<longrightarrow> server_ok s \<longrightarrow> server_ok s') \<and> same_clients (s_node s) (s_node s') \<and> hub_gos effs = []"
  using keeps_ok [of env s req r] keeps_clients [of s env req r] starts_none [of env req s r] by auto

end

lemma proxyJSON_gos [simp]: "hub_gos (snd (proxyJSON env m u j r)) = []"
  by (simp add: proxyJSON_def Let_def split: client_result.split)

lemma forward_or_server [simp]:
  "fst (forward_or env path payload otherwise s r) = s"
  "hub_gos (snd (snd (forward_or env path payload otherwise s r))) = []"
  by (auto simp: forward_or_def forwardToLeader_def reply_def Let_def split: option.split prod.split)

lemmas handler_defs = decodeBody_cases Let_def reply_def case_prod_beta server_ok_def

interpretation get_state_kept: keeping_handler handleGetState
  by unfold_locales (simp_all add: handleGetState_def handler_defs keeps)

interpretation fsm_data_kept: keeping_handler handleFSMData
  by unfold_locales (simp_all add: handleFSMData_def handler_defs keeps)

interpretation join_kept: keeping_handler handleJoin
  by unfold_locales (auto simp: handleJoin_def handler_defs keeps split: option.split)

interpretation remove_kept: keeping_handler handleRemove
  by unfold_locales (auto simp: handleRemove_def handler_defs keeps split: option.split)

interpretation transfer_kept: keeping_handler handleLeaderTransfer
  by unfold_locales (auto simp: handleLeaderTransfer_def handler_defs keeps split: option.split)

interpretation set_kept: keeping_handler handleFSMSet
  by unfold_locales (auto simp: handleFSMSet_def handler_defs keeps split: option.split)

interpretation delete_kept: keeping_handler handleFSMDelete
  by unfold_locales (auto simp: handleFSMDelete_def handler_defs keeps split: option.split)

interpretation spawn_kept: keeping_handler handleSpawnNodes
  by unfold_locales (auto simp: handleSpawnNodes_def handler_defs keeps)

interpretation stop_kept: keeping_handler "\<lambda>env. handleStopNode env i" for i
  by unfold_locales (auto simp: handleStopNode_def handler_defs keeps manager_ok_StopProcess)

interpretation remove_node_kept: keeping_handler "\<lambda>env. handleRemoveNode env i" for i
  by unfold_locales (auto simp: handleRemoveNode_def handler_defs keeps manager_ok_StopProcess requestRemove_def)

section \<open>The event stream\<close>

lemma sse_live_ok:
  "node_ok n \<Longrightarrow> \<forall>w \<in> set ws. \<forall>n. node_ok n \<longrightarrow> node_ok (w n) \<Longrightarrow> node_ok (fst (sse_live tz ch ws n r))"
proof (induction ws arbitrary: n r)
  case (Cons w ws)
  have w: "node_ok (w n)" using Cons.prems by simp
  then have "hub_ok (snd (receive ch (n_hub (w n))))" by (simp add: node_ok_def hub_ok_receive)
  then have "node_ok (w n\<lparr>n_hub := snd (receive ch (n_hub (w n)))\<rparr>)" using w by (rule node_ok_hub [rotated])
  then show ?case
    using Cons w by (cases "receive ch (n_hub (w n))") (auto simp: Let_def split: option.split)
qed simp

lemma sse_live_clients:
  "\<forall>w \<in> set ws. \<forall>n. same_clients n (w n) \<Longrightarrow> same_clients n (fst (sse_live tz ch ws n r))"
proof (induction ws arbitrary: n r)
  case (Cons w ws)
  have w: "same_clients n (w n)" using Cons.prems by simp
  have "same_clients (w n) (w n\<lparr>n_hub := snd (receive ch (n_hub (w n)))\<rparr>)"
    by (simp add: same_clients_def receive_def split: list.split)
  then have r: "same_clients n (w n\<lparr>n_hub := snd (receive ch (n_hub (w n)))\<rparr>)" by (rule same_clients_trans [OF w])
  show ?case
    using Cons.IH Cons.prems w same_clients_trans [OF r] same_clients_trans [OF w]
    by (cases "receive ch (n_hub (w n))") (auto simp: Let_def split: option.split)
qed (simp add: keeps)

lemma fold_writeSSE_panicked [simp]: "rw_panicked (fold (writeSSE tz) es r) = rw_panicked r"
  by (induction es arbitrary: r) (simp_all add: writeSSE_def)

lemma sse_live_panicked [simp]: "rw_panicked (snd (sse_live tz ch ws n r)) = rw_panicked r"
proof (induction ws arbitrary: n r)
  case (Cons w ws)
  show ?case
    using Cons by (cases "receive ch (n_hub (w n))") (auto simp: Let_def writeSSE_def split: option.split)
qed simp

text \<open>The node when the stream ends, before the client is unsubscribed.\<close>

definition streamed :: "api_env \<Rightarrow> node \<Rightarrow> node" where
  "streamed env n =
     (let (ch, h, started) = Subscribe (n_hub n);
          n1 = en_others env 0 (n\<lparr>n_hub := h\<rparr>); n2 = en_others env 1 n1; n3 = en_others env 2 n2
      in fst (sse_live (en_tz env) ch (en_wakes env) n3 new_response))"

lemma sse_live_node: "fst (sse_live tz ch ws n r) = fst (sse_live tz ch ws n r')"
proof (induction ws arbitrary: n r r')
  case (Cons w ws)
  show ?case
    using Cons by (cases "receive ch (n_hub (w n))") (simp add: Let_def split: option.split)
qed simp

lemma events_answer:
  "fst (handleSSEEvents env req s r) =
     (if en_flusher env
      then s\<lparr>s_node := (streamed env (s_node s))\<lparr>n_hub :=
             fst (unsubscribe (fst (Subscribe (n_hub (s_node s)))) (n_hub (streamed env (s_node s))))\<rparr>\<rparr>
      else s)"
  "hub_gos (snd (snd (handleSSEEvents env req s r))) =
     (if en_flusher env
      then snd (snd (Subscribe (n_hub (s_node s)))) @
           snd (unsubscribe (fst (Subscribe (n_hub (s_node s)))) (n_hub (streamed env (s_node s))))
      else [])"
proof -
  have live: "fst (sse_live (en_tz env) (fst (Subscribe (n_hub (s_node s)))) (en_wakes env)
      (en_others env 2 (en_others env 1 (en_others env 0 (s_node s\<lparr>n_hub := fst (snd (Subscribe (n_hub (s_node s))))\<rparr>)))) r') =
    streamed env (s_node s)" for r'
    unfolding streamed_def case_prod_beta Let_def by (rule sse_live_node)
  show "fst (handleSSEEvents env req s r) =
     (if en_flusher env
      then s\<lparr>s_node := (streamed env (s_node s))\<lparr>n_hub :=
             fst (unsubscribe (fst (Subscribe (n_hub (s_node s)))) (n_hub (streamed env (s_node s))))\<rparr>\<rparr>
      else s)"
    "hub_gos (snd (snd (handleSSEEvents env req s r))) =
     (if en_flusher env
      then snd (snd (Subscribe (n_hub (s_node s)))) @
           snd (unsubscribe (fst (Subscribe (n_hub (s_node s)))) (n_hub (streamed env (s_node s))))
      else [])"
    by (simp_all add: handleSSEEvents_def reply_def case_prod_beta Let_def live del: One_nat_def)
qed

lemma events_panicked: "\<not> rw_panicked r \<Longrightarrow> \<not> rw_panicked (fst (snd (handleSSEEvents env req s r)))"
  by (auto simp: handleSSEEvents_def reply_def case_prod_beta Let_def writeSSE_def sse_headers_def http_error_def
      write_header_def)

lemma streamed_ok:
  assumes "outside_ok env" and "node_ok n"
  shows "node_ok (streamed env n)"
proof -
  have o: "node_ok m \<Longrightarrow> node_ok (en_others env k m)" for k m using assms(1) by (simp add: outside_ok_def)
  have w: "\<forall>w \<in> set (en_wakes env). \<forall>n. node_ok n \<longrightarrow> node_ok (w n)" using assms(1) by (simp add: outside_ok_def)
  have "hub_ok (fst (snd (Subscribe (n_hub n))))"
    using hub_ok_Subscribe [of "n_hub n" "fst (Subscribe (n_hub n))"] assms(2) by (simp add: node_ok_def prod_eq_iff)
  then show ?thesis
    unfolding streamed_def case_prod_beta Let_def using assms(2) by (intro sse_live_ok o node_ok_hub w)
qed

lemma streamed_clients:
  assumes "others_quiet env"
  shows "same_clients (n\<lparr>n_hub := fst (snd (Subscribe (n_hub n)))\<rparr>) (streamed env n)"
proof -
  have o: "same_clients m (en_others env k m)" for k m using assms by (simp add: others_quiet_def)
  have w: "\<forall>w \<in> set (en_wakes env). \<forall>n. same_clients n (w n)" using assms by (simp add: others_quiet_def)
  show ?thesis
    unfolding streamed_def case_prod_beta Let_def
    by (rule same_clients_trans [OF o same_clients_trans [OF o same_clients_trans [OF o sse_live_clients [OF w]]]])
qed

text \<open>The stream takes a client that was not there and gives it back; it asks for the
  polling to start and to stop exactly when it is the only one.\<close>

definition polling_matches :: "node \<Rightarrow> bool" where
  "polling_matches n \<longleftrightarrow> h_onActivate (n_hub n) \<and> h_onDeactivate (n_hub n) \<and> n_pollingRunning n = IsActive (n_hub n)"

lemma events_clients:
  assumes "others_quiet env" and "node_ok (s_node s)" and "polling_matches (s_node s)"
    and "handleSSEEvents env req s r = (s', r', effs)"
  shows "same_clients (s_node s) (s_node s')"
    and "hub_gos effs = [] \<or> hub_gos effs = [GoActivate, GoDeactivate] \<and> h_clients (n_hub (s_node s)) = {}"
proof -
  let ?h = "n_hub (s_node s)" and ?m = "streamed env (s_node s)"
  have c: "finite (h_clients ?h)" "h_next ?h \<notin> h_clients ?h"
    using assms(2) by (auto simp: node_ok_def hub_ok_def clients_ok_def)
  have sub: "fst (Subscribe ?h) = h_next ?h" "h_clients (fst (snd (Subscribe ?h))) = insert (h_next ?h) (h_clients ?h)"
    "h_onActivate (fst (snd (Subscribe ?h)))" "h_onDeactivate (fst (snd (Subscribe ?h)))"
    "snd (snd (Subscribe ?h)) = (if h_clients ?h = {} then [GoActivate] else [])"
    using assms(3) c by (auto simp: Subscribe_def Let_def polling_matches_def)
  have m: "h_clients (n_hub ?m) = insert (h_next ?h) (h_clients ?h)" "h_onActivate (n_hub ?m)" "h_onDeactivate (n_hub ?m)"
    "n_pollingRunning ?m = n_pollingRunning (s_node s)"
    using streamed_clients [OF assms(1), of "s_node s"] sub by (simp_all add: same_clients_def)
  have un: "h_clients (fst (unsubscribe (h_next ?h) (n_hub ?m))) = h_clients ?h"
    "h_onActivate (fst (unsubscribe (h_next ?h) (n_hub ?m)))" "h_onDeactivate (fst (unsubscribe (h_next ?h) (n_hub ?m)))"
    "snd (unsubscribe (h_next ?h) (n_hub ?m)) = (if h_clients ?h = {} then [GoDeactivate] else [])"
    using m c by (auto simp: unsubscribe_def close_chan_def Let_def)
  have s': "s' = (if en_flusher env then s\<lparr>s_node := ?m\<lparr>n_hub := fst (unsubscribe (h_next ?h) (n_hub ?m))\<rparr>\<rparr> else s)"
    using events_answer(1) [of env req s r] assms(4) sub(1) by simp
  have g: "hub_gos effs = (if en_flusher env \<and> h_clients ?h = {} then [GoActivate, GoDeactivate] else [])"
    using events_answer(2) [of env req s r] assms(4) sub un by simp
  show "same_clients (s_node s) (s_node s')"
    using un m(4) assms(3) unfolding s' by (simp add: same_clients_def polling_matches_def)
  show "hub_gos effs = [] \<or> hub_gos effs = [GoActivate, GoDeactivate] \<and> h_clients ?h = {}" unfolding g by simp
qed

section \<open>Sequences of requests\<close>

text \<open>Each request is served with a new response writer; the goroutines of the hub it started
  are then run, one after the other.\<close>

fun serve_requests :: "(api_env \<times> request) list \<Rightarrow> server \<Rightarrow> server \<times> response list" where
  "serve_requests [] s = (s, [])"
| "serve_requests ((env, req) # xs) s =
     (let (s1, r, effs) = ServeHTTP env req s new_response;
          (s2, rs) = serve_requests xs (s1\<lparr>s_node := fold (run_hub_go (en_engine env)) (hub_gos effs) (s_node s1)\<rparr>)
      in (s2, r # rs))"

lemma route_keeps:
  assumes "run_route env route req s (cors_headers new_response) = (s', r, effs)" and "outside_ok env" and "server_ok s"
  shows "server_ok s' \<and> \<not> rw_panicked r \<and>
     (route \<noteq> EventsRoute \<longrightarrow> same_clients (s_node s) (s_node s') \<and> hub_gos effs = [])"
proof -
  have c: "client_ok env" using assms(2) by (simp add: outside_ok_def)
  note h = c ready_cors
  have cors: "\<not> rw_panicked (cors_headers new_response)" using ready_cors by (simp add: ready_def)
  show ?thesis
  proof (cases route)
    case EventsRoute
    let ?n = "streamed env (s_node s)"
    have n: "node_ok ?n" using streamed_ok [OF assms(2)] assms(3) by (simp add: server_ok_def)
    then have "node_ok (?n\<lparr>n_hub := fst (unsubscribe ch (n_hub ?n))\<rparr>)" for ch
      by (intro node_ok_hub) (simp_all add: node_ok_def hub_ok_unsubscribe)
    then have "server_ok s'"
      using events_answer(1) [of env req s "cors_headers new_response"] assms(1,3) EventsRoute
      by (auto simp: server_ok_def split: if_splits)
    moreover have "\<not> rw_panicked r" using events_panicked [OF cors, of env req s] assms(1) EventsRoute by simp
    ultimately show ?thesis using EventsRoute by simp
  next
    case StaticRoute
    then show ?thesis
      using assms cors
      by (auto simp: reply_def outside_ok_def same_clients_def root_handler_def http_error_def write_header_def Let_def
          split: if_splits)
  next
    case GetStateRoute then show ?thesis
      using assms get_state_kept.kept get_state.answers [OF h] by (auto simp: answered_def)
  next
    case JoinRoute then show ?thesis
      using assms join_kept.kept join.answers [OF h] by (auto simp: answered_def)
  next
    case RemoveRoute then show ?thesis
      using assms remove_kept.kept remove.answers [OF h] by (auto simp: answered_def)
  next
    case TransferRoute then show ?thesis
      using assms transfer_kept.kept transfer.answers [OF h] by (auto simp: answered_def)
  next
    case SetRoute then show ?thesis
      using assms set_kept.kept fsm_set.answers [OF h] by (auto simp: answered_def)
  next
    case DeleteRoute then show ?thesis
      using assms delete_kept.kept fsm_delete.answers [OF h] by (auto simp: answered_def)
  next
    case DataRoute then show ?thesis
      using assms fsm_data_kept.kept fsm_data.answers [OF h] by (auto simp: answered_def)
  next
    case SpawnRoute then show ?thesis
      using assms spawn_kept.kept spawn.answers [OF h] by (auto simp: answered_def)
  next
    case (StopRoute i) then show ?thesis
      using assms stop_kept.kept stop_node.answers [OF h] by (auto simp: answered_def)
  next
    case (RemoveNodeRoute i) then show ?thesis
      using assms remove_node_kept.kept remove_node.answers [OF h] by (auto simp: answered_def)
  qed
qed

lemma request_keeps:
  assumes "ServeHTTP env req s new_response = (s', r, effs)" and "outside_ok env" and "server_ok s"
  shows "server_ok s' \<and> \<not> rw_panicked r"
    and "others_quiet env \<Longrightarrow> polling_matches (s_node s) \<Longrightarrow> same_clients (s_node s) (s_node s') \<and>
      (hub_gos effs = [] \<or> hub_gos effs = [GoActivate, GoDeactivate] \<and> h_clients (n_hub (s_node s)) = {})"
proof -
  have "\<not> rw_panicked (cors_headers new_response)" using ready_cors by (simp add: ready_def)
  then have direct: "(s' = s \<and> effs = [] \<and> \<not> rw_panicked r) \<or>
      run_route env (routes (rq_Method req) (path_segments (rq_Path req))) req s (cors_headers new_response) = (s', r, effs)"
    using assms(1,2)
    by (auto simp: ServeHTTP_def mux_ServeHTTP_def reply_def outside_ok_def write_header_def Let_def split: if_splits)
  then show "server_ok s' \<and> \<not> rw_panicked r" using route_keeps assms(2,3) by blast
  show "same_clients (s_node s) (s_node s') \<and>
      (hub_gos effs = [] \<or> hub_gos effs = [GoActivate, GoDeactivate] \<and> h_clients (n_hub (s_node s)) = {})"
    if q: "others_quiet env" "polling_matches (s_node s)"
    using direct
  proof
    assume run: "run_route env (routes (rq_Method req) (path_segments (rq_Path req))) req s (cors_headers new_response) = (s', r, effs)"
    show ?thesis
    proof (cases "routes (rq_Method req) (path_segments (rq_Path req)) = EventsRoute")
      case True
      have "node_ok (s_node s)" using assms(3) by (simp add: server_ok_def)
      from events_clients [OF q(1) this q(2)] show ?thesis using run True by simp
    next
      case False
      then show ?thesis using route_keeps [OF run assms(2,3)] by simp
    qed
  qed (simp add: keeps)
qed

lemma goroutines_keep:
  assumes "node_ok n" and "polling_matches n" and "gs = [] \<or> gs = [GoActivate, GoDeactivate] \<and> h_clients (n_hub n) = {}"
  shows "polling_matches (fold (run_hub_go e) gs n) \<and> h_clients (n_hub (fold (run_hub_go e) gs n)) = h_clients (n_hub n)"
  using assms(3)
proof
  assume g: "gs = [GoActivate, GoDeactivate] \<and> h_clients (n_hub n) = {}"
  have n1: "node_ok (run_hub_go e GoActivate n)" using assms(1) by (simp add: node_ok_run_go)
  show ?thesis
    using g assms(2) run_hub_go_clients [OF assms(1), of e GoActivate] run_hub_go_clients [OF n1, of e GoDeactivate]
    by (simp add: polling_matches_def IsActive_def del: run_hub_go.simps)
qed (use assms(2) in simp)

text \<open>Property C9. No sequence of requests breaks the server: whatever is asked of it, on whatever
  routes and with whatever bodies, and whatever the engine, the network and the operating
  system answer, a well-formed server is well formed afterwards - the hub and its channels, the
  state machine, the maps of peers, the polling, the children of the process manager - and no handler
  panics.  (The requests are served one after the other, and the goroutines of the hub that a
  request starts are run one after the other when it has ended; what else runs during a request keeps
  the node and the manager well formed.)  When no other client comes or goes during a
  stream, the requests also give back what they took: the hub has the clients it had, and the
  polling runs exactly when there is one.\<close>

theorem server_stays_ok:
  assumes "server_ok s" and "\<forall>(env, req) \<in> set xs. outside_ok env" and "serve_requests xs s = (s', rs)"
  shows "server_ok s' \<and> length rs = length xs \<and> (\<forall>r \<in> set rs. \<not> rw_panicked r) \<and>
     ((\<forall>(env, req) \<in> set xs. others_quiet env) \<longrightarrow> polling_matches (s_node s) \<longrightarrow>
        polling_matches (s_node s') \<and> h_clients (n_hub (s_node s')) = h_clients (n_hub (s_node s)))"
  using assms
proof (induction xs arbitrary: s rs)
  case (Cons x xs)
  obtain env req where x: "x = (env, req)" by (cases x)
  obtain s1 r effs where a: "ServeHTTP env req s new_response = (s1, r, effs)"
    by (cases "ServeHTTP env req s new_response")
  let ?s2 = "s1\<lparr>s_node := fold (run_hub_go (en_engine env)) (hub_gos effs) (s_node s1)\<rparr>"
  obtain rs' where b: "serve_requests xs ?s2 = (s', rs')" "rs = r # rs'"
    using Cons.prems(3) a by (auto simp: x split: prod.splits)
  have out: "outside_ok env" using Cons.prems(2) by (simp add: x)
  have ok1: "server_ok s1" "\<not> rw_panicked r" using request_keeps(1) [OF a out Cons.prems(1)] by simp_all
  then have ok2: "server_ok ?s2" by (simp add: server_ok_def node_ok_run_hub_gos)
  have IH: "server_ok s' \<and> length rs' = length xs \<and> (\<forall>r \<in> set rs'. \<not> rw_panicked r) \<and>
     ((\<forall>(env, req) \<in> set xs. others_quiet env) \<longrightarrow> polling_matches (s_node ?s2) \<longrightarrow>
        polling_matches (s_node s') \<and> h_clients (n_hub (s_node s')) = h_clients (n_hub (s_node ?s2)))"
    using Cons.IH [OF ok2 _ b(1)] Cons.prems(2) by simp
  have quiet: "polling_matches (s_node ?s2) \<and> h_clients (n_hub (s_node ?s2)) = h_clients (n_hub (s_node s))"
    if q: "others_quiet env" "polling_matches (s_node s)"
  proof -
    have same: "same_clients (s_node s) (s_node s1)"
      and g: "hub_gos effs = [] \<or> hub_gos effs = [GoActivate, GoDeactivate] \<and> h_clients (n_hub (s_node s)) = {}"
      using request_keeps(2) [OF a out Cons.prems(1) q] by simp_all
    have "polling_matches (s_node s1)" "h_clients (n_hub (s_node s1)) = h_clients (n_hub (s_node s))"
      using same q(2) by (simp_all add: same_clients_def polling_matches_def IsActive_def)
    then show ?thesis
      using goroutines_keep [of "s_node s1" "hub_gos effs" "en_engine env"] g ok1(1) by (simp add: server_ok_def)
  qed
  show ?case using IH quiet ok1 by (auto simp: x b(2))
qed simp

lemma sample_server_ok: "server_ok sample_server"
  by (simp add: server_ok_def sample_server_def NewServer_def) (simp add: sample_manager_def manager_ok_New)

definition stream_request :: request where
  "stream_request = \<lparr>rq_Method = ''GET'', rq_Path = ''/events'', rq_Body = []\<rparr>"

theorem server_stays_ok_witness:
  "h_clients (n_hub (s_node (fst (serve_requests
       [(sample_env, post ''/fsm/set'' ''null''), (sample_env, stream_request)] sample_server)))) = {} \<and>
   \<not> n_pollingRunning (s_node (fst (serve_requests
       [(sample_env, post ''/fsm/set'' ''null''), (sample_env, stream_request)] sample_server)))"
proof -
  let ?xs = "[(sample_env, post ''/fsm/set'' ''null''), (sample_env, stream_request)]"
  obtain s' rs where a: "serve_requests ?xs sample_server = (s', rs)" by (cases "serve_requests ?xs sample_server")
  have o: "\<forall>(env, req) \<in> set ?xs. outside_ok env" "\<forall>(env, req) \<in> set ?xs. others_quiet env"
    by (simp_all add: outside_ok_def others_quiet_def client_ok_def others_spawn_ok_def same_clients_def sample_env_def)
  have p: "polling_matches (s_node sample_server)" "h_clients (n_hub (s_node sample_server)) = {}"
    by (simp_all add: polling_matches_def IsActive_def sample_server_def NewServer_def sample_node_def initial_node_def
        NewHub_def)
  have "polling_matches (s_node s') \<and> h_clients (n_hub (s_node s')) = {}"
    using server_stays_ok [OF sample_server_ok o(1) a] o(2) p by simp
  then show ?thesis using a by (simp add: polling_matches_def IsActive_def)
qed

end
