(* ===== verification/Api_Cluster.thy ===== *)
theory Api_Cluster imports Api_Theorems Kv_Fsm_Theorems begin

text \<open>
  The life of a write across the cluster, from the request a client makes of some node
  (\<open>handler.go\<close>), through the node that leads (\<open>node.go\<close>) and the log of the engine, to the
  stores of all nodes (\<open>fsm.go\<close>) and what they answer to a read.
\<close>

section \<open>Reading the store of a node\<close>

lemma serve_fsm_data:
  "ServeHTTP env \<lparr>rq_Method = ''GET'', rq_Path = ''/fsm/data'', rq_Body = b\<rparr> s new_response =
     handleFSMData env \<lparr>rq_Method = ''GET'', rq_Path = ''/fsm/data'', rq_Body = b\<rparr> s (cors_headers new_response)"
proof -
  have "clean_url ''/fsm/data'' = ''/fsm/data''" by code_simp
  moreover have "routes ''GET'' (path_segments ''/fsm/data'') = DataRoute" by code_simp
  ultimately show ?thesis by (simp add: ServeHTTP_def mux_ServeHTTP_def)
qed

text \<open>What a client gets that asks a node for its data.\<close>

definition data_answer :: "api_env \<Rightarrow> server \<Rightarrow> string" where
  "data_answer env s = rw_body (fst (snd (ServeHTTP env \<lparr>rq_Method = ''GET'', rq_Path = ''/fsm/data'', rq_Body = []\<rparr>
     s new_response)))"

lemma data_answer_store:
  "data_answer env s = json_print (JObj [(''data'', string_map_json (f_data (n_fsm (s_node s)))),
     (''history'', JArr (map (applied_entry_json (en_tz env)) (f_history (n_fsm (s_node s)))))]) @ [CHR 0x0A]"
  by (simp add: data_answer_def serve_fsm_data handleFSMData_def reply_def writeJSON_def json_reply_def
      fsm_GetAll_def fsm_GetHistory_def node_FSM_def)

text \<open>The members of the object that is sent: every key of the store once, with its value.\<close>

lemma data_answer_members:
  assumes "f_data (n_fsm (s_node s)) = Some m" and "finite (dom m)"
  obtains members history where "data_answer env s =
      json_print (JObj [(''data'', JObj members), (''history'', JArr history)]) @ [CHR 0x0A]"
    and "distinct (map fst members)" and "map_of members = map_option JStr \<circ> m"
proof
  let ?members = "map (\<lambda>k. (k, JStr (the (m k)))) (sorted_keys (dom m))"
  show "data_answer env s = json_print (JObj [(''data'', JObj ?members),
      (''history'', JArr (map (applied_entry_json (en_tz env)) (f_history (n_fsm (s_node s)))))]) @ [CHR 0x0A]"
    by (simp add: data_answer_store assms(1) string_map_json_def)
  show "distinct (map fst ?members)" by (simp add: comp_def)
  show "map_of ?members = map_option JStr \<circ> m"
    using assms(2) by (auto simp: map_of_map_restrict restrict_map_def fun_eq_iff split: option.split)
qed

section \<open>Writing through any node\<close>

definition written_key :: "string \<Rightarrow> string \<Rightarrow> string" where
  "written_key path body = (if path = ''/fsm/set'' then sb_Key (fst (decode_set body)) else fst (decode_delete body))"

definition written_value :: "string \<Rightarrow> string \<Rightarrow> string option" where
  "written_value path body = (if path = ''/fsm/set'' then Some (sb_Value (fst (decode_set body))) else None)"

text \<open>The node that is asked leads itself, or it follows and reaches the leader.\<close>

definition served_by :: "api_env \<Rightarrow> server \<Rightarrow> api_env \<Rightarrow> server \<Rightarrow> bool" where
  "served_by env s envL sL \<longleftrightarrow> IsLeader (en_engine envL) \<and>
     (env = envL \<and> s = sL \<or>
      \<not> IsLeader (en_engine env) \<and> known_leader env s \<noteq> [] \<and> reaches env (known_leader env s) envL sL)"

lemma served_status:
  assumes "served_by env s envL sL" and "path \<in> {''/fsm/set'', ''/fsm/delete''}"
  shows "rw_status (response_of env path body s) = rw_status (response_of envL path body sL)"
  using assms forwarded_answer [of path env s envL sL body]
  by (auto simp: served_by_def forwarded_paths_def)

text \<open>An entry that does not touch a key.\<close>

definition leaves_alone :: "time_zone \<Rightarrow> string \<Rightarrow> raft_log \<times> time \<Rightarrow> bool" where
  "leaves_alone tz key l \<longleftrightarrow>
     (case operation tz (fst l) of None \<Rightarrow> True | Some (KvSet k v) \<Rightarrow> k \<noteq> key | Some (KvDelete k) \<Rightarrow> k \<noteq> key)"

lemma run_leaves_alone:
  "\<forall>l \<in> set ls. leaves_alone tz key l \<Longrightarrow> fsm_ok f \<Longrightarrow> view (foldl (apply_step tz) f ls) key = view f key"
proof (induction ls arbitrary: f)
  case (Cons l ls)
  have "view (apply_step tz f l) key = view f key"
    using Cons.prems(1) rsm.view_step [OF Cons.prems(2), of tz l]
    by (auto simp: leaves_alone_def split: option.splits kv_op.splits)
  then show ?case using Cons rsm.inv_step [OF Cons.prems(2), of tz l] by simp
qed simp

lemma view_Get: "fsm_ok f \<Longrightarrow> view f k = (case fsm_Get f k of (v, True) \<Rightarrow> Some v | (v, False) \<Rightarrow> None)"
  using data_is_view [of f] by (simp add: fsm_Get_def split: option.split)

lemma written_view:
  assumes "Apply tz now log f = Some (f', None, gs)" and "fsm_ok f" and "written path body f f'"
    and "path \<in> {''/fsm/set'', ''/fsm/delete''}"
  shows "view (apply_step tz f (log, now)) (written_key path body) = written_value path body"
proof -
  have "fsm_ok f'" using Apply_ok [OF assms(2), of tz now log] assms(1) by auto
  moreover have "apply_step tz f (log, now) = f'" using assms(1) by (simp add: apply_step_def)
  ultimately show ?thesis
    using assms(3,4) by (auto simp: view_Get written_def written_key_def written_value_def)
qed

lemma entry_visible:
  assumes "\<And>f now log. fsm_ok f \<Longrightarrow> log_Data log = data \<Longrightarrow>
      \<exists>f' gs. Apply tz now log f = Some (f', None, gs) \<and> written path body f f'"
    and "path \<in> {''/fsm/set'', ''/fsm/delete''}" and "fsm_ok f" and "log_Data (fst l) = data"
    and "list_all (leaves_alone tz (written_key path body)) ks" and "apply_all tz (ls @ l # ks) f = Some f'"
  shows "f_data f' = Some (view f')" and "finite (dom (view f'))"
    and "view f' (written_key path body) = written_value path body"
proof -
  let ?f1 = "foldl (apply_step tz) f ls"
  have f': "f' = foldl (apply_step tz) (apply_step tz ?f1 l) ks" and ok: "fsm_ok ?f1"
    using assms(3,6) apply_all_foldl [OF assms(3)] rsm.inv_run by simp_all
  note ok2 = rsm.inv_step [OF ok, of tz l]
  have ok': "fsm_ok f'" unfolding f' by (rule rsm.inv_run [OF ok2])
  show d: "f_data f' = Some (view f')" by (rule data_is_view [OF ok'])
  show "finite (dom (view f'))" using ok' d by (auto simp: fsm_ok_def utf8_map_def)
  obtain f2 gs where "Apply tz (snd l) (fst l) ?f1 = Some (f2, None, gs)" "written path body ?f1 f2"
    using assms(1) [OF ok assms(4)] by blast
  from written_view [OF this(1) ok this(2) assms(2)]
  show "view f' (written_key path body) = written_value path body"
    unfolding f' using run_leaves_alone [OF _ ok2] assms(5) by (simp add: list_all_iff)
qed

text \<open>Property C3. Whichever node a client asks, and whichever it reads from: a write that is
  answered 200 is an entry the leader's engine accepted, and every node whose store has
  applied that entry, at any place of the log, and after it only entries that do not touch
  the key, answers a read with an object that has every key of its store once, with its
  value; in it the key has the value that was written, or is missing if it was deleted.\<close>

theorem write_visible_everywhere:
  assumes "path \<in> {''/fsm/set'', ''/fsm/delete''}" and "served_by env s envL sL"
    and "rw_status (response_of env path body s) = Some 200"
    and "\<forall>i. time_survives (en_tz envL) (rd_Now (en_engine envL i))" and "valid_utf8 (node_ID (s_node sL))"
  shows "\<exists>data index. en_apply envL data = Inr index \<and>
     (\<forall>f before l later_entries f' envR sR.
        fsm_ok f \<longrightarrow> log_Data (fst l) = data \<longrightarrow>
        list_all (leaves_alone (en_tz envL) (written_key path body)) later_entries \<longrightarrow>
        apply_all (en_tz envL) (before @ l # later_entries) f = Some f' \<longrightarrow> n_fsm (s_node sR) = f' \<longrightarrow>
        (\<exists>m members history. f_data f' = Some m \<and>
           data_answer envR sR = json_print (JObj [(''data'', JObj members), (''history'', JArr history)]) @ [CHR 0x0A] \<and>
           distinct (map fst members) \<and> map_of members = map_option JStr \<circ> m \<and>
           map_of members (written_key path body) = map_option JStr (written_value path body)))"
proof -
  have "rw_status (response_of envL path body sL) = Some 200" "IsLeader (en_engine envL)"
    using served_status [OF assms(2,1), of body] assms(2,3) by (simp_all add: served_by_def)
  from acknowledged_write [OF assms(1) this(2,1) assms(4,5)]
  obtain data index where i: "en_apply envL data = Inr index"
    and effect: "\<And>f now log. fsm_ok f \<Longrightarrow> log_Data log = data \<Longrightarrow>
      \<exists>f' gs. Apply (en_tz envL) now log f = Some (f', None, gs) \<and> written path body f f'"
    by blast
  have "\<exists>m members history. f_data f' = Some m \<and>
      data_answer envR sR = json_print (JObj [(''data'', JObj members), (''history'', JArr history)]) @ [CHR 0x0A] \<and>
      distinct (map fst members) \<and> map_of members = map_option JStr \<circ> m \<and>
      map_of members (written_key path body) = map_option JStr (written_value path body)"
    if h: "fsm_ok f" "log_Data (fst l) = data" "list_all (leaves_alone (en_tz envL) (written_key path body)) later_entries"
      "apply_all (en_tz envL) (before @ l # later_entries) f = Some f'" "n_fsm (s_node sR) = f'"
    for f before l later_entries f' envR sR
  proof -
    note v = entry_visible [of data "en_tz envL" path body, OF effect assms(1) h(1-4)]
    obtain members history where "data_answer envR sR =
        json_print (JObj [(''data'', JObj members), (''history'', JArr history)]) @ [CHR 0x0A]"
      "distinct (map fst members)" "map_of members = map_option JStr \<circ> view f'"
      using data_answer_members [of sR "view f'"] v(1,2) h(5) by metis
    then show ?thesis
      using v(1,3) by (intro exI [of _ "view f'"] exI [of _ members] exI [of _ history]) simp
  qed
  then show ?thesis using i by blast
qed

theorem write_visible_everywhere_witness:
  "\<exists>data index f' members history. en_apply sample_env data = Inr index \<and>
     apply_all sample_tz [(\<lparr>log_Index = 1, log_Term = 1, log_Data = data\<rparr>, 7)] NewKVStoreFSM = Some f' \<and>
     data_answer sample_env (sample_server\<lparr>s_node := sample_node\<lparr>n_fsm := f'\<rparr>\<rparr>) =
       json_print (JObj [(''data'', JObj members), (''history'', JArr history)]) @ [CHR 0x0A] \<and>
     map_of members ''city'' = Some (JStr ''ankara'')"
proof -
  let ?b = "json_print (set_json \<lparr>sb_Key = ''city'', sb_Value = ''ankara''\<rparr>)"
  have d: "decode_set ?b = (\<lparr>sb_Key = ''city'', sb_Value = ''ankara''\<rparr>, True)" by (rule decode_set_json) simp_all
  then have k: "written_key ''/fsm/set'' ?b = ''city''" "written_value ''/fsm/set'' ?b = Some ''ankara''"
    by (simp_all add: written_key_def written_value_def)
  have served: "served_by sample_env sample_server sample_env sample_server"
    by (simp add: served_by_def IsLeader_def sample_env_def)
  have status: "rw_status (response_of sample_env ''/fsm/set'' ?b sample_server) = Some 200"
    by (simp add: route_defs handleFSMSet_def d status_200 IsLeader_def sample_env_def ApplyKV_cases)
  have "time_survives sample_tz 5" by (simp add: sample_tz_def time_survives_def)
  then have "\<forall>i. time_survives (en_tz sample_env) (rd_Now (en_engine sample_env i))"
    and "valid_utf8 (node_ID (s_node sample_server))" and tz: "en_tz sample_env = sample_tz"
    by (simp_all add: sample_env_def sample_server_def NewServer_def)
  from write_visible_everywhere [OF _ served status this(1,2), unfolded k]
  obtain data index where i: "en_apply sample_env data = Inr index"
    and all: "\<And>f before l later_entries f' envR sR. fsm_ok f \<Longrightarrow> log_Data (fst l) = data \<Longrightarrow>
        list_all (leaves_alone (en_tz sample_env) ''city'') later_entries \<Longrightarrow>
        apply_all (en_tz sample_env) (before @ l # later_entries) f = Some f' \<Longrightarrow> n_fsm (s_node sR) = f' \<Longrightarrow>
        \<exists>members history. data_answer envR sR =
           json_print (JObj [(''data'', JObj members), (''history'', JArr history)]) @ [CHR 0x0A] \<and>
           map_of members ''city'' = Some (JStr ''ankara'')"
    unfolding option.map(2) by blast
  let ?l = "(\<lparr>log_Index = 1, log_Term = 1, log_Data = data\<rparr>, 7)"
  obtain f' where f': "apply_all sample_tz [?l] NewKVStoreFSM = Some f'"
    using apply_all_foldl [of NewKVStoreFSM sample_tz "[?l]"] by simp
  let ?sR = "sample_server\<lparr>s_node := sample_node\<lparr>n_fsm := f'\<rparr>\<rparr>"
  have "\<exists>members history. data_answer sample_env ?sR =
      json_print (JObj [(''data'', JObj members), (''history'', JArr history)]) @ [CHR 0x0A] \<and>
      map_of members ''city'' = Some (JStr ''ankara'')"
    by (rule all [of NewKVStoreFSM ?l "[]" "[]" f']) (use f' in \<open>simp_all add: tz\<close>)
  then show ?thesis using i f' by blast
qed

end
