(* ===== verification/Main_Theorems.thy ===== *)
theory Main_Theorems imports Process_Theorems Raft_Node_Theorems begin

text \<open>
  The properties of \<open>main.go\<close>: what a spawned process reads from the command line its
  manager wrote, which node it starts and whom it asks to join, and the join loop.
\<close>

section \<open>The command line\<close>

lemma split_flag_eq:
  "CHR ''='' \<notin> set n \<Longrightarrow> split_flag (c # n @ CHR ''='' # v) = (c # n, Some v)"
  by (simp add: split_flag_def index_of_append_fresh)

lemma parse_string_flag:
  assumes "CHR ''='' \<notin> set n" and "c \<noteq> CHR ''-''" and "c \<noteq> CHR ''=''" and "c # n \<noteq> ''bootstrap''"
    and "set_string_flag (c # n) v cfg = Some cfg'"
  shows "parse_flags ((''--'' @ (c # n) @ CHR ''='' # v) # args) cfg = parse_flags args cfg'"
  using assms split_flag_eq [OF assms(1), of c v] by (auto simp: Let_def)

lemma parse_spawn_args:
  "parse_flags (spawn_args i ra ha d j) cfg =
     Some (cfg\<lparr>c_NodeID := i, c_RaftAddr := ra, c_HTTPAddr := ha, c_DataDir := d, c_JoinAddr := j\<rparr>)"
proof -
  have args: "spawn_args i ra ha d j =
      [''--'' @ (CHR ''n'' # ''ode-id'') @ CHR ''='' # i, ''--'' @ (CHR ''r'' # ''aft-addr'') @ CHR ''='' # ra,
       ''--'' @ (CHR ''h'' # ''ttp-addr'') @ CHR ''='' # ha, ''--'' @ (CHR ''d'' # ''ata-dir'') @ CHR ''='' # d,
       ''--'' @ (CHR ''j'' # ''oin-addr'') @ CHR ''='' # j]"
    by (simp add: spawn_args_def)
  have 1: "set_string_flag (CHR ''n'' # ''ode-id'') v c = Some (c\<lparr>c_NodeID := v\<rparr>)"
    "set_string_flag (CHR ''r'' # ''aft-addr'') v c = Some (c\<lparr>c_RaftAddr := v\<rparr>)"
    "set_string_flag (CHR ''h'' # ''ttp-addr'') v c = Some (c\<lparr>c_HTTPAddr := v\<rparr>)"
    "set_string_flag (CHR ''d'' # ''ata-dir'') v c = Some (c\<lparr>c_DataDir := v\<rparr>)"
    "set_string_flag (CHR ''j'' # ''oin-addr'') v c = Some (c\<lparr>c_JoinAddr := v\<rparr>)" for v c
    by (simp_all add: set_string_flag_def)
  have 2: "parse_flags ((''--'' @ (CHR ''n'' # ''ode-id'') @ CHR ''='' # v) # r) c = parse_flags r (c\<lparr>c_NodeID := v\<rparr>)"
    "parse_flags ((''--'' @ (CHR ''r'' # ''aft-addr'') @ CHR ''='' # v) # r) c = parse_flags r (c\<lparr>c_RaftAddr := v\<rparr>)"
    "parse_flags ((''--'' @ (CHR ''h'' # ''ttp-addr'') @ CHR ''='' # v) # r) c = parse_flags r (c\<lparr>c_HTTPAddr := v\<rparr>)"
    "parse_flags ((''--'' @ (CHR ''d'' # ''ata-dir'') @ CHR ''='' # v) # r) c = parse_flags r (c\<lparr>c_DataDir := v\<rparr>)"
    "parse_flags ((''--'' @ (CHR ''j'' # ''oin-addr'') @ CHR ''='' # v) # r) c = parse_flags r (c\<lparr>c_JoinAddr := v\<rparr>)"
    for v r c
    by (rule parse_string_flag, simp, simp, simp, simp, rule 1)+
  show ?thesis unfolding args 2 by simp
qed

section \<open>The join address\<close>

lemma trim_right_keep: "s \<noteq> [] \<Longrightarrow> last s \<noteq> c \<Longrightarrow> trim_right s c = s"
  by (cases s rule: rev_cases) (auto simp: trim_right_def)

lemma normalizeJoinAddr_url:
  assumes "a \<noteq> []" and "last a \<noteq> CHR ''/''" and "take 8 a \<noteq> ''https://''"
  shows "normalizeJoinAddr (''http://'' @ a) = a"
proof -
  have "trim_prefix (''http://'' @ a) ''http://'' = a" by (rule trim_prefix_append)
  moreover have "trim_prefix a ''https://'' = a" using assms(3) by (simp add: trim_prefix_def eval_nat_numeral)
  ultimately show ?thesis using trim_right_keep [OF assms(1,2)] by (simp only: normalizeJoinAddr_def)
qed

text \<open>An address that a node is reached at: not empty, no slash.\<close>

definition plain_address :: "string \<Rightarrow> bool" where
  "plain_address a \<longleftrightarrow> a \<noteq> [] \<and> CHR ''/'' \<notin> set a"

lemma normalizeJoinAddr_plain:
  assumes "plain_address a"
  shows "normalizeJoinAddr (''http://'' @ a) = a"
proof (rule normalizeJoinAddr_url)
  show "a \<noteq> []" using assms by (simp add: plain_address_def)
  then show "last a \<noteq> CHR ''/''" using assms last_in_set [of a] by (metis plain_address_def)
  show "take 8 a \<noteq> ''https://''"
  proof
    assume "take 8 a = ''https://''"
    then have "CHR ''/'' \<in> set (take 8 a)" by simp
    then show False using assms set_take_subset [of 8 a] by (auto simp: plain_address_def)
  qed
qed

section \<open>A spawned node\<close>

lemma path_join_data_nonempty: "path_join (''data'' # ws) \<noteq> []"
  by (simp add: path_join_def path_clean_def Let_def)

text \<open>What \<open>main\<close> starts, when it starts at all.\<close>

lemma main_start_Inr:
  assumes "main_start su exe args = Inr r"
  obtains cfg boot where "parse_flags args default_config = Some cfg" "NewNode su cfg = Inr (run_node r, boot, run_pending r)"
    "run_listen r = c_HTTPAddr cfg"
    "run_join r = (if c_JoinAddr cfg \<noteq> [] \<and> \<not> c_Bootstrap cfg
       then Some (normalizeJoinAddr (c_JoinAddr cfg), c_NodeID cfg, c_RaftAddr cfg, c_HTTPAddr cfg) else None)"
  using assms that by (auto simp: main_start_def split: option.splits sum.splits prod.splits)

lemma NewNode_cfg:
  "NewNode su cfg = Inr (n, boot, gs) \<Longrightarrow> n_cfg n = with_DataDir cfg \<and> (c_Bootstrap cfg \<or> boot = None)"
proof -
  assume r: "NewNode su cfg = Inr (n, boot, gs)"
  have "n = fst (start_raft su (initial_node (with_DataDir cfg) (su_clock su)))" by (rule NewNode_Inr(1) [OF r])
  then have "n_cfg n = with_DataDir cfg" by (simp add: initial_node_def)
  then show ?thesis using NewNode_Inr(3) [OF r] by (simp split: if_splits)
qed

text \<open>Property C37. A spawned process is the node its manager describes: run with the command
  line of \<open>SpawnNode\<close>, \<open>main\<close> - when it starts - runs a node with the name, the Raft address,
  the HTTP address and the data directory that the manager returned, listens on that HTTP
  address, does not bootstrap a cluster of its own, and asks to join at the address of the
  leader the manager was given, or of the manager's own node, naming itself and its
  addresses.\<close>

theorem spawned_node_joins:
  assumes "SpawnNode os i join m = (m', eff, Inr p)" and "StartProcess exe args \<in> set eff"
    and "join = [] \<and> plain_address target \<and> target = m_localHTTP m
         \<or> plain_address target \<and> join = ''http://'' @ target"
    and "main_start su exe' args = Inr r"
  shows "n_cfg (run_node r) = \<lparr>c_NodeID = i, c_RaftAddr = pr_RaftAddr p, c_HTTPAddr = pr_HTTPAddr p,
           c_DataDir = pr_DataDir p, c_Bootstrap = False, c_JoinAddr = ''http://'' @ target\<rparr> \<and>
     run_listen r = pr_HTTPAddr p \<and>
     run_join r = Some (target, i, pr_RaftAddr p, pr_HTTPAddr p)"
proof -
  have "(if join = [] then ''http://'' @ m_localHTTP m else join) = ''http://'' @ target"
    using assms(3) by (elim disjE conjE) simp_all
  then have eff: "args = spawn_args i (pr_RaftAddr p) (pr_HTTPAddr p) (pr_DataDir p) (''http://'' @ target)"
    "pr_DataDir p = path_join [''data'', i]"
    using SpawnNode_started [OF assms(1,2)] by simp_all
  have d: "pr_DataDir p \<noteq> []" using eff(2) path_join_data_nonempty by simp
  have norm: "normalizeJoinAddr (''http://'' @ target) = target"
    using assms(3) by (intro normalizeJoinAddr_plain) blast
  let ?cfg = "\<lparr>c_NodeID = i, c_RaftAddr = pr_RaftAddr p, c_HTTPAddr = pr_HTTPAddr p,
           c_DataDir = pr_DataDir p, c_Bootstrap = False, c_JoinAddr = ''http://'' @ target\<rparr>"
  have parse: "parse_flags args default_config = Some ?cfg"
    unfolding eff(1) parse_spawn_args by (simp add: default_config_def)
  from assms(4) show ?thesis
  proof (rule main_start_Inr)
    fix cfg boot
    assume "parse_flags args default_config = Some cfg" and n: "NewNode su cfg = Inr (run_node r, boot, run_pending r)"
      and l: "run_listen r = c_HTTPAddr cfg"
      and j: "run_join r = (if c_JoinAddr cfg \<noteq> [] \<and> \<not> c_Bootstrap cfg
        then Some (normalizeJoinAddr (c_JoinAddr cfg), c_NodeID cfg, c_RaftAddr cfg, c_HTTPAddr cfg) else None)"
    then have cfg: "cfg = ?cfg" using parse by simp
    have "n_cfg (run_node r) = ?cfg"
      using NewNode_cfg [OF n] d unfolding cfg by (simp add: with_DataDir_def)
    then show ?thesis using l j norm unfolding cfg by simp
  qed
qed

definition sample_startup :: startup where
  "sample_startup =
     \<lparr>su_MkdirAll = (\<lambda>_. None), su_ResolveTCPAddr = (\<lambda>_. None), su_NewTCPTransport = (\<lambda>_. None),
      su_NewBoltStore = (\<lambda>_. None), su_NewFileSnapshotStore = (\<lambda>_. None), su_HasExistingState = Inr False,
      su_BootstrapCluster = (\<lambda>_. None), su_NewRaft = None, su_clock = int,
      su_tz = sample_tz, su_engine = (\<lambda>_. sample_reading), su_calls = [], su_early = {}\<rparr>"

lemma NewNode_sample:
  "c_NodeID cfg \<noteq> [] \<Longrightarrow> c_RaftAddr cfg \<noteq> [] \<Longrightarrow> c_HTTPAddr cfg \<noteq> [] \<Longrightarrow> \<exists>n boot gs. NewNode sample_startup cfg = Inr (n, boot, gs)"
  by (simp add: NewNode_def sample_startup_def bootstrap_def Let_def split: option.split prod.split)

lemma main_start_sample:
  "parse_flags args default_config = Some cfg \<Longrightarrow> NewNode su cfg = Inr (n, boot, gs) \<Longrightarrow> \<exists>r. main_start su exe args = Inr r"
  by (simp add: main_start_def)

theorem spawned_node_joins_witness:
  "\<exists>r :: running. run_listen r = ''127.0.0.1:'' @ itoa 8005 \<and>
     run_join r = Some (''127.0.0.1:8001'', ''node-2'', ''127.0.0.1:'' @ itoa 7004, ''127.0.0.1:'' @ itoa 8005)"
proof -
  have "FindFreePort (os_free sample_os 0) (m_nextPort sample_manager) = Inr 7004" "find_http_port sample_os 7004 = Inr 8005"
    by (simp_all add: find_http_port_def)
  from SpawnNode_success [OF this, of "''node-2''" "[]"] obtain m' eff p where s:
    "SpawnNode sample_os ''node-2'' [] sample_manager = (m', eff, Inr p)"
    "pr_RaftAddr p = ''127.0.0.1:'' @ itoa_int 7004" "pr_HTTPAddr p = ''127.0.0.1:'' @ itoa_int 8005"
    by auto
  then obtain exe args where a: "StartProcess exe args \<in> set eff" by (blast elim: SpawnNode_Inr)
  let ?j = "''http://'' @ ''127.0.0.1:8001''"
  let ?cfg = "default_config\<lparr>c_NodeID := ''node-2'', c_RaftAddr := pr_RaftAddr p, c_HTTPAddr := pr_HTTPAddr p,
     c_DataDir := pr_DataDir p, c_JoinAddr := ?j\<rparr>"
  have parse: "parse_flags args default_config = Some ?cfg"
    using SpawnNode_started [OF s(1) a] by (simp only: parse_spawn_args sample_manager_sel if_True simp_thms)
  have "\<exists>n boot gs. NewNode sample_startup ?cfg = Inr (n, boot, gs)"
    by (rule NewNode_sample) (simp_all add: s(2,3))
  then obtain r where r: "main_start sample_startup None args = Inr r" using main_start_sample [OF parse] by blast
  have "plain_address ''127.0.0.1:8001''" by (simp add: plain_address_def)
  then have "run_listen r = pr_HTTPAddr p \<and> run_join r = Some (''127.0.0.1:8001'', ''node-2'', pr_RaftAddr p, pr_HTTPAddr p)"
    using spawned_node_joins [OF s(1) a _ r] by simp
  then show ?thesis
    by (intro exI [of _ r]) (simp add: s(2,3) itoa_int_def)
qed

section \<open>The join loop\<close>

lemma RequestJoin_ok: "RequestJoin post t i ra ha = None \<longleftrightarrow>
   post (''http://'' @ t @ ''/join'') (join_payload i ra ha) = Inr 200"
  by (auto simp: RequestJoin_def split: sum.splits)

lemma from_Suc: "\<not> P (k::nat) \<Longrightarrow> (\<forall>j. k \<le> j \<and> j < x \<longrightarrow> \<not> P j) = (\<forall>j. Suc k \<le> j \<and> j < x \<longrightarrow> \<not> P j)"
  by (metis Suc_le_eq le_neq_implies_less Suc_leD)

lemma join_attempts_spec:
  assumes "\<And>j. accepted j = (RequestJoin (post j) t i ra ha = None)"
  shows "join_attempts post t i ra ha k n = (c, ok) \<Longrightarrow>
   if ok then k < c \<and> c \<le> k + n \<and> accepted (c - 1) \<and> (\<forall>j. k \<le> j \<and> j < c - 1 \<longrightarrow> \<not> accepted j)
   else c = k + n \<and> (\<forall>j. k \<le> j \<and> j < k + n \<longrightarrow> \<not> accepted j)"
proof (induction n arbitrary: k)
  case (Suc n)
  show ?case
  proof (cases "accepted k")
    case True
    then show ?thesis using Suc.prems assms [of k] by auto
  next
    case False
    then have "RequestJoin (post k) t i ra ha \<noteq> None" using assms [of k] by blast
    then have "join_attempts post t i ra ha (Suc k) n = (c, ok)" using Suc.prems by auto
    from Suc.IH [OF this] show ?thesis
      using from_Suc [of accepted k "c - 1"] from_Suc [of accepted k "k + Suc n"] False by (cases ok) auto
  qed
qed auto

text \<open>Property C38. The join loop always ends, after at most 15 requests: it stops at the first
  request that is answered 200, and reports failure exactly when the first 15 all fail.\<close>

theorem join_loop_ends:
  "let (attempts, joined) = joinCluster post t i ra ha;
       accepted = (\<lambda>k. post k (''http://'' @ t @ ''/join'') (join_payload i ra ha) = Inr 200)
   in attempts \<le> 15 \<and> (if joined then 0 < attempts \<and> {k. k < attempts \<and> accepted k} = {attempts - 1}
                        else attempts = 15 \<and> {k. k < 15 \<and> accepted k} = {})"
proof -
  obtain c ok where c: "join_attempts post t i ra ha 0 maxAttempts = (c, ok)"
    by (cases "join_attempts post t i ra ha 0 maxAttempts")
  define accepted where "accepted k \<longleftrightarrow> post k (''http://'' @ t @ ''/join'') (join_payload i ra ha) = Inr 200" for k
  have "accepted j = (RequestJoin (post j) t i ra ha = None)" for j
    by (simp only: accepted_def RequestJoin_ok)
  note spec = join_attempts_spec [of accepted post t i ra ha 0 maxAttempts, OF this c]
  have "c \<le> 15 \<and> (if ok then 0 < c \<and> {k. k < c \<and> accepted k} = {c - 1}
                 else c = 15 \<and> {k. k < 15 \<and> accepted k} = {})"
  proof (cases ok)
    case True
    then have s: "0 < c" "c \<le> 15" "accepted (c - 1)" "\<forall>j. j < c - 1 \<longrightarrow> \<not> accepted j"
      using spec by (simp_all add: maxAttempts_def)
    have "k = c - 1" if "k < c" "accepted k" for k
      using s(4) [rule_format, of k] that by linarith
    then have "{k. k < c \<and> accepted k} = {c - 1}" using s(1,3) by auto
    then show ?thesis using True s by simp
  next
    case False
    then show ?thesis using spec by (auto simp: maxAttempts_def)
  qed
  then show ?thesis unfolding joinCluster_def c Let_def prod.case accepted_def .
qed

end
