(* ===== verification/Poll_Concurrency.thy ===== *)
theory Poll_Concurrency imports Node_Observer_Theorems Event_Hub_Theorems begin

text \<open>
  The polling of \<open>internal/raftnode/observer.go\<close> as it runs concurrently: the hub starts
  \<open>onSSEActivated\<close> and \<open>onSSEDeactivated\<close> as goroutines, and the accesses of these two to the
  node (an atomic flag and a field without a lock) interleave with each other and with the
  clients that come and go.

  The state machine \<open>poll_reach\<close> has a step per access.  \<open>goroutine_alone\<close> shows that a
  goroutine that is not interrupted does what the operations of \<open>Node_Observer\<close> say.
\<close>

section \<open>The goroutines, one access at a time\<close>

text \<open>Where a goroutine stands, named by the access it makes next.\<close>

datatype poll_pc =
    ActSwap | ActMake | ActAnnounce | ActSpawn | DeSwap | DeCheck | DeClose | DeClear

fun entry_point :: "hub_go \<Rightarrow> poll_pc" where
  "entry_point GoActivate = ActSwap"
| "entry_point GoDeactivate = DeSwap"

text \<open>The cancel channel of a broadcaster is \<open>None\<close> when the field held nil at the moment of
  its start.  Closing a nil or a closed channel is a panic.\<close>

fun goroutine_step :: "engine \<Rightarrow> poll_pc \<Rightarrow> node \<Rightarrow> node \<times> poll_pc option \<times> nat option list" where
  "goroutine_step e ActSwap n =
     (if n_pollingRunning n then (n, None, []) else (n\<lparr>n_pollingRunning := True\<rparr>, Some ActMake, []))"
| "goroutine_step e ActMake n =
     (n\<lparr>n_pollCancel := Some (n_nextChan n), n_nextChan := Suc (n_nextChan n)\<rparr>, Some ActAnnounce, [])"
| "goroutine_step e ActAnnounce n =
     (broadcast (state_event e ''Connected to Raft live event stream'' n) n, Some ActSpawn, [])"
| "goroutine_step e ActSpawn n = (n, None, [n_pollCancel n])"
| "goroutine_step e DeSwap n =
     (if n_pollingRunning n then (n\<lparr>n_pollingRunning := False\<rparr>, Some DeCheck, []) else (n, None, []))"
| "goroutine_step e DeCheck n = (n, (if n_pollCancel n = None then None else Some DeClose), [])"
| "goroutine_step e DeClose n =
     (case n_pollCancel n of
        None \<Rightarrow> (n\<lparr>n_crashed := True\<rparr>, None, [])
      | Some c \<Rightarrow>
          if c \<in> n_closedChans n then (n\<lparr>n_crashed := True\<rparr>, None, [])
          else (n\<lparr>n_closedChans := insert c (n_closedChans n)\<rparr>, Some DeClear, []))"
| "goroutine_step e DeClear n = (n\<lparr>n_pollCancel := None\<rparr>, None, [])"

fun run_alone :: "nat \<Rightarrow> engine \<Rightarrow> poll_pc \<Rightarrow> node \<Rightarrow> node \<times> nat option list" where
  "run_alone 0 e pc n = (n, [])"
| "run_alone (Suc k) e pc n =
     (case goroutine_step e pc n of
        (n1, None, cs) \<Rightarrow> (n1, cs)
      | (n1, Some pc1, cs) \<Rightarrow> (let (n2, ds) = run_alone k e pc1 n1 in (n2, cs @ ds)))"

lemma run_alone_4: "run_alone 4 e pc n = run_alone (Suc (Suc (Suc (Suc 0)))) e pc n"
  by (simp add: numeral_eq_Suc)

lemma goroutine_alone:
  "run_alone 4 e ActSwap n = (fst (onSSEActivated e n), map Some (snd (onSSEActivated e n)))"
  "run_alone 4 e DeSwap n = (onSSEDeactivated n, [])"
  by (simp_all add: run_alone_4 onSSEActivated_def onSSEDeactivated_def Let_def split: option.split)

section \<open>The polling of a node with its clients\<close>

record poll_system =
  ps_node :: node
  ps_pending :: "poll_pc list"
  ps_pollers :: "nat option list"

definition poll_start :: "node \<Rightarrow> poll_system" where
  "poll_start n = \<lparr>ps_node = n, ps_pending = [], ps_pollers = []\<rparr>"

definition client_move :: "hub_op \<Rightarrow> poll_system \<Rightarrow> poll_system" where
  "client_move x s =
     (let (h, gos) = hub_exec x (n_hub (ps_node s))
      in s\<lparr>ps_node := (ps_node s)\<lparr>n_hub := h\<rparr>, ps_pending := ps_pending s @ map entry_point gos\<rparr>)"

definition goroutine_move :: "engine \<Rightarrow> nat \<Rightarrow> poll_system \<Rightarrow> poll_system" where
  "goroutine_move e i s =
     (let (n, pc, cs) = goroutine_step e (ps_pending s ! i) (ps_node s)
      in s\<lparr>ps_node := n,
           ps_pending := take i (ps_pending s) @ (case pc of None \<Rightarrow> [] | Some p \<Rightarrow> [p]) @ drop (Suc i) (ps_pending s),
           ps_pollers := ps_pollers s @ cs\<rparr>)"

text \<open>A panic ends the process.  With \<open>calm\<close>, the hub is only used while no goroutine is under way.\<close>

definition panicked :: "node \<Rightarrow> bool" where
  "panicked n \<longleftrightarrow> n_crashed n \<or> h_crashed (n_hub n)"

inductive poll_reach :: "bool \<Rightarrow> node \<Rightarrow> poll_system \<Rightarrow> bool" for calm n where
  start: "poll_reach calm n (poll_start n)"
| client: "poll_reach calm n s \<Longrightarrow> \<not> panicked (ps_node s) \<Longrightarrow> (calm \<Longrightarrow> ps_pending s = []) \<Longrightarrow>
     poll_reach calm n (client_move x s)"
| goroutine: "poll_reach calm n s \<Longrightarrow> \<not> panicked (ps_node s) \<Longrightarrow> i < length (ps_pending s) \<Longrightarrow>
     poll_reach calm n (goroutine_move e i s)"

text \<open>The broadcasters that nothing has told to stop.\<close>

definition live_pollers :: "poll_system \<Rightarrow> nat option list" where
  "live_pollers s = filter (\<lambda>c. c \<notin> Some ` n_closedChans (ps_node s)) (ps_pollers s)"

section \<open>One goroutine at a time\<close>

definition hub_ready :: "hub \<Rightarrow> bool" where
  "hub_ready h \<longleftrightarrow> hub_ok h \<and> h_onActivate h \<and> h_onDeactivate h"

lemma hub_ready_exec: "hub_ready h \<Longrightarrow> hub_ready (fst (hub_exec x h))"
  by (simp add: hub_ready_def hub_ok_exec)

lemma hub_ready_Broadcast: "hub_ready h \<Longrightarrow> hub_ready (Broadcast e h)"
  using hub_ready_exec [of h "OpBroadcast e"] by simp

lemma Broadcast_clients [simp]:
  "h_clients (Broadcast e h) = h_clients h" "h_next (Broadcast e h) = h_next h"
  "IsActive (Broadcast e h) = IsActive h"
  by (simp_all add: Broadcast_def broadcastDirect_stamped IsActive_def Let_def)

lemma hub_ready_ok: "hub_ready h \<Longrightarrow> hub_ok h" "hub_ready h \<Longrightarrow> \<not> h_crashed h"
  by (simp_all add: hub_ready_def hub_ok_def clients_ok_def)

lemma listening_active: "hub_ok h \<Longrightarrow> listening h = (if IsActive h then 1 else 0)"
  by (simp add: listening_def IsActive_def hub_ok_def clients_ok_def card_gt_0_iff)

lemma exec_starts_one: "length (snd (hub_exec x h)) \<le> 1"
  by (cases x) (simp_all add: Subscribe_def unsubscribe_def Let_def)

lemma short_activations:
  "length gs \<le> 1 \<Longrightarrow>
   gs = (if net_activations gs = 0 then [] else if net_activations gs = 1 then [GoActivate] else [GoDeactivate])"
proof (cases gs)
  case (Cons g gs')
  assume "length gs \<le> 1"
  then show ?thesis using Cons by (cases g) (simp_all add: net_activations_def)
qed (simp add: net_activations_def)

lemma exec_starts:
  assumes "hub_ready h"
  shows "snd (hub_exec x h) =
     (if IsActive (fst (hub_exec x h)) = IsActive h then []
      else if IsActive h then [GoDeactivate] else [GoActivate])"
proof -
  have "net_activations (snd (hub_exec x h)) =
      (if IsActive (fst (hub_exec x h)) then 1 else 0) - (if IsActive h then 1 else 0)"
    using assms exec_activations [of h x] hub_ok_exec [of h x] by (simp add: hub_ready_def listening_active)
  then show ?thesis using short_activations [OF exec_starts_one [of x h]] by (simp split: if_splits)
qed

text \<open>Where the polling stands: off, or on with a cancel channel of its own.\<close>

definition polling_off :: "poll_system \<Rightarrow> bool" where
  "polling_off s \<longleftrightarrow> n_pollCancel (ps_node s) = None \<and> live_pollers s = []"

definition polling_on :: "nat \<Rightarrow> poll_system \<Rightarrow> bool" where
  "polling_on c s \<longleftrightarrow> n_pollCancel (ps_node s) = Some c \<and> c \<notin> n_closedChans (ps_node s) \<and> c < n_nextChan (ps_node s)"

fun calm_phase :: "poll_pc list \<Rightarrow> poll_system \<Rightarrow> bool" where
  "calm_phase [] s =
     (if IsActive (n_hub (ps_node s))
      then n_pollingRunning (ps_node s) \<and> (\<exists>c. polling_on c s \<and> live_pollers s = [Some c])
      else \<not> n_pollingRunning (ps_node s) \<and> polling_off s)"
| "calm_phase [ActSwap] s = (IsActive (n_hub (ps_node s)) \<and> \<not> n_pollingRunning (ps_node s) \<and> polling_off s)"
| "calm_phase [ActMake] s = (IsActive (n_hub (ps_node s)) \<and> n_pollingRunning (ps_node s) \<and> polling_off s)"
| "calm_phase [DeSwap] s =
     (\<not> IsActive (n_hub (ps_node s)) \<and> n_pollingRunning (ps_node s) \<and> (\<exists>c. polling_on c s \<and> live_pollers s = [Some c]))"
| "calm_phase [DeClear] s =
     (\<not> IsActive (n_hub (ps_node s)) \<and> \<not> n_pollingRunning (ps_node s) \<and> live_pollers s = [])"
| "calm_phase [p] s =
     (if p \<in> {ActAnnounce, ActSpawn}
      then IsActive (n_hub (ps_node s)) \<and> n_pollingRunning (ps_node s) \<and> (\<exists>c. polling_on c s) \<and> live_pollers s = []
      else \<not> IsActive (n_hub (ps_node s)) \<and> \<not> n_pollingRunning (ps_node s) \<and> (\<exists>c. polling_on c s \<and> live_pollers s = [Some c]))"
| "calm_phase ps s = False"

definition calm_inv :: "poll_system \<Rightarrow> bool" where
  "calm_inv s \<longleftrightarrow> hub_ready (n_hub (ps_node s)) \<and> \<not> n_crashed (ps_node s) \<and>
     (\<forall>c \<in> n_closedChans (ps_node s). c < n_nextChan (ps_node s)) \<and> calm_phase (ps_pending s) s"

lemma calm_client:
  assumes "calm_inv s" and "ps_pending s = []"
  shows "calm_inv (client_move x s)"
proof -
  have h: "hub_ready (n_hub (ps_node s))" using assms(1) by (simp add: calm_inv_def)
  show ?thesis
    using assms exec_starts [OF h, of x] hub_ready_exec [OF h, of x]
    by (cases "hub_exec x (n_hub (ps_node s))")
       (auto simp: calm_inv_def client_move_def polling_on_def polling_off_def live_pollers_def split: if_splits)
qed

lemma calm_pending: "calm_phase ps s \<Longrightarrow> ps = [] \<or> (\<exists>p. ps = [p])"
  by (cases "(ps, s)" rule: calm_phase.cases) auto

lemma live_closed:
  "live_pollers s = [Some c] \<Longrightarrow>
   filter (\<lambda>d. d \<notin> Some ` insert c (n_closedChans (ps_node s))) (ps_pollers s) = []"
proof -
  assume "live_pollers s = [Some c]"
  then have "set (live_pollers s) = {Some c}" by simp
  then show ?thesis by (auto simp: live_pollers_def filter_empty_conv)
qed

lemma calm_goroutine_0:
  assumes "calm_inv s" and "ps_pending s = [p]"
  shows "calm_inv (goroutine_move e 0 s)"
proof (cases "p = DeClose")
  case True
  then obtain c where c: "polling_on c s" "live_pollers s = [Some c]"
    using assms by (auto simp: calm_inv_def)
  show ?thesis
    using assms True c(1) live_closed [OF c(2)]
    by (auto simp: calm_inv_def goroutine_move_def polling_on_def live_pollers_def)
next
  case False
  then show ?thesis
    using assms hub_ready_Broadcast
    by (cases p)
       (auto simp: calm_inv_def goroutine_move_def polling_on_def polling_off_def live_pollers_def)
qed

lemma calm_goroutine:
  assumes "calm_inv s" and "i < length (ps_pending s)"
  shows "calm_inv (goroutine_move e i s)"
proof -
  obtain p where p: "ps_pending s = [p]" "i = 0"
    using assms calm_pending [of "ps_pending s" s] by (auto simp: calm_inv_def)
  then show ?thesis using calm_goroutine_0 [OF assms(1)] by simp
qed

lemma hub_ready_initial: "hub_ready (n_hub (initial_node cfg clock))"
  by (simp add: initial_node_def hub_ready_def) (simp add: NewHub_def)

lemma calm_reach: "poll_reach True (initial_node cfg clock) s \<Longrightarrow> calm_inv s"
proof (induction rule: poll_reach.induct)
  case start
  have "\<not> IsActive (n_hub (initial_node cfg clock))"
    by (simp add: initial_node_def NewHub_def IsActive_def)
  then show ?case
    using hub_ready_initial [of cfg clock]
    by (simp add: calm_inv_def poll_start_def polling_off_def live_pollers_def)
       (simp add: initial_node_def)
qed (auto intro: calm_client calm_goroutine)

lemma calm_live: "calm_phase ps s \<Longrightarrow> length (live_pollers s) \<le> 1"
  by (cases "(ps, s)" rule: calm_phase.cases) (auto simp: polling_off_def split: if_splits)

section \<open>Schedules\<close>

datatype poll_move = Client hub_op | Run nat

fun poll_moves :: "bool \<Rightarrow> engine \<Rightarrow> poll_move list \<Rightarrow> poll_system \<Rightarrow> poll_system option" where
  "poll_moves calm e [] s = Some s"
| "poll_moves calm e (m # ms) s =
     (if n_crashed (ps_node s) then None
      else case m of
             Client x \<Rightarrow> if calm \<and> ps_pending s \<noteq> [] then None else poll_moves calm e ms (client_move x s)
           | Run i \<Rightarrow> if i < length (ps_pending s) then poll_moves calm e ms (goroutine_move e i s) else None)"

lemma hub_ready_goroutine:
  "hub_ready (n_hub (ps_node s)) \<Longrightarrow> hub_ready (n_hub (ps_node (goroutine_move e i s)))"
  by (cases "ps_pending s ! i") (simp_all add: goroutine_move_def hub_ready_Broadcast split: option.split)

lemma hub_ready_client: "hub_ready (n_hub (ps_node s)) \<Longrightarrow> hub_ready (n_hub (ps_node (client_move x s)))"
  using hub_ready_exec [of "n_hub (ps_node s)" x] by (simp add: client_move_def case_prod_beta Let_def)

lemma poll_moves_reach:
  "poll_moves calm e ms s = Some s' \<Longrightarrow> poll_reach calm n s \<Longrightarrow> hub_ready (n_hub (ps_node s)) \<Longrightarrow>
   poll_reach calm n s'"
proof (induction ms arbitrary: s)
  case (Cons m ms)
  have ok: "\<not> panicked (ps_node s)" using Cons.prems by (auto simp: panicked_def hub_ready_ok split: if_splits)
  show ?case
  proof (cases m)
    case (Client x)
    then have "poll_reach calm n (client_move x s)"
      using Cons.prems ok by (auto intro: poll_reach.client split: if_splits)
    then show ?thesis using Client Cons.IH [of "client_move x s"] Cons.prems hub_ready_client
      by (auto split: if_splits)
  next
    case (Run i)
    then have "poll_reach calm n (goroutine_move e i s)"
      using Cons.prems ok by (auto intro: poll_reach.goroutine split: if_splits)
    then show ?thesis using Run Cons.IH [of "goroutine_move e i s"] Cons.prems hub_ready_goroutine
      by (auto split: if_splits)
  qed
qed simp

lemma poll_moves_initial:
  "poll_moves calm e ms (poll_start (initial_node cfg clock)) = Some s \<Longrightarrow>
   poll_reach calm (initial_node cfg clock) s"
  by (rule poll_moves_reach [OF _ poll_reach.start]) (simp_all add: poll_start_def hub_ready_initial)

lemma close_chan_sel [simp]:
  "h_clients (close_chan c h) = h_clients h" "h_next (close_chan c h) = h_next h"
  "h_onActivate (close_chan c h) = h_onActivate h" "h_onDeactivate (close_chan c h) = h_onDeactivate h"
  by (simp_all add: close_chan_def)

lemma Broadcast_callbacks [simp]:
  "h_onActivate (Broadcast e h) = h_onActivate h" "h_onDeactivate (Broadcast e h) = h_onDeactivate h"
  using exec_callbacks [of "OpBroadcast e" h] by simp_all

lemmas schedule_defs =
  poll_start_def client_move_def goroutine_move_def initial_node_def NewHub_def Subscribe_def
  unsubscribe_def live_pollers_def IsActive_def Let_def

lemma schedule_first_client:
  "\<exists>s. poll_moves calm e [Client OpSubscribe, Run 0, Run 0, Run 0, Run 0] (poll_start (initial_node cfg clock)) = Some s \<and>
     ps_pending s = [] \<and> IsActive (n_hub (ps_node s))"
  by (simp add: schedule_defs)

text \<open>The first client comes and goes, and the deactivation runs before the activation.\<close>

lemma schedule_leak:
  "\<exists>s. poll_moves False e [Client OpSubscribe, Client (OpUnsubscribe 0), Run 1, Run 0, Run 0, Run 0, Run 0]
      (poll_start (initial_node cfg clock)) = Some s \<and>
     ps_pending s = [] \<and> \<not> IsActive (n_hub (ps_node s)) \<and> n_pollingRunning (ps_node s) \<and> live_pollers s = [Some 0]"
  by (simp add: schedule_defs)

text \<open>A client leaves, another comes, and its activation finds the polling still on.\<close>

lemma schedule_silence:
  "\<exists>s. poll_moves False e
      [Client OpSubscribe, Run 0, Run 0, Run 0, Run 0, Client (OpUnsubscribe 0), Client OpSubscribe,
       Run 1, Run 0, Run 0, Run 0, Run 0] (poll_start (initial_node cfg clock)) = Some s \<and>
     ps_pending s = [] \<and> IsActive (n_hub (ps_node s)) \<and> \<not> n_pollingRunning (ps_node s) \<and> live_pollers s = []"
  by (simp add: schedule_defs)

text \<open>Two deactivations close the same channel.\<close>

lemma schedule_panic:
  "\<exists>s. poll_moves False e
      [Client OpSubscribe, Run 0, Run 0, Run 0, Run 0, Client (OpUnsubscribe 0), Run 0, Run 0,
       Client OpSubscribe, Run 1, Client (OpUnsubscribe 1), Run 2, Run 2, Run 2, Run 0]
      (poll_start (initial_node cfg clock)) = Some s \<and> panicked (ps_node s)"
  by (simp add: schedule_defs panicked_def)

section \<open>The properties\<close>

text \<open>Property C21. While the goroutines of the polling do not overlap with each other or with
  the coming and going of clients, polling follows the clients: nothing panics, at most one
  broadcaster is not cancelled, and whenever no goroutine is under way, the node polls,
  with exactly one broadcaster, exactly if somebody is subscribed.\<close>

theorem polling_follows_clients:
  assumes "poll_reach True (initial_node cfg clock) s"
  shows "\<not> panicked (ps_node s) \<and> length (live_pollers s) \<le> 1 \<and>
     (ps_pending s = [] \<longrightarrow>
        n_pollingRunning (ps_node s) = IsActive (n_hub (ps_node s)) \<and>
        length (live_pollers s) = (if IsActive (n_hub (ps_node s)) then 1 else 0))"
proof -
  have i: "calm_inv s" by (rule calm_reach [OF assms])
  then have "length (live_pollers s) \<le> 1" "\<not> panicked (ps_node s)"
    using calm_live by (auto simp: calm_inv_def panicked_def hub_ready_ok)
  then show ?thesis using i by (auto simp: calm_inv_def polling_off_def split: if_splits)
qed

theorem polling_follows_clients_witness:
  "\<exists>s. poll_reach True (initial_node sample_config (\<lambda>_. 1)) s \<and> \<not> panicked (ps_node s) \<and>
     n_pollingRunning (ps_node s) \<and> length (live_pollers s) = 1"
proof -
  obtain s where s: "poll_moves True (\<lambda>_. sample_reading) [Client OpSubscribe, Run 0, Run 0, Run 0, Run 0]
      (poll_start (initial_node sample_config (\<lambda>_. 1))) = Some s" "ps_pending s = []" "IsActive (n_hub (ps_node s))"
    using schedule_first_client by blast
  have r: "poll_reach True (initial_node sample_config (\<lambda>_. 1)) s" by (rule poll_moves_initial [OF s(1)])
  then show ?thesis using polling_follows_clients [OF r] s(2,3) by auto
qed

text \<open>When they do overlap, none of this is true: a broadcaster may be left behind that nobody
  listens to, a subscribed client may be left without one, and the process may panic.\<close>

theorem polling_goroutines_race:
  "\<exists>s. poll_reach False (initial_node cfg clock) s \<and> ps_pending s = [] \<and>
     \<not> IsActive (n_hub (ps_node s)) \<and> n_pollingRunning (ps_node s) \<and> live_pollers s = [Some 0]"
  "\<exists>s. poll_reach False (initial_node cfg clock) s \<and> ps_pending s = [] \<and>
     IsActive (n_hub (ps_node s)) \<and> \<not> n_pollingRunning (ps_node s) \<and> live_pollers s = []"
  "\<exists>s. poll_reach False (initial_node cfg clock) s \<and> panicked (ps_node s)"
  by (meson schedule_leak schedule_silence schedule_panic poll_moves_initial)+

end
