(* ===== verification/Term_Concurrency.thy ===== *)
theory Term_Concurrency imports Raft_Node_Theorems "HOL-Library.Multiset" begin

text \<open>
  \<open>noteTerm\<close> of \<open>node.go\<close> under concurrency.  It is called by the transport wrappers and by
  the broadcaster, and it announces a term after it has released the node's mutex, so that
  calls may overlap.  A run interleaves the two steps of any number of calls with each other
  and with what else the node publishes.
\<close>

text \<open>\<open>Hear\<close> is the critical section of a call; \<open>Announce i\<close> lets the \<open>i\<close>-th of the calls that
  raised the term and have not announced it do so.\<close>

datatype term_move = Hear u64 | Announce nat | Publish event

type_synonym term_system = "node \<times> u64 list"

fun term_act :: "term_move \<Rightarrow> term_system \<Rightarrow> term_system" where
  "term_act (Hear w) (n, pending) =
     (let (n1, raised) = note_lock w n in (n1, if raised then pending @ [w] else pending))"
| "term_act (Announce i) (n, pending) =
     (if i < length pending
      then (note_announce (pending ! i) n, take i pending @ drop (Suc i) pending) else (n, pending))"
| "term_act (Publish e) (n, pending) = (broadcast e n, pending)"

fun heard :: "term_move \<Rightarrow> u64 list" where
  "heard (Hear w) = [w]"
| "heard (Announce i) = []"
| "heard (Publish e) = []"

fun published :: "term_move \<Rightarrow> event list" where
  "published (Publish e) = [e]"
| "published (Hear w) = []"
| "published (Announce i) = []"

definition is_term_event :: "event \<Rightarrow> bool" where
  "is_term_event e \<longleftrightarrow> ev_Type e = EventTermChanged"

lemma note_announce_broadcast: "note_announce w n = broadcast (term_event (node_ID n) w) n"
  by (simp add: note_announce_def term_event_def)

lemma note_lock_cases:
  "note_lock w n = (if n_lastTerm n < w then (n\<lparr>n_lastTerm := w\<rparr>, True) else (n, False))"
  by (auto simp: note_lock_def word_gt_0 not_le [symmetric])

lemma is_term_event_simps [simp]:
  "is_term_event (term_event self w)" "is_term_event (unstamped e) = is_term_event e"
  by (simp_all add: is_term_event_def term_event_def unstamped_def)

text \<open>What a run keeps: \<open>raised\<close> lists the terms in the order in which the lock was taken,
  \<open>told\<close> those that were announced, in the order of their announcements, and \<open>es\<close> the
  lifecycle events that were broadcast.\<close>

definition term_trace ::
  "node \<Rightarrow> term_move list \<Rightarrow> term_system \<Rightarrow> u64 list \<Rightarrow> u64 list \<Rightarrow> event list \<Rightarrow> bool" where
  "term_trace n ms s raised told es \<longleftrightarrow>
     raised = new_highs (n_lastTerm n) (concat (map heard ms)) \<and>
     n_lastTerm (fst s) = fold max (concat (map heard ms)) (n_lastTerm n) \<and>
     mset told + mset (snd s) = mset raised \<and>
     journal_of (fst s) = last_n maxHistory (journal_of n @ es) \<and>
     filter is_term_event es = map (term_event (node_ID n)) told \<and>
     filter (\<lambda>e. \<not> is_term_event e) es = map unstamped (filter is_lifecycle (concat (map published ms))) \<and>
     node_ok (fst s) \<and> node_ID (fst s) = node_ID n"

lemma mset_remove_nth: "i < length xs \<Longrightarrow> mset (take i xs @ drop (Suc i) xs) + {#xs ! i#} = mset xs"
  by (metis add_mset_add_single id_take_nth_drop mset_append mset.simps(2) union_mset_add_mset_right)

lemma new_highs_append:
  "new_highs m (xs @ ys) = new_highs m xs @ new_highs (fold max xs m) ys"
  by (induction xs arbitrary: m) (auto simp: max_def not_less)

lemma term_trace_Hear:
  assumes "term_trace n ms s raised told es" and "n_lastTerm (fst s) < w"
  shows "term_trace n (ms @ [Hear w]) ((fst s)\<lparr>n_lastTerm := w\<rparr>, snd s @ [w]) (raised @ [w]) told es"
  using assms by (auto simp: term_trace_def new_highs_append max_def)

lemma term_trace_Announce:
  assumes "term_trace n ms s raised told es" and "i < length (snd s)"
  shows "term_trace n (ms @ [Announce i]) (note_announce (snd s ! i) (fst s), take i (snd s) @ drop (Suc i) (snd s))
    raised (told @ [snd s ! i]) (es @ [term_event (node_ID n) (snd s ! i)])"
proof -
  have "mset told + mset (snd s) = mset raised" using assms(1) by (simp add: term_trace_def)
  then have "mset told + (mset (take i (snd s) @ drop (Suc i) (snd s)) + {#snd s ! i#}) = mset raised"
    by (simp only: mset_remove_nth [OF assms(2)])
  then show ?thesis
    using assms last_n_snoc [of maxHistory "journal_of n @ es"]
    by (simp add: term_trace_def note_announce_broadcast node_sink.journal_emit maxHistory_def)
qed

lemma term_trace_Publish:
  assumes "term_trace n ms s raised told es" and "\<not> is_term_event e"
  shows "term_trace n (ms @ [Publish e]) (broadcast e (fst s), snd s) raised told
    (if is_lifecycle e then es @ [unstamped e] else es)"
  using assms last_n_snoc [of maxHistory "journal_of n @ es"]
  by (simp add: term_trace_def node_sink.journal_emit maxHistory_def)

lemma term_trace_idle:
  assumes "term_trace n ms s raised told es" and "published mv = []" and "\<forall>w \<in> set (heard mv). w \<le> n_lastTerm (fst s)"
  shows "term_trace n (ms @ [mv]) s raised told es"
  using assms by (cases mv) (auto simp: term_trace_def new_highs_append max_def)

lemma term_trace_exists:
  assumes "node_ok n" and "\<forall>e \<in> set (concat (map published ms)). \<not> is_term_event e"
  shows "\<exists>raised told es. term_trace n ms (fold term_act ms (n, [])) raised told es"
  using assms(2)
proof (induction ms rule: rev_induct)
  case Nil
  then show ?case
    using assms(1) node_sink.journal_bound [OF assms(1)]
    by (intro exI [of _ "[]"]) (simp add: term_trace_def)
next
  case (snoc mv ms)
  then obtain raised told es where t: "term_trace n ms (fold term_act ms (n, [])) raised told es" by auto
  obtain m pending where s: "fold term_act ms (n, []) = (m, pending)" by fastforce
  show ?case
  proof (cases mv)
    case (Hear w)
    then show ?thesis
      using term_trace_Hear [OF t, of w] term_trace_idle [OF t, of mv] s
      by (cases "n_lastTerm m < w") (auto simp: note_lock_cases not_less dest: leD)
  next
    case (Announce i)
    then show ?thesis
      using term_trace_Announce [OF t, of i] term_trace_idle [OF t, of mv] s
      by (cases "i < length pending") auto
  next
    case (Publish e)
    then show ?thesis using term_trace_Publish [OF t, of e] s snoc.prems by auto
  qed
qed

text \<open>Property C14. Whatever terms the sources of a node report, however their calls of \<open>noteTerm\<close>
  overlap and whatever else the node publishes in between: a term that is above all
  the node had heard of when its call took the lock is announced once, unless that call is
  still between its two steps, and no other term is announced; the node ends with the highest
  term it has heard of.  The announcements are in the node's history, as far as its bound of
  50 events allows, among the other lifecycle events in their order.  Nothing is said of the
  order in which overlapping calls announce their terms.\<close>

theorem terms_announced_once:
  assumes "node_ok n" and "\<forall>e \<in> set (concat (map published ms)). \<not> is_term_event e"
    and "fold term_act ms (n, []) = (n', pending)"
  shows "n_lastTerm n' = fold max (concat (map heard ms)) (n_lastTerm n) \<and>
    sorted_wrt (<) (n_lastTerm n # new_highs (n_lastTerm n) (concat (map heard ms))) \<and>
    (\<exists>told es.
       mset told + mset pending = mset (new_highs (n_lastTerm n) (concat (map heard ms))) \<and>
       map unstamped (GetHistory (n_hub n')) = last_n 50 (map unstamped (GetHistory (n_hub n)) @ es) \<and>
       filter is_term_event es = map (term_event (node_ID n)) told \<and>
       filter (\<lambda>e. \<not> is_term_event e) es =
         map unstamped (filter is_lifecycle (concat (map published ms))))"
proof -
  obtain raised told es where "term_trace n ms (n', pending) raised told es"
    using term_trace_exists [OF assms(1,2)] assms(3) by auto
  then show ?thesis
    unfolding term_trace_def journal_of_def announced_def GetHistory_def maxHistory_def
    by (intro conjI new_highs_increasing exI [of _ told] exI [of _ es]) simp_all
qed

text \<open>Two calls that overlap may announce their terms in the other order, so the guard of
  \<open>noteTerm\<close> does not keep the announced terms increasing.\<close>

definition overlapping_calls :: "term_move list" where
  "overlapping_calls = [Hear 2, Hear 3, Hear 2, Announce 1, Announce 0]"

lemma overlapping_run:
  "fold term_act overlapping_calls (sample_node, []) =
     (note_announce 2 (note_announce 3 (sample_node\<lparr>n_lastTerm := 3\<rparr>)), [])"
  by (simp add: overlapping_calls_def note_lock_def sample_node_def initial_node_def)

theorem terms_announced_out_of_order:
  "map unstamped (GetHistory (n_hub (fst (fold term_act overlapping_calls (sample_node, []))))) =
     [term_event ''node-1'' 3, term_event ''node-1'' 2]"
proof -
  have "journal_of (note_announce 2 (note_announce 3 (sample_node\<lparr>n_lastTerm := 3\<rparr>))) =
      [term_event ''node-1'' 3, term_event ''node-1'' 2]"
    by (simp add: note_announce_broadcast node_sink.journal_emit maxHistory_def)
       (simp add: sample_node_def initial_node_def node_ID_def sample_config_def journal_of_def announced_def
         NewHub_def last_n_def)
  then show ?thesis by (simp add: overlapping_run journal_of_def announced_def GetHistory_def)
qed

theorem terms_announced_once_witness:
  "\<exists>told es. mset told = mset [2, 3] \<and>
     map unstamped (GetHistory (n_hub (fst (fold term_act overlapping_calls (sample_node, []))))) = last_n 50 es \<and>
     filter is_term_event es = map (term_event ''node-1'') told \<and> filter (\<lambda>e. \<not> is_term_event e) es = []"
proof -
  have f: "node_ID sample_node = ''node-1''" "n_lastTerm sample_node = 0"
    "map unstamped (GetHistory (n_hub sample_node)) = []"
    "\<forall>e \<in> set (concat (map published overlapping_calls)). \<not> is_term_event e"
    "new_highs 0 (concat (map heard overlapping_calls)) = [2, 3]" "concat (map published overlapping_calls) = []"
    by (auto simp: sample_node_def initial_node_def node_ID_def sample_config_def GetHistory_def overlapping_calls_def
        NewHub_def)
  show ?thesis
    using conjunct2 [OF conjunct2 [OF terms_announced_once [OF sample_node_ok f(4) overlapping_run]]]
    by (simp only: f overlapping_run fst_conv append_Nil mset.simps add_0_right list.map filter.simps)
qed

end
