(* ===== verification/Transport_Observer_Theorems.thy ===== *)
theory Transport_Observer_Theorems imports Raft_Node_Theorems begin

text \<open>
  The properties of \<open>transport_observer.go\<close>: the wrapper is transparent, what each RPC
  announces, and the relay of votes as a state machine of arriving RPCs and answers of
  the engine in any interleaving.  The last theorem is about the snapshot store.
\<close>

section \<open>Announcing\<close>

text \<open>An event with the fields \<open>emit\<close> fills in.\<close>

definition filled :: "engine \<Rightarrow> node \<Rightarrow> event \<Rightarrow> event" where
  "filled e n evt =
     evt\<lparr>ev_NodeID := (if ev_NodeID evt = [] then node_ID n else ev_NodeID evt),
         ev_Term := (if ev_Term evt = 0 \<and> n_raft n then rd_CurrentTerm (e 0) else ev_Term evt)\<rparr>"

lemma emit_broadcast: "emit e evt n = broadcast (filled e n evt) n"
  by (simp add: emit_def filled_def Let_def)

lemma filled_class [simp]:
  "is_heartbeat (filled e n evt) = is_heartbeat evt" "is_lifecycle (filled e n evt) = is_lifecycle evt"
  "ev_Type (filled e n evt) = ev_Type evt"
  by (simp_all add: filled_def is_heartbeat_def is_lifecycle_def)

lemma unstamped_filled: "unstamped (filled e n evt) = filled e n (unstamped evt)"
  by (simp add: filled_def unstamped_def)

lemma filled_node [simp]:
  "filled e (noteTerm w n) = filled e n" "filled e (emit e' v n) = filled e n" "filled e (broadcast v n) = filled e n"
  by (simp_all add: filled_def fun_eq_iff)

lemma journal_emit:
  "node_ok n \<Longrightarrow> is_lifecycle evt \<Longrightarrow> unstamped evt = evt \<Longrightarrow>
   journal_of (emit e evt n) = last_n maxHistory (journal_of n @ [filled e n evt])"
  by (simp add: emit_broadcast node_sink.journal_emit unstamped_filled)

lemma journal_emit_quiet:
  "node_ok n \<Longrightarrow> is_heartbeat evt \<Longrightarrow> journal_of (emit e evt n) = journal_of n"
  by (simp add: emit_broadcast node_sink.journal_emit is_lifecycle_not_heartbeat)

lemma rpc_event_class [simp]:
  "is_heartbeat (heartbeat_sent_event p a)" "is_lifecycle (append_sent_event p a)"
  "is_lifecycle (append_result_event p w r)" "is_lifecycle (vote_requested_event p v)"
  "is_lifecycle (prevote_requested_event p q)" "is_lifecycle (install_sent_event p i)"
  "is_lifecycle (vote_event p w g x y)"
  "unstamped (append_sent_event p a) = append_sent_event p a"
  "unstamped (append_result_event p w r) = append_result_event p w r"
  "unstamped (vote_requested_event p v) = vote_requested_event p v"
  "unstamped (prevote_requested_event p q) = prevote_requested_event p q"
  "unstamped (install_sent_event p i) = install_sent_event p i"
  "unstamped (vote_event p w g x y) = vote_event p w g x y"
  by (simp_all add: heartbeat_sent_event_def append_sent_event_def append_result_event_def
      vote_requested_event_def prevote_requested_event_def install_sent_event_def vote_event_def Let_def)

section \<open>Wrapped calls\<close>

text \<open>What a call may do to a node: publish events in the node's own name, and raise its
  highest known term.\<close>

definition announces :: "u64 \<Rightarrow> node \<Rightarrow> node \<Rightarrow> bool" where
  "announces w n m \<longleftrightarrow>
     (\<exists>es. m = n\<lparr>n_hub := fold Broadcast es (n_hub n), n_lastTerm := max w (n_lastTerm n)\<rparr> \<and>
        (\<forall>ev \<in> set es. ev_NodeID ev = node_ID n))"

lemma announces_refl [simp]: "announces 0 n n"
  unfolding announces_def by (intro exI [of _ "[]"]) simp

lemma announces_trans:
  assumes "announces w n m" and "announces x m k"
  shows "announces (max x w) n k"
proof -
  obtain es where es: "m = n\<lparr>n_hub := fold Broadcast es (n_hub n), n_lastTerm := max w (n_lastTerm n)\<rparr>"
    "\<forall>ev \<in> set es. ev_NodeID ev = node_ID n" using assms(1) by (auto simp: announces_def)
  obtain fs where fs: "k = m\<lparr>n_hub := fold Broadcast fs (n_hub m), n_lastTerm := max x (n_lastTerm m)\<rparr>"
    "\<forall>ev \<in> set fs. ev_NodeID ev = node_ID m" using assms(2) by (auto simp: announces_def)
  have "k = n\<lparr>n_hub := fold Broadcast (es @ fs) (n_hub n), n_lastTerm := max (max x w) (n_lastTerm n)\<rparr>"
    by (simp add: fs(1) es(1) max.assoc)
  moreover have "\<forall>ev \<in> set (es @ fs). ev_NodeID ev = node_ID n" using es fs(2) by (auto simp: node_ID_def)
  ultimately show ?thesis unfolding announces_def by blast
qed

lemma announces_broadcast: "ev_NodeID ev = node_ID n \<Longrightarrow> announces 0 n (broadcast ev n)"
  unfolding announces_def by (intro exI [of _ "[ev]"]) (simp add: broadcast_def)

lemma announces_noteTerm [simp]: "announces w n (noteTerm w n)"
proof (cases "n_lastTerm n < w")
  case True
  then have "noteTerm w n = n\<lparr>n_hub := fold Broadcast [term_event (node_ID n) w] (n_hub n), n_lastTerm := max w (n_lastTerm n)\<rparr>"
    by (simp add: noteTerm_broadcast broadcast_def)
  then show ?thesis
    unfolding announces_def by (intro exI [of _ "[term_event (node_ID n) w]"]) (simp add: term_event_def)
next
  case False
  then show ?thesis
    unfolding announces_def by (intro exI [of _ "[]"]) (simp add: noteTerm_broadcast max_absorb2 not_less)
qed

lemma announces_emit: "announces w n m \<Longrightarrow> ev_NodeID ev = [] \<Longrightarrow> announces w n (emit e ev m)"
  using announces_trans [of w n m 0 "emit e ev m"] announces_broadcast [of "filled e m ev" m]
  by (simp add: emit_broadcast filled_def)

lemma fold_max_start: "fold max ws w = max (fold max ws 0) (w :: u64)"
proof (induction ws arbitrary: w)
  case (Cons v ws)
  show ?case using Cons [of "max v w"] Cons [of "max v 0"] by (simp add: max.assoc)
qed simp

text \<open>A sequence of calls, with the answers the caller got.\<close>

fun in_turn :: "('q \<Rightarrow> node \<Rightarrow> node \<times> 'r) \<Rightarrow> 'q list \<Rightarrow> node \<Rightarrow> node \<times> 'r list" where
  "in_turn call [] n = (n, [])"
| "in_turn call (q # qs) n = (let (n1, r) = call q n; (n2, rs) = in_turn call qs n1 in (n2, r # rs))"

text \<open>The contract of a wrapped call: the caller gets the answer of the wrapped transport, and
  the node announces and learns the term of the call.\<close>

locale wrapped_call =
  fixes call :: "'q \<Rightarrow> node \<Rightarrow> node \<times> 'r"
    and inner :: "'q \<Rightarrow> 'r"
    and term_of :: "'q \<Rightarrow> u64"
  assumes answer: "snd (call q n) = inner q"
    and effect: "announces (term_of q) n (fst (call q n))"
begin

lemma calls_transparent:
  "snd (in_turn call qs n) = map inner qs \<and> announces (fold max (map term_of qs) 0) n (fst (in_turn call qs n))"
proof (induction qs arbitrary: n)
  case (Cons q qs)
  have "announces (max (fold max (map term_of qs) 0) (term_of q)) n (fst (in_turn call qs (fst (call q n))))"
    using announces_trans [OF effect] Cons by blast
  then show ?case
    using Cons [of "fst (call q n)"] answer [of q n]
    by (simp add: split_beta fold_max_start [of _ "term_of q"])
qed simp

end

text \<open>The calls the engine makes, and the goroutine of a pipeline that watches a future.\<close>

datatype outgoing =
    Append string string append_request
  | Vote string string vote_request
  | PreVote string string prevote_request
  | Install string string install_request string
  | Timeout string string
  | Pipelined event_pipeline append_request
  | Watch event_pipeline append_future

datatype answer =
    AppendAnswer "append_response option" "go_error option"
  | VoteAnswer "vote_response option" "go_error option"
  | PreVoteAnswer "prevote_response option" "go_error option"
  | InstallAnswer "install_response option" "go_error option"
  | TimeoutAnswer "go_error option"
  | PipelinedAnswer "append_future + go_error"
  | Watched

text \<open>What the wrapped transport answers at the moment of a call.\<close>

record transport =
  tr_AppendEntries :: "string \<Rightarrow> string \<Rightarrow> append_request \<Rightarrow> append_response option \<times> go_error option"
  tr_RequestVote :: "string \<Rightarrow> string \<Rightarrow> vote_request \<Rightarrow> vote_response option \<times> go_error option"
  tr_RequestPreVote ::
    "(string \<Rightarrow> string \<Rightarrow> prevote_request \<Rightarrow> prevote_response option \<times> go_error option) option"
  tr_InstallSnapshot ::
    "string \<Rightarrow> string \<Rightarrow> install_request \<Rightarrow> string \<Rightarrow> install_response option \<times> go_error option"
  tr_TimeoutNow :: "string \<Rightarrow> string \<Rightarrow> go_error option"
  tr_pipeline :: "append_request \<Rightarrow> append_future + go_error"

fun direct :: "transport \<Rightarrow> outgoing \<Rightarrow> answer" where
  "direct tr (Append i t a) = case_prod AppendAnswer (tr_AppendEntries tr i t a)"
| "direct tr (Vote i t v) = case_prod VoteAnswer (tr_RequestVote tr i t v)"
| "direct tr (PreVote i t q) =
     (case tr_RequestPreVote tr of
        Some call \<Rightarrow> case_prod PreVoteAnswer (call i t q)
      | None \<Rightarrow> PreVoteAnswer None (Some ''inner transport does not support pre-vote''))"
| "direct tr (Install i t s d) = case_prod InstallAnswer (tr_InstallSnapshot tr i t s d)"
| "direct tr (Timeout i t) = TimeoutAnswer (tr_TimeoutNow tr i t)"
| "direct tr (Pipelined p a) = PipelinedAnswer (tr_pipeline tr a)"
| "direct tr (Watch p f) = Watched"

fun observed :: "engine \<Rightarrow> transport \<Rightarrow> outgoing \<Rightarrow> node \<Rightarrow> node \<times> answer" where
  "observed e tr (Append i t a) n =
     (let (n', r, err) = AppendEntries e (tr_AppendEntries tr) i t a n in (n', AppendAnswer r err))"
| "observed e tr (Vote i t v) n =
     (let (n', r, err) = RequestVote e (tr_RequestVote tr) i t v n in (n', VoteAnswer r err))"
| "observed e tr (PreVote i t q) n =
     (let (n', r, err) = RequestPreVote e (tr_RequestPreVote tr) i t q n in (n', PreVoteAnswer r err))"
| "observed e tr (Install i t s d) n =
     (let (n', r, err) = InstallSnapshot e (tr_InstallSnapshot tr) i t s d n in (n', InstallAnswer r err))"
| "observed e tr (Timeout i t) n =
     (let (n', err) = TimeoutNow e (tr_TimeoutNow tr) i t n in (n', TimeoutAnswer err))"
| "observed e tr (Pipelined p a) n =
     (let (n', r) = pipeline_AppendEntries e (tr_pipeline tr) p a n in (n', PipelinedAnswer r))"
| "observed e tr (Watch p f) n = (watchFuture e p f n, Watched)"

text \<open>The term a call carries; a pipelined heartbeat is not looked at.\<close>

fun carried_term :: "outgoing \<Rightarrow> u64" where
  "carried_term (Append i t a) = aq_Term a"
| "carried_term (Vote i t v) = vq_Term v"
| "carried_term (PreVote i t q) = pq_Term q"
| "carried_term (Install i t s d) = iq_Term s"
| "carried_term (Timeout i t) = 0"
| "carried_term (Pipelined p a) = (if aq_Entries a = [] then 0 else aq_Term a)"
| "carried_term (Watch p f) = 0"

lemma announced_call [simp]:
  "ev_NodeID (heartbeat_sent_event p a) = []" "ev_NodeID (append_sent_event p a) = []"
  "ev_NodeID (append_result_event p w r) = []" "ev_NodeID (vote_requested_event p v) = []"
  "ev_NodeID (prevote_requested_event p q) = []" "ev_NodeID (install_sent_event p i) = []"
  "ev_NodeID (vote_event p w g x y) = []" "ev_NodeID (pipelined_event p a) = []"
  "ev_NodeID (pipeline_result_event p ar) = []"
  by (simp_all add: heartbeat_sent_event_def append_sent_event_def append_result_event_def pipelined_event_def
      vote_requested_event_def prevote_requested_event_def install_sent_event_def vote_event_def
      pipeline_result_event_def Let_def)

lemma observed_answer: "snd (observed e tr c n) = direct tr c"
  by (cases c)
    (auto simp: AppendEntries_def RequestVote_def RequestPreVote_def InstallSnapshot_def TimeoutNow_def
      pipeline_AppendEntries_def Let_def split: prod.splits option.splits)

lemma observed_effect: "announces (carried_term c) n (fst (observed e tr c n))"
  by (cases c)
    (auto simp: AppendEntries_def RequestVote_def RequestPreVote_def InstallSnapshot_def TimeoutNow_def
      pipeline_AppendEntries_def watchFuture_def emitVoteResult_def announces_emit Let_def
      split: prod.splits option.splits)

interpretation wrapped: wrapped_call
  "\<lambda>(e, tr, c). observed e tr c" "\<lambda>(e, tr, c). direct tr c" "\<lambda>(e, tr, c). carried_term c"
  by unfold_locales (auto simp: observed_answer observed_effect)

lemma announces_keeps:
  assumes "announces w n m"
  shows "h_clients (n_hub m) = h_clients (n_hub n)" and "node_ok n \<Longrightarrow> node_ok m"
proof -
  obtain es where m: "m = n\<lparr>n_hub := fold Broadcast es (n_hub n), n_lastTerm := max w (n_lastTerm n)\<rparr>"
    using assms by (auto simp: announces_def)
  have "h_clients (fold Broadcast es h) = h_clients h" for h
    by (induction es arbitrary: h) (simp_all add: Broadcast_def broadcastDirect_stamped Let_def)
  then show "h_clients (n_hub m) = h_clients (n_hub n)" by (simp add: m)
  have "emit_all broadcast es n = n\<lparr>n_hub := fold Broadcast es (n_hub n)\<rparr>"
    by (induction es arbitrary: n) (simp_all add: broadcast_def)
  then show "node_ok n \<Longrightarrow> node_ok m" using node_sink.ok_emit_all [of n es] by (simp add: m)
qed

text \<open>Property C11. The engine cannot tell the observing transport from the real one: in any
  sequence of appends, votes, pre-votes, snapshots, leadership transfers and pipelined appends, with the
  goroutines of the pipelines that watch the futures in between, each call returns exactly
  what the wrapped transport answers at its turn; and all that the sequence does to the node is to
  publish events in the node's own name and to raise the highest known term to the highest
  the calls carry.  No subscription is lost, and the node stays well-formed.\<close>

theorem transport_transparent:
  assumes "node_ok n"
  shows "snd (in_turn (\<lambda>(e, tr, c). observed e tr c) qs n) = map (\<lambda>(e, tr, c). direct tr c) qs \<and>
    (\<exists>es. fst (in_turn (\<lambda>(e, tr, c). observed e tr c) qs n) =
         n\<lparr>n_hub := fold Broadcast es (n_hub n),
           n_lastTerm := fold max (map (\<lambda>(e, tr, c). carried_term c) qs) (n_lastTerm n)\<rparr> \<and>
       (\<forall>ev \<in> set es. ev_NodeID ev = node_ID n)) \<and>
    h_clients (n_hub (fst (in_turn (\<lambda>(e, tr, c). observed e tr c) qs n))) = h_clients (n_hub n) \<and>
    node_ok (fst (in_turn (\<lambda>(e, tr, c). observed e tr c) qs n))"
proof -
  note c = wrapped.calls_transparent [of qs n]
  show ?thesis
    using announces_keeps [OF conjunct2 [OF c]] assms c
    unfolding announces_def fold_max_start [of _ "n_lastTerm n", symmetric] by blast
qed

definition sample_transport_answers :: transport where
  "sample_transport_answers =
     \<lparr>tr_AppendEntries = \<lambda>_ _ a. (Some \<lparr>ap_Term = aq_Term a, ap_LastLog = 5, ap_Success = True\<rparr>, None),
      tr_RequestVote = \<lambda>_ _ _. (None, Some ''timeout''), tr_RequestPreVote = None,
      tr_InstallSnapshot = \<lambda>_ _ _ _. (None, Some ''timeout''), tr_TimeoutNow = \<lambda>_ _. None,
      tr_pipeline = \<lambda>_. Inr ''closed''\<rparr>"

theorem transport_transparent_witness:
  "snd (in_turn (\<lambda>(e, tr, c). observed e tr c)
     [(\<lambda>_. sample_reading, sample_transport_answers, Vote ''node-2'' ''127.0.0.1:7002'' \<lparr>vq_Addr = [], vq_Term = 4,
         vq_Candidate = [], vq_LastLogIndex = 5, vq_LastLogTerm = 3, vq_LeadershipTransfer = False\<rparr>),
      (\<lambda>_. sample_reading, sample_transport_answers, Timeout ''node-2'' ''127.0.0.1:7002'')] sample_node) =
   [VoteAnswer None (Some ''timeout''), TimeoutAnswer None]"
  using transport_transparent [OF sample_node_ok,
      of "[(\<lambda>_. sample_reading, sample_transport_answers, Vote ''node-2'' ''127.0.0.1:7002'' \<lparr>vq_Addr = [], vq_Term = 4,
         vq_Candidate = [], vq_LastLogIndex = 5, vq_LastLogTerm = 3, vq_LeadershipTransfer = False\<rparr>),
      (\<lambda>_. sample_reading, sample_transport_answers, Timeout ''node-2'' ''127.0.0.1:7002'')]"]
  by (simp add: sample_transport_answers_def)

section \<open>What an append announces\<close>

abbreviation new_terms :: "node \<Rightarrow> u64 \<Rightarrow> event list" where
  "new_terms n w \<equiv> (if n_lastTerm n < w then [term_event (node_ID n) w] else [])"

lemma journal_term:
  "node_ok n \<Longrightarrow> journal_of (noteTerm w n) = last_n maxHistory (journal_of n @ new_terms n w)"
  using node_sink.journal_bound [of n] by (simp add: journal_noteTerm)

lemma append_quiet:
  assumes "node_ok n" and "aq_Entries a = []" and "ap i t a = (resp, err)"
  shows "fst (AppendEntries e ap i t a n) = emit e (heartbeat_sent_event i a) (noteTerm (aq_Term a) n)"
    and "journal_of (fst (AppendEntries e ap i t a n)) = last_n maxHistory (journal_of n @ new_terms n (aq_Term a))"
proof -
  show *: "fst (AppendEntries e ap i t a n) = emit e (heartbeat_sent_event i a) (noteTerm (aq_Term a) n)"
    using assms(2,3) by (simp add: AppendEntries_def isMaintenanceRequest_def Let_def)
  show "journal_of (fst (AppendEntries e ap i t a n)) = last_n maxHistory (journal_of n @ new_terms n (aq_Term a))"
    using journal_emit_quiet [OF node_ok_noteTerm [OF assms(1)], of "heartbeat_sent_event i a" e]
    by (simp add: * journal_term [OF assms(1)])
qed

lemma append_entries_journal:
  assumes "node_ok n" and "aq_Entries a \<noteq> []" and "ap i t a = (resp, err)"
  shows "journal_of (fst (AppendEntries e ap i t a n)) = last_n maxHistory (journal_of n @
    new_terms n (aq_Term a) @ [filled e n (append_sent_event i a)] @
    (if err = None \<and> resp \<noteq> None then [filled (later 1 e) n (append_result_event i (aq_Term a) (the resp))] else []))"
proof -
  let ?n1 = "noteTerm (aq_Term a) n" and ?n2 = "emit e (append_sent_event i a) (noteTerm (aq_Term a) n)"
  have "fst (AppendEntries e ap i t a n) = (if err = None \<and> resp \<noteq> None
      then emit (later 1 e) (append_result_event i (aq_Term a) (the resp)) ?n2 else ?n2)"
    using assms(2,3) by (simp add: AppendEntries_def isMaintenanceRequest_def Let_def)
  moreover have "journal_of ?n2 = last_n maxHistory ((journal_of n @ new_terms n (aq_Term a)) @ [filled e n (append_sent_event i a)])"
    unfolding journal_emit [OF node_ok_noteTerm [OF assms(1)] rpc_event_class(2,8)] journal_term [OF assms(1)] last_n_append
    by simp
  moreover have "node_ok ?n2" using assms(1) by simp
  ultimately show ?thesis
    using journal_emit [OF _ rpc_event_class(3,9), of ?n2]
      last_n_append [of maxHistory "(journal_of n @ new_terms n (aq_Term a)) @ [filled e n (append_sent_event i a)]"]
    by simp
qed

lemma append_counted:
  assumes "h_hbSent (n_hub m) = b" and "i \<noteq> []" and "node_ID m \<noteq> []"
  shows "h_hbSent (n_hub (emit e (heartbeat_sent_event i a) m)) =
    \<lparr>hb_count = Suc (hb_count b), hb_nodeID = node_ID m, hb_peerIDs = insert i (hb_peerIDs b),
     hb_lastTerm = aq_Term a, hb_lastCommit = aq_LeaderCommitIndex a\<rparr>"
  using assms
  by (simp add: emit_broadcast Broadcast_def accumulateHeartbeat_def filled_def heartbeat_sent_event_def
      fold_heartbeat_def is_heartbeat_def)

lemma noteTerm_hbSent: "h_hbSent (n_hub (noteTerm w n)) = h_hbSent (n_hub n)"
  by (simp add: noteTerm_broadcast Broadcast_def term_event_def broadcastDirect_stamped Let_def)

text \<open>Property C35. An append RPC announces, in this order, a term that is new, the entries it
  carries, and the follower's verdict if one came back; an empty append, a heartbeat,
  leaves the lifecycle history alone except for a new term and is counted for the next
  heartbeat batch, with the peer, the term and the commit index it carries.\<close>

theorem append_announcements:
  assumes "node_ok n" and "ap i t a = (resp, err)"
  shows "map unstamped (GetHistory (n_hub (fst (AppendEntries e ap i t a n)))) =
     last_n 50 (map unstamped (GetHistory (n_hub n)) @
       (if n_lastTerm n < aq_Term a then [term_event (node_ID n) (aq_Term a)] else []) @
       (if aq_Entries a = [] then [] else [filled e n (append_sent_event i a)]) @
       (if aq_Entries a \<noteq> [] \<and> err = None \<and> resp \<noteq> None
        then [filled (later 1 e) n (append_result_event i (aq_Term a) (the resp))] else [])) \<and>
     (aq_Entries a = [] \<longrightarrow> i \<noteq> [] \<longrightarrow> node_ID n \<noteq> [] \<longrightarrow>
       h_hbSent (n_hub (fst (AppendEntries e ap i t a n))) =
         \<lparr>hb_count = Suc (hb_count (h_hbSent (n_hub n))), hb_nodeID = node_ID n,
          hb_peerIDs = insert i (hb_peerIDs (h_hbSent (n_hub n))), hb_lastTerm = aq_Term a,
          hb_lastCommit = aq_LeaderCommitIndex a\<rparr>)"
proof (cases "aq_Entries a = []")
  case True
  note q = append_quiet [OF assms(1) True, of ap, OF assms(2), of e]
  show ?thesis
    using q(2) True append_counted [OF noteTerm_hbSent, of i "aq_Term a" n e a]
    by (simp add: q(1) journal_of_def announced_def GetHistory_def maxHistory_def)
next
  case False
  then show ?thesis
    using append_entries_journal [OF assms(1) False, of ap, OF assms(2), of e]
    by (simp add: journal_of_def announced_def GetHistory_def maxHistory_def)
qed

definition sample_append :: append_request where
  "sample_append = \<lparr>aq_Addr = ''127.0.0.1:7001'', aq_Term = 3, aq_Leader = [], aq_PrevLogEntry = 4,
     aq_Entries = [\<lparr>log_Index = 5, log_Term = 3, log_Data = []\<rparr>], aq_LeaderCommitIndex = 4\<rparr>"

theorem append_announcements_witness:
  "length (GetHistory (n_hub (fst (AppendEntries (\<lambda>_. sample_reading)
      (\<lambda>_ _ _. (Some \<lparr>ap_Term = 3, ap_LastLog = 5, ap_Success = True\<rparr>, None))
      ''node-2'' ''127.0.0.1:7002'' sample_append sample_node)))) = 3"
proof -
  have "n_lastTerm sample_node = 0" "aq_Term sample_append = 3" "aq_Entries sample_append \<noteq> []"
    by (simp_all add: sample_node_def initial_node_def sample_append_def)
  then have "length (map unstamped (GetHistory (n_hub (fst (AppendEntries (\<lambda>_. sample_reading)
      (\<lambda>_ _ _. (Some \<lparr>ap_Term = 3, ap_LastLog = 5, ap_Success = True\<rparr>, None))
      ''node-2'' ''127.0.0.1:7002'' sample_append sample_node))))) = 3"
    using append_announcements [OF sample_node_ok, of "\<lambda>_ _ _. (Some \<lparr>ap_Term = 3, ap_LastLog = 5, ap_Success = True\<rparr>, None)"
        "''node-2''" "''127.0.0.1:7002''" sample_append "Some \<lparr>ap_Term = 3, ap_LastLog = 5, ap_Success = True\<rparr>" None
        "\<lambda>_. sample_reading"] by simp
  then show ?thesis by simp
qed

section \<open>The relay of incoming RPCs\<close>

definition is_prevote :: "rpc \<Rightarrow> bool" where
  "is_prevote rpc = (case rpc_Command rpc of RequestPreVoteRequest q \<Rightarrow> True | _ \<Rightarrow> False)"

definition is_vote :: "rpc \<Rightarrow> bool" where
  "is_vote rpc = (case rpc_Command rpc of RequestVoteRequest v \<Rightarrow> True | RequestPreVoteRequest q \<Rightarrow> True | _ \<Rightarrow> False)"

text \<open>A waiting goroutine, without the candidate it will name.\<close>

definition waiting :: "event_transport \<Rightarrow> (nat \<times> nat \<times> bool) list" where
  "waiting t = map (\<lambda>r. (rl_private r, rl_target r, rl_preVote r)) (et_relays t)"

lemma on_node_sel [simp]:
  "et_forwarded (on_node f t) = et_forwarded t" "et_relays (on_node f t) = et_relays t"
  "et_replies (on_node f t) = et_replies t" "et_nextChan (on_node f t) = et_nextChan t"
  "et_node (on_node f t) = f (et_node t)" "waiting (on_node f t) = waiting t"
  by (simp_all add: on_node_def waiting_def)

lemma forward_one_shape:
  "et_forwarded (forward_one decode (e, rpc) t) =
     et_forwarded t @ [if is_vote rpc then rpc\<lparr>rpc_RespChan := et_nextChan t\<rparr> else rpc]"
  "waiting (forward_one decode (e, rpc) t) =
     waiting t @ (if is_vote rpc then [(et_nextChan t, rpc_RespChan rpc, is_prevote rpc)] else [])"
  "et_nextChan (forward_one decode (e, rpc) t) = (if is_vote rpc then Suc (et_nextChan t) else et_nextChan t)"
  "et_replies (forward_one decode (e, rpc) t) = et_replies t"
  by (auto simp: forward_one_def onIncomingVoteRequest_def onIncomingPreVoteRequest_def Let_def
      forwardWithVoteCapture_def pass_on_def is_vote_def is_prevote_def waiting_def split: rpc_command.split)

lemma node_ok_forward_one: "node_ok (et_node t) \<Longrightarrow> node_ok (et_node (forward_one decode (e, rpc) t))"
  by (auto simp: forward_one_def onIncomingVoteRequest_def onIncomingPreVoteRequest_def Let_def
      forwardWithVoteCapture_def pass_on_def split: rpc_command.split)

lemma find_relay:
  "(find (\<lambda>r. rl_private r = c) rs = None) = (c \<notin> fst ` set (map (\<lambda>r. (rl_private r, rl_target r, rl_preVote r)) rs))"
  "find (\<lambda>r. rl_private r = c) rs = Some r \<Longrightarrow>
     (c, rl_target r, rl_preVote r) \<in> set (map (\<lambda>r. (rl_private r, rl_target r, rl_preVote r)) rs)"
  by (induction rs) (auto split: if_splits)

text \<open>Arriving RPCs and answers of the engine in any order.  \<open>ins\<close> is what has arrived, \<open>ans\<close>
  the positions the engine has answered; it answers each RPC once.  The senders' channels
  are numbered below \<open>chan\<close>, those the wrapper makes from \<open>chan\<close> on.\<close>

inductive transport_run ::
  "(string \<Rightarrow> string) \<Rightarrow> node \<Rightarrow> nat \<Rightarrow> event_transport \<Rightarrow> rpc list \<Rightarrow> nat set \<Rightarrow> bool"
  for decode n chan where
  start: "transport_run decode n chan (newEventTransport n chan) [] {}"
| incoming: "transport_run decode n chan t ins ans \<Longrightarrow> rpc_RespChan rpc < chan \<Longrightarrow>
    transport_run decode n chan (forward_one decode (e, rpc) t) (ins @ [rpc]) ans"
| answer: "transport_run decode n chan t ins ans \<Longrightarrow> i < length (et_forwarded t) \<Longrightarrow> i \<notin> ans \<Longrightarrow>
    transport_run decode n chan (respond e (rpc_RespChan (et_forwarded t ! i)) resp t) ins (insert i ans)"

definition relay_inv :: "nat \<Rightarrow> event_transport \<Rightarrow> rpc list \<Rightarrow> nat set \<Rightarrow> bool" where
  "relay_inv chan t ins ans \<longleftrightarrow>
     length (et_forwarded t) = length ins \<and> chan \<le> et_nextChan t \<and> ans \<subseteq> {..<length ins} \<and>
     distinct (map fst (waiting t)) \<and>
     (\<forall>i < length ins. rpc_Command (et_forwarded t ! i) = rpc_Command (ins ! i) \<and> rpc_RespChan (ins ! i) < chan \<and>
        (if is_vote (ins ! i)
         then chan \<le> rpc_RespChan (et_forwarded t ! i) \<and> rpc_RespChan (et_forwarded t ! i) < et_nextChan t
         else rpc_RespChan (et_forwarded t ! i) = rpc_RespChan (ins ! i))) \<and>
     inj_on (\<lambda>i. rpc_RespChan (et_forwarded t ! i)) {i. i < length ins \<and> is_vote (ins ! i)} \<and>
     set (waiting t) = (\<lambda>i. (rpc_RespChan (et_forwarded t ! i), rpc_RespChan (ins ! i), is_prevote (ins ! i))) `
       {i. i < length ins \<and> is_vote (ins ! i) \<and> i \<notin> ans}"

lemma respond_shape:
  assumes "distinct (map fst (waiting t))"
  shows "et_forwarded (respond e c resp t) = et_forwarded t" "et_nextChan (respond e c resp t) = et_nextChan t"
    "waiting (respond e c resp t) = filter (\<lambda>w. fst w \<noteq> c) (waiting t)"
    "et_replies (respond e c resp t) = et_replies t @
       [(case map_of (waiting t) c of Some (target, pre) \<Rightarrow> target | None \<Rightarrow> c, resp)]"
proof -
  have r: "rl_target r = target" if "find (\<lambda>r. rl_private r = c) (et_relays t) = Some r" "map_of (waiting t) c = Some (target, pre)"
    for r target pre
    using find_relay(2) [OF that(1)] that(2) assms by (auto simp: waiting_def map_of_eq_Some_iff)
  have none: "find (\<lambda>r. rl_private r = c) (et_relays t) = None \<longleftrightarrow> map_of (waiting t) c = None"
    using find_relay(1) [of c "et_relays t"] by (simp add: waiting_def map_of_eq_None_iff)
  show "et_forwarded (respond e c resp t) = et_forwarded t" "et_nextChan (respond e c resp t) = et_nextChan t"
    by (simp_all add: respond_def relay_def Let_def split: option.split)
  show "et_replies (respond e c resp t) = et_replies t @
       [(case map_of (waiting t) c of Some (target, pre) \<Rightarrow> target | None \<Rightarrow> c, resp)]"
    using r none by (auto simp: respond_def relay_def Let_def split: option.split)
  show "waiting (respond e c resp t) = filter (\<lambda>w. fst w \<noteq> c) (waiting t)"
  proof (cases "find (\<lambda>r. rl_private r = c) (et_relays t)")
    case None
    then have "c \<notin> fst ` set (waiting t)" using find_relay(1) [of c "et_relays t"] by (simp add: waiting_def)
    then have "filter (\<lambda>w. fst w \<noteq> c) (waiting t) = waiting t" by (force intro: filter_True)
    then show ?thesis using None by (simp add: respond_def waiting_def)
  next
    case (Some r)
    then show ?thesis by (simp add: respond_def relay_def Let_def waiting_def filter_map comp_def)
  qed
qed

lemma relay_inv_incoming:
  assumes inv: "relay_inv chan t ins ans" and c: "rpc_RespChan rpc < chan"
  shows "relay_inv chan (forward_one decode (e, rpc) t) (ins @ [rpc]) ans"
proof -
  let ?t = "forward_one decode (e, rpc) t" and ?k = "length ins"
  have len: "length (et_forwarded t) = ?k" and nx: "chan \<le> et_nextChan t" using inv by (simp_all add: relay_inv_def)
  have old: "et_forwarded ?t ! i = et_forwarded t ! i" "(ins @ [rpc]) ! i = ins ! i" if "i < ?k" for i
    using that len by (simp_all add: forward_one_shape nth_append)
  have new: "et_forwarded ?t ! ?k = (if is_vote rpc then rpc\<lparr>rpc_RespChan := et_nextChan t\<rparr> else rpc)"
    "(ins @ [rpc]) ! ?k = rpc"
    using len by (simp_all add: forward_one_shape nth_append)
  have below: "rpc_RespChan (et_forwarded t ! i) < et_nextChan t" if "i < ?k" "is_vote (ins ! i)" for i
    using inv that by (auto simp: relay_inv_def)
  have fresh: "et_nextChan t \<notin> fst ` set (waiting t)"
    using inv below by (auto simp: relay_inv_def)
  have dn: "ans \<subseteq> {..<?k}" using inv by (simp add: relay_inv_def)
  have votes: "{i. i < length (ins @ [rpc]) \<and> is_vote ((ins @ [rpc]) ! i) \<and> P i} =
      {i. i < ?k \<and> is_vote (ins ! i) \<and> P i} \<union> (if is_vote rpc \<and> P ?k then {?k} else {})" for P
    using old(2) new(2) by (auto simp: less_Suc_eq)
  have "distinct (map fst (waiting ?t))"
    using inv fresh by (simp add: relay_inv_def forward_one_shape)
  moreover have "\<forall>i < length (ins @ [rpc]).
      rpc_Command (et_forwarded ?t ! i) = rpc_Command ((ins @ [rpc]) ! i) \<and> rpc_RespChan ((ins @ [rpc]) ! i) < chan \<and>
      (if is_vote ((ins @ [rpc]) ! i)
       then chan \<le> rpc_RespChan (et_forwarded ?t ! i) \<and> rpc_RespChan (et_forwarded ?t ! i) < et_nextChan ?t
       else rpc_RespChan (et_forwarded ?t ! i) = rpc_RespChan ((ins @ [rpc]) ! i))"
    using inv old new nx c
    by (auto simp: less_Suc_eq relay_inv_def forward_one_shape(3) split: if_splits)
  moreover have "inj_on (\<lambda>i. rpc_RespChan (et_forwarded ?t ! i)) {i. i < length (ins @ [rpc]) \<and> is_vote ((ins @ [rpc]) ! i)}"
  proof -
    have "inj_on (\<lambda>i. rpc_RespChan (et_forwarded ?t ! i)) {i. i < ?k \<and> is_vote (ins ! i)}"
      using inv old(1) by (auto simp: relay_inv_def inj_on_def)
    moreover have "et_nextChan t \<notin> (\<lambda>i. rpc_RespChan (et_forwarded ?t ! i)) ` {i. i < ?k \<and> is_vote (ins ! i)}"
      using below old(1) by force
    ultimately show ?thesis
      using votes [of "\<lambda>_. True"] new by (simp add: image_iff)
  qed
  moreover have "set (waiting ?t) = (\<lambda>i. (rpc_RespChan (et_forwarded ?t ! i), rpc_RespChan ((ins @ [rpc]) ! i),
      is_prevote ((ins @ [rpc]) ! i))) ` {i. i < length (ins @ [rpc]) \<and> is_vote ((ins @ [rpc]) ! i) \<and> i \<notin> ans}"
  proof -
    have "?k \<notin> ans" using dn by auto
    moreover have "set (waiting t) = (\<lambda>i. (rpc_RespChan (et_forwarded ?t ! i), rpc_RespChan ((ins @ [rpc]) ! i),
        is_prevote ((ins @ [rpc]) ! i))) ` {i. i < ?k \<and> is_vote (ins ! i) \<and> i \<notin> ans}"
      using inv old by (auto simp: relay_inv_def)
    ultimately show ?thesis using votes [of "\<lambda>i. i \<notin> ans"] new by (auto simp: forward_one_shape(2))
  qed
  ultimately show ?thesis
    using inv len unfolding relay_inv_def by (auto simp: forward_one_shape(1,3))
qed

lemma relay_inv_answer:
  assumes inv: "relay_inv chan t ins ans" and i: "i < length ins" "i \<notin> ans"
  defines "c \<equiv> rpc_RespChan (et_forwarded t ! i)"
  shows "relay_inv chan (respond e c resp t) ins (insert i ans)"
proof -
  have d: "distinct (map fst (waiting t))" using inv by (simp add: relay_inv_def)
  have inj: "inj_on (\<lambda>i. rpc_RespChan (et_forwarded t ! i)) {i. i < length ins \<and> is_vote (ins ! i)}"
    using inv by (simp add: relay_inv_def)
  have w: "set (waiting t) = (\<lambda>i. (rpc_RespChan (et_forwarded t ! i), rpc_RespChan (ins ! i), is_prevote (ins ! i))) `
      {i. i < length ins \<and> is_vote (ins ! i) \<and> i \<notin> ans}"
    using inv by (simp add: relay_inv_def)
  have same: "j = i" if "j < length ins" "is_vote (ins ! j)" "rpc_RespChan (et_forwarded t ! j) = c" for j
  proof -
    have "is_vote (ins ! i)"
    proof (rule ccontr)
      assume "\<not> is_vote (ins ! i)"
      then have "c < chan" using inv i(1) by (auto simp: relay_inv_def c_def)
      moreover have "chan \<le> rpc_RespChan (et_forwarded t ! j)" using inv that(1,2) by (auto simp: relay_inv_def)
      ultimately show False using that(3) by simp
    qed
    then show ?thesis using inj that i(1) by (auto simp: inj_on_def c_def)
  qed
  have "set (filter (\<lambda>w. fst w \<noteq> c) (waiting t)) =
      (\<lambda>i. (rpc_RespChan (et_forwarded t ! i), rpc_RespChan (ins ! i), is_prevote (ins ! i))) `
      {j. j < length ins \<and> is_vote (ins ! j) \<and> j \<notin> insert i ans}"
    using same by (auto simp: w c_def)
  moreover have "distinct (map fst (filter (\<lambda>w. fst w \<noteq> c) (waiting t)))"
    using d by (rule distinct_map_filter)
  ultimately show ?thesis
    using inv i by (simp add: relay_inv_def respond_shape [OF d])
qed

lemma transport_run_inv: "transport_run decode n chan t ins ans \<Longrightarrow> relay_inv chan t ins ans"
proof (induction rule: transport_run.induct)
  case start
  then show ?case by (simp add: relay_inv_def newEventTransport_def waiting_def)
next
  case (incoming t ins ans rpc e)
  then show ?case by (intro relay_inv_incoming)
next
  case (answer t ins ans i e resp)
  then have "i < length ins" by (simp add: relay_inv_def)
  then show ?case using answer by (intro relay_inv_answer)
qed

text \<open>Property C10. In every interleaving of arriving RPCs and answers, the engine is handed
  exactly the RPCs that arrived, in order and unchanged but for a private response channel
  on votes and pre-votes; and when it answers one, the answer reaches the channel that RPC
  came with, unchanged, once, and no other channel.\<close>

theorem relay_faithful:
  assumes "transport_run decode n chan t ins ans" and "i < length ins" and "i \<notin> ans"
  shows "map rpc_Command (et_forwarded t) = map rpc_Command ins \<and>
     et_replies (respond e (rpc_RespChan (et_forwarded t ! i)) resp t) =
       et_replies t @ [(rpc_RespChan (ins ! i), resp)]"
proof
  have inv: "relay_inv chan t ins ans" by (rule transport_run_inv [OF assms(1)])
  then show "map rpc_Command (et_forwarded t) = map rpc_Command ins"
    by (intro nth_equalityI) (auto simp: relay_inv_def)
  have d: "distinct (map fst (waiting t))" using inv by (simp add: relay_inv_def)
  show "et_replies (respond e (rpc_RespChan (et_forwarded t ! i)) resp t) =
      et_replies t @ [(rpc_RespChan (ins ! i), resp)]"
  proof (cases "is_vote (ins ! i)")
    case True
    then have "(rpc_RespChan (et_forwarded t ! i), rpc_RespChan (ins ! i), is_prevote (ins ! i)) \<in> set (waiting t)"
      using inv assms(2,3) by (auto simp: relay_inv_def)
    then have "map_of (waiting t) (rpc_RespChan (et_forwarded t ! i)) = Some (rpc_RespChan (ins ! i), is_prevote (ins ! i))"
      using d by simp
    then show ?thesis by (simp add: respond_shape(4) [OF d])
  next
    case False
    then have c: "rpc_RespChan (et_forwarded t ! i) = rpc_RespChan (ins ! i)" "rpc_RespChan (ins ! i) < chan"
      using inv assms(2) by (auto simp: relay_inv_def)
    have "chan \<le> fst w" if "w \<in> set (waiting t)" for w
      using inv that by (auto simp: relay_inv_def)
    then have "map_of (waiting t) (rpc_RespChan (ins ! i)) = None"
      using c(2) by (force simp: map_of_eq_None_iff)
    then show ?thesis by (simp add: respond_shape(4) [OF d] c(1))
  qed
qed

definition sample_vote_rpc :: rpc where
  "sample_vote_rpc = \<lparr>rpc_Command = RequestVoteRequest \<lparr>vq_Addr = ''127.0.0.1:7002'', vq_Term = 4,
     vq_Candidate = [], vq_LastLogIndex = 5, vq_LastLogTerm = 3, vq_LeadershipTransfer = False\<rparr>, rpc_RespChan = 0\<rparr>"

definition sample_prevote_rpc :: rpc where
  "sample_prevote_rpc = \<lparr>rpc_Command = RequestPreVoteRequest \<lparr>pq_Addr = ''127.0.0.1:7002'', pq_Term = 4,
     pq_LastLogIndex = 5, pq_LastLogTerm = 3\<rparr>, rpc_RespChan = 1\<rparr>"

definition sample_transport :: event_transport where
  "sample_transport = forward_one id (\<lambda>_. sample_reading, sample_prevote_rpc)
     (forward_one id (\<lambda>_. sample_reading, sample_vote_rpc) (newEventTransport sample_node 2))"

lemma sample_transport_run: "transport_run id sample_node 2 sample_transport [sample_vote_rpc, sample_prevote_rpc] {}"
  using transport_run.incoming [OF transport_run.incoming [OF transport_run.start, of sample_vote_rpc 2 id sample_node
      "\<lambda>_. sample_reading"], of sample_prevote_rpc "\<lambda>_. sample_reading"]
  by (simp add: sample_transport_def sample_vote_rpc_def sample_prevote_rpc_def)

theorem relay_faithful_witness:
  "\<forall>resp. et_replies (respond (\<lambda>_. sample_reading) (rpc_RespChan (et_forwarded sample_transport ! 1)) resp sample_transport) =
     et_replies sample_transport @ [(1, resp)]"
  using relay_faithful [OF sample_transport_run, of 1] by (simp add: sample_prevote_rpc_def)

section \<open>Votes\<close>

lemma respond_waiting:
  assumes "transport_run decode n chan t ins ans" and "i < length ins" and "i \<notin> ans" and "is_vote (ins ! i)"
  obtains r where "find (\<lambda>r. rl_private r = rpc_RespChan (et_forwarded t ! i)) (et_relays t) = Some r"
    and "rl_preVote r = is_prevote (ins ! i)"
proof -
  let ?c = "rpc_RespChan (et_forwarded t ! i)"
  have inv: "relay_inv chan t ins ans" by (rule transport_run_inv [OF assms(1)])
  then have d: "distinct (map fst (waiting t))" by (simp add: relay_inv_def)
  have w: "(?c, rpc_RespChan (ins ! i), is_prevote (ins ! i)) \<in> set (waiting t)"
    using inv assms(2-4) by (auto simp: relay_inv_def)
  then obtain r where r: "find (\<lambda>r. rl_private r = ?c) (et_relays t) = Some r"
    using find_relay(1) [of ?c "et_relays t"] by (force simp: waiting_def)
  from find_relay(2) [OF r] have "(?c, rl_target r, rl_preVote r) \<in> set (waiting t)" by (simp add: waiting_def)
  with w d have "rl_preVote r = is_prevote (ins ! i)" by (auto dest: eq_key_imp_eq_value)
  with r that show ?thesis by blast
qed

lemma node_ok_transport_run: "transport_run decode n chan t ins ans \<Longrightarrow> node_ok n \<Longrightarrow> node_ok (et_node t)"
proof (induction rule: transport_run.induct)
  case (answer t ins ans i e resp)
  then show ?case
    by (auto simp: respond_def relay_def Let_def emitVoteResult_def split: option.split rpc_body.split)
qed (simp_all add: newEventTransport_def node_ok_forward_one)

text \<open>A run in which every turn of the forwarder visits the known peers in some order.\<close>

inductive ordered_run ::
  "(string \<Rightarrow> string) \<Rightarrow> node \<Rightarrow> nat \<Rightarrow> event_transport \<Rightarrow> rpc list \<Rightarrow> nat set \<Rightarrow> bool"
  for decode n chan where
  ordered_start: "ordered_run decode n chan (newEventTransport n chan) [] {}"
| ordered_incoming: "ordered_run decode n chan t ins ans \<Longrightarrow> rpc_RespChan rpc < chan \<Longrightarrow>
    map_order (rd_Order (e 0)) (n_knownPeers n) \<Longrightarrow>
    ordered_run decode n chan (forward_one decode (e, rpc) t) (ins @ [rpc]) ans"
| ordered_answer: "ordered_run decode n chan t ins ans \<Longrightarrow> i < length (et_forwarded t) \<Longrightarrow> i \<notin> ans \<Longrightarrow>
    ordered_run decode n chan (respond e (rpc_RespChan (et_forwarded t ! i)) resp t) ins (insert i ans)"

lemma ordered_transport_run: "ordered_run decode n chan t ins ans \<Longrightarrow> transport_run decode n chan t ins ans"
  by (induction rule: ordered_run.induct) (auto intro: transport_run.intros)

text \<open>The address a request gives for its candidate, and the candidate it names.\<close>

fun candidate_addr :: "rpc_command \<Rightarrow> string" where
  "candidate_addr (RequestVoteRequest v) = (if vq_Addr v = [] then vq_Candidate v else vq_Addr v)"
| "candidate_addr (RequestPreVoteRequest q) = pq_Addr q"
| "candidate_addr _ = []"

definition names_candidate :: "(string \<Rightarrow> string) \<Rightarrow> node \<Rightarrow> rpc_command \<Rightarrow> string \<Rightarrow> bool" where
  "names_candidate decode n cmd c \<longleftrightarrow>
     (if candidate_addr cmd = [] then c = ''unknown'' else names_peer n (decode (candidate_addr cmd)) c)"

lemma nodeIDForRaftAddr_cong: "n_knownPeers m = n_knownPeers n \<Longrightarrow> nodeIDForRaftAddr ks a m = nodeIDForRaftAddr ks a n"
  by (simp add: nodeIDForRaftAddr_def)

definition candidates_inv :: "(string \<Rightarrow> string) \<Rightarrow> node \<Rightarrow> event_transport \<Rightarrow> rpc list \<Rightarrow> bool" where
  "candidates_inv decode n t ins \<longleftrightarrow> n_knownPeers (et_node t) = n_knownPeers n \<and>
     (\<forall>r \<in> set (et_relays t). \<forall>i < length ins.
        is_vote (ins ! i) \<longrightarrow> rpc_RespChan (et_forwarded t ! i) = rl_private r \<longrightarrow>
        names_candidate decode n (rpc_Command (ins ! i)) (rl_candidateID r))"

lemma forward_one_relays:
  assumes "map_order (rd_Order (e 0)) (n_knownPeers n)" and "n_knownPeers (et_node t) = n_knownPeers n"
  shows "n_knownPeers (et_node (forward_one decode (e, rpc) t)) = n_knownPeers n"
    and "r \<in> set (et_relays (forward_one decode (e, rpc) t)) \<Longrightarrow>
      r \<in> set (et_relays t) \<or>
      is_vote rpc \<and> rl_private r = et_nextChan t \<and> names_candidate decode n (rpc_Command rpc) (rl_candidateID r)"
proof -
  have named: "names_peer n a (peerIDFromAddr (rd_Order (e 0)) a (noteTerm w (et_node t)))" for a w
    using nodeIDForRaftAddr_names [OF assms(1), of a]
    by (simp add: peerIDFromAddr_def nodeIDForRaftAddr_cong [of "noteTerm w (et_node t)" n, simplified, OF assms(2)])
  show "n_knownPeers (et_node (forward_one decode (e, rpc) t)) = n_knownPeers n"
    using assms(2)
    by (auto simp: forward_one_def onIncomingVoteRequest_def onIncomingPreVoteRequest_def
        forwardWithVoteCapture_def pass_on_def Let_def split: rpc_command.split)
  show "r \<in> set (et_relays t) \<or>
      is_vote rpc \<and> rl_private r = et_nextChan t \<and> names_candidate decode n (rpc_Command rpc) (rl_candidateID r)"
    if "r \<in> set (et_relays (forward_one decode (e, rpc) t))"
    using that named
    by (auto simp: forward_one_def onIncomingVoteRequest_def onIncomingPreVoteRequest_def is_vote_def
        forwardWithVoteCapture_def pass_on_def candidateIDFor_def names_candidate_def Let_def
        split: rpc_command.splits if_splits)
qed

lemma ordered_run_candidates:
  "ordered_run decode n chan t ins ans \<Longrightarrow> candidates_inv decode n t ins"
proof (induction rule: ordered_run.induct)
  case ordered_start
  then show ?case by (simp add: candidates_inv_def newEventTransport_def)
next
  case (ordered_incoming t ins ans rpc e)
  have inv: "relay_inv chan t ins ans"
    by (rule transport_run_inv [OF ordered_transport_run [OF ordered_incoming.hyps(1)]])
  have c: "n_knownPeers (et_node t) = n_knownPeers n"
    using ordered_incoming.IH by (simp add: candidates_inv_def)
  note f = forward_one_relays [where e = e and n = n and t = t and decode = decode and rpc = rpc, OF ordered_incoming.hyps(3) c]
  have old: "rl_private r < et_nextChan t" if "r \<in> set (et_relays t)" for r
  proof -
    have "rl_private r \<in> fst ` set (waiting t)" using that by (force simp: waiting_def)
    then show ?thesis using inv by (auto simp: relay_inv_def split: if_splits)
  qed
  have "names_candidate decode n (rpc_Command ((ins @ [rpc]) ! i)) (rl_candidateID r)"
    if r: "r \<in> set (et_relays (forward_one decode (e, rpc) t))" and i: "i < length (ins @ [rpc])"
      and v: "is_vote ((ins @ [rpc]) ! i)"
      and eq: "rpc_RespChan (et_forwarded (forward_one decode (e, rpc) t) ! i) = rl_private r" for r i
  proof (cases "i < length ins")
    case True
    have "rpc_RespChan (et_forwarded t ! i) < et_nextChan t" "length (et_forwarded t) = length ins"
      using inv True v by (auto simp: relay_inv_def nth_append)
    then have "rl_private r \<noteq> et_nextChan t" "rpc_RespChan (et_forwarded t ! i) = rl_private r"
      using eq True by (auto simp: forward_one_shape nth_append)
    then show ?thesis
      using f(2) [OF r] ordered_incoming.IH True v by (auto simp: candidates_inv_def nth_append)
  next
    case False
    then have n: "i = length ins" using i by simp
    have "length (et_forwarded t) = length ins" using inv by (simp add: relay_inv_def)
    then have "rl_private r = et_nextChan t" using eq v n by (auto simp: forward_one_shape nth_append)
    then have "r \<notin> set (et_relays t)" using old [of r] by auto
    then show ?thesis using f(2) [OF r] n by simp
  qed
  then show ?case using f(1) by (simp add: candidates_inv_def)
next
  case (ordered_answer t ins ans i e resp)
  have "et_forwarded (respond e c resp t) = et_forwarded t" "set (et_relays (respond e c resp t)) \<subseteq> set (et_relays t)"
    "n_knownPeers (et_node (respond e c resp t)) = n_knownPeers (et_node t)" for c
    by (auto simp: respond_def relay_def Let_def emitVoteResult_def split: option.split rpc_body.split)
  then show ?case using ordered_answer.IH by (simp add: candidates_inv_def) blast
qed

text \<open>Property C36. The vote this node casts is announced when the engine answers: in every
  interleaving, answering a vote request with a vote announces exactly that decision, for
  the term of the answer, as a binding vote and not a pre-vote, and for the candidate the request names: a
  known peer with the request's address, the address itself when no known peer has it, and
  ``unknown'' when the request gives no address.  An answer that is an error announces nothing.\<close>

theorem vote_cast_announced:
  assumes "ordered_run decode n chan t ins ans" and "node_ok n" and "i < length ins" and "i \<notin> ans"
    and "rpc_Command (ins ! i) = RequestVoteRequest v"
  shows "\<exists>candidate.
     (let addr = (if vq_Addr v \<noteq> [] then vq_Addr v else vq_Candidate v)
      in if addr = [] then candidate = ''unknown''
         else if decode addr \<in> ran (n_knownPeers n) then n_knownPeers n candidate = Some (decode addr)
         else candidate = decode addr) \<and>
     map unstamped (GetHistory (n_hub (et_node (respond e (rpc_RespChan (et_forwarded t ! i))
         \<lparr>rr_Response = RequestVoteResponse vr, rr_Error = err\<rparr> t)))) =
     last_n 50 (map unstamped (GetHistory (n_hub (et_node t))) @
       (if err = None then [filled e (et_node t) (vote_event candidate (vr_Term vr) (vr_Granted vr) True False)] else []))"
proof -
  note run = ordered_transport_run [OF assms(1)]
  have v: "is_vote (ins ! i)" "\<not> is_prevote (ins ! i)" using assms(5) by (simp_all add: is_vote_def is_prevote_def)
  with respond_waiting [OF run assms(3,4)] obtain r where
    r: "find (\<lambda>r. rl_private r = rpc_RespChan (et_forwarded t ! i)) (et_relays t) = Some r" "rl_preVote r = False"
    by metis
  have ok: "node_ok (et_node t)" by (rule node_ok_transport_run [OF run assms(2)])
  have "r \<in> set (et_relays t)" "rl_private r = rpc_RespChan (et_forwarded t ! i)"
    using r(1) by (auto simp: find_Some_iff)
  then have "names_candidate decode n (rpc_Command (ins ! i)) (rl_candidateID r)"
    using ordered_run_candidates [OF assms(1)] assms(3) v(1) by (simp add: candidates_inv_def)
  moreover have "journal_of (et_node (respond e (rpc_RespChan (et_forwarded t ! i))
         \<lparr>rr_Response = RequestVoteResponse vr, rr_Error = err\<rparr> t)) =
     last_n maxHistory (journal_of (et_node t) @
       (if err = None then [filled e (et_node t) (vote_event (rl_candidateID r) (vr_Term vr) (vr_Granted vr) True False)] else []))"
    using r journal_emit [OF ok] node_sink.journal_bound [OF ok]
    by (simp add: respond_def relay_def emitVoteResult_def Let_def)
  ultimately show ?thesis
    using assms(5)
    by (intro exI [of _ "rl_candidateID r"])
      (simp add: names_candidate_def names_peer_def journal_of_def announced_def GetHistory_def maxHistory_def Let_def
        split: if_splits)
qed

lemma sample_ordered_run: "ordered_run id sample_node 2 sample_transport [sample_vote_rpc, sample_prevote_rpc] {}"
  using ordered_incoming [OF ordered_incoming [OF ordered_start, of sample_vote_rpc 2 "\<lambda>_. sample_reading" sample_node id],
      of sample_prevote_rpc "\<lambda>_. sample_reading"]
  by (simp add: sample_transport_def sample_vote_rpc_def sample_prevote_rpc_def map_order_def sample_reading_def
      sample_node_def initial_node_def sample_config_def)

theorem vote_cast_announced_witness:
  "map unstamped (GetHistory (n_hub (et_node (respond (\<lambda>_. sample_reading)
      (rpc_RespChan (et_forwarded sample_transport ! 0))
      \<lparr>rr_Response = RequestVoteResponse \<lparr>vr_Term = 4, vr_Granted = True\<rparr>, rr_Error = None\<rparr> sample_transport)))) =
     last_n 50 (map unstamped (GetHistory (n_hub (et_node sample_transport))) @
       [filled (\<lambda>_. sample_reading) (et_node sample_transport) (vote_event ''127.0.0.1:7002'' 4 True True False)])"
  using vote_cast_announced [OF sample_ordered_run sample_node_ok, of 0 _ "\<lambda>_. sample_reading"
      "\<lparr>vr_Term = 4, vr_Granted = True\<rparr>" None]
  by (simp add: sample_vote_rpc_def sample_node_def initial_node_def sample_config_def)

text \<open>A pre-vote this node casts is never announced, although the wrapper waits for
  it as for a vote: the engine answers a pre-vote with a pre-vote response, and on that
  answer the node is left exactly as it was, granted or not.\<close>

theorem prevote_cast_unannounced:
  assumes "transport_run decode n chan t ins ans" and "i < length ins" and "i \<notin> ans"
    and "rpc_Command (ins ! i) = RequestPreVoteRequest q"
  shows "et_node (respond e (rpc_RespChan (et_forwarded t ! i))
      \<lparr>rr_Response = RequestPreVoteResponse pr, rr_Error = err\<rparr> t) = et_node t"
proof -
  have "is_vote (ins ! i)" using assms(4) by (simp add: is_vote_def)
  from respond_waiting [OF assms(1-3) this] obtain r where
    "find (\<lambda>r. rl_private r = rpc_RespChan (et_forwarded t ! i)) (et_relays t) = Some r" by metis
  then show ?thesis by (simp add: respond_def relay_def Let_def)
qed

theorem prevote_cast_unannounced_witness:
  "et_node (respond (\<lambda>_. sample_reading) (rpc_RespChan (et_forwarded sample_transport ! 1))
      \<lparr>rr_Response = RequestPreVoteResponse \<lparr>pr_Term = 3, pr_Granted = True\<rparr>, rr_Error = None\<rparr> sample_transport) =
   et_node sample_transport"
  using prevote_cast_unannounced [OF sample_transport_run, of 1] by (simp add: sample_prevote_rpc_def)

text \<open>Asking for a pre-vote announces a term nobody has entered: the request
  carries the term the candidate would enter, and the node announces it as observed and
  takes it for the highest term, although the engine may still be in its old one.\<close>

theorem prevote_announces_future_term:
  assumes "node_ok n" and "n_lastTerm n < pq_Term q"
  shows "n_lastTerm (fst (RequestPreVote e inner i t q n)) = pq_Term q \<and>
     (\<exists>es. map unstamped (GetHistory (n_hub (fst (RequestPreVote e inner i t q n)))) =
        last_n 50 (map unstamped (GetHistory (n_hub n)) @ term_event (node_ID n) (pq_Term q) # es))"
proof -
  let ?n1 = "noteTerm (pq_Term q) n" and ?n2 = "emit e (prevote_requested_event i q) (noteTerm (pq_Term q) n)"
  have ok1: "node_ok ?n1" and ok2: "node_ok ?n2" using assms(1) by simp_all
  have "journal_of ?n1 = last_n maxHistory (journal_of n @ [term_event (node_ID n) (pq_Term q)])"
    using assms by (simp add: journal_noteTerm)
  then have j2: "journal_of ?n2 = last_n maxHistory (journal_of n @ term_event (node_ID n) (pq_Term q) #
      [filled e n (prevote_requested_event i q)])"
    using journal_emit [OF ok1, of "prevote_requested_event i q" e]
      last_n_append [of maxHistory "journal_of n @ [term_event (node_ID n) (pq_Term q)]"] by simp
  have two: "fst (RequestPreVote e inner i t q n) = ?n2 \<or>
      (\<exists>p. fst (RequestPreVote e inner i t q n) = emit (later 1 e) p ?n2 \<and> is_lifecycle p \<and> unstamped p = p)"
  proof (cases inner)
    case None
    then show ?thesis by (simp add: RequestPreVote_def)
  next
    case (Some call)
    obtain resp err where "call i t q = (resp, err)" by (cases "call i t q")
    then have "fst (RequestPreVote e inner i t q n) = (if err = None \<and> resp \<noteq> None
        then emit (later 1 e) (vote_event i (pr_Term (the resp)) (pr_Granted (the resp)) False True) ?n2 else ?n2)"
      by (simp add: Some RequestPreVote_def emitVoteResult_def Let_def)
    then show ?thesis using rpc_event_class(7,13) by metis
  qed
  have "\<exists>es. journal_of (fst (RequestPreVote e inner i t q n)) =
      last_n maxHistory (journal_of n @ term_event (node_ID n) (pq_Term q) # es)"
    using two
  proof
    assume "fst (RequestPreVote e inner i t q n) = ?n2"
    then show ?thesis using j2 by metis
  next
    assume "\<exists>p. fst (RequestPreVote e inner i t q n) = emit (later 1 e) p ?n2 \<and> is_lifecycle p \<and> unstamped p = p"
    then obtain p where p: "fst (RequestPreVote e inner i t q n) = emit (later 1 e) p ?n2" "is_lifecycle p" "unstamped p = p"
      by blast
    have "journal_of (emit (later 1 e) p ?n2) = last_n maxHistory ((journal_of n @ term_event (node_ID n) (pq_Term q) #
      [filled e n (prevote_requested_event i q)]) @ [filled (later 1 e) ?n2 p])"
      unfolding journal_emit [OF ok2 p(2,3)] j2 last_n_append ..
    then show ?thesis unfolding p(1) by auto
  qed
  moreover have "n_lastTerm (fst (RequestPreVote e inner i t q n)) = pq_Term q"
    using two assms(2) by (auto simp: max_def)
  ultimately show ?thesis by (simp add: journal_of_def announced_def GetHistory_def maxHistory_def)
qed

theorem prevote_announces_future_term_witness:
  "n_lastTerm (fst (RequestPreVote (\<lambda>_. sample_reading) None ''node-2'' ''127.0.0.1:7002''
     \<lparr>pq_Addr = [], pq_Term = 4, pq_LastLogIndex = 5, pq_LastLogTerm = 3\<rparr> sample_node)) = 4 \<and>
   rd_CurrentTerm sample_reading = 3"
  using prevote_announces_future_term [OF sample_node_ok, of "\<lparr>pq_Addr = [], pq_Term = 4, pq_LastLogIndex = 5, pq_LastLogTerm = 3\<rparr>"
      "\<lambda>_. sample_reading" None "''node-2''" "''127.0.0.1:7002''"]
  by (simp add: sample_node_def initial_node_def sample_reading_def)

section \<open>Snapshots\<close>

text \<open>The observing snapshot store is transparent and announces each snapshot
  that was created, with its index, its term and its number of voters, and no other.\<close>

theorem snapshot_announced:
  assumes "node_ok n" and "inner ver index w conf ci = r"
  shows "snd (snapshot_Create inner ver index w conf ci n) = r \<and>
     map unstamped (GetHistory (n_hub (fst (snapshot_Create inner ver index w conf ci n)))) =
       last_n 50 (map unstamped (GetHistory (n_hub n)) @
         (if isl r then [] else [snapshot_created_event ver index w conf ci n])) \<and>
     countVoters conf = length (filter (\<lambda>s. rs_Suffrage s = Voter) conf)"
proof -
  have "is_lifecycle (snapshot_created_event ver index w conf ci n)"
    "unstamped (snapshot_created_event ver index w conf ci n) = snapshot_created_event ver index w conf ci n"
    by (simp_all add: snapshot_created_event_def)
  then have "journal_of (fst (snapshot_Create inner ver index w conf ci n)) =
       last_n maxHistory (journal_of n @ (if isl r then [] else [snapshot_created_event ver index w conf ci n]))"
    using assms node_sink.journal_bound [OF assms(1)]
    by (simp add: snapshot_Create_def node_sink.journal_emit split: sum.split)
  then show ?thesis
    using assms(2) by (simp add: snapshot_Create_def countVoters_length journal_of_def announced_def GetHistory_def
        maxHistory_def split: sum.split)
qed

theorem snapshot_announced_witness:
  "\<exists>ev. map unstamped (GetHistory (n_hub (fst (snapshot_Create (\<lambda>_ _ _ _ _. Inr ()) 1 9 3
       (bootstrap_servers sample_config) 1 sample_node)))) = [ev]"
  using snapshot_announced [OF sample_node_ok, of "\<lambda>_ _ _ _ _. Inr ()" 1 9 3 "bootstrap_servers sample_config" 1 "Inr ()"]
  by simp

end
