(* ===== verification/Heartbeat_Batches.thy ===== *)
theory Heartbeat_Batches imports Transport_Observer_Theorems Event_Hub_Theorems begin

text \<open>
  Heartbeats from the transport to the hub: the wrappers of \<open>transport_observer.go\<close> report
  every single heartbeat, outgoing and incoming, and the hub of \<open>hub.go\<close> turns what it got
  between two ticks of its flush loop into at most one event per direction.
\<close>

section \<open>What happens between two flushes\<close>

text \<open>An append the engine sends, an RPC on the heartbeat fast path (\<open>cb\<close> is the engine's own
  handler), or an event the node publishes for another reason.\<close>

datatype beat =
    Outgoing engine "string \<Rightarrow> string \<Rightarrow> append_request \<Rightarrow> append_response option \<times> go_error option"
      string string append_request
  | Incoming engine "rpc \<Rightarrow> node \<Rightarrow> node" rpc
  | Published event

fun on_beat :: "(string \<Rightarrow> string) \<Rightarrow> beat \<Rightarrow> node \<Rightarrow> node" where
  "on_beat decode (Outgoing e inner i t a) n = fst (AppendEntries e inner i t a n)"
| "on_beat decode (Incoming e cb rpc) n = heartbeat_handler e decode cb rpc n"
| "on_beat decode (Published ev) n = broadcast ev n"

text \<open>The engine's handler leaves the node alone, and what is published is no heartbeat.\<close>

fun beat_ok :: "beat \<Rightarrow> bool" where
  "beat_ok (Outgoing e inner i t a) \<longleftrightarrow> True"
| "beat_ok (Incoming e cb rpc) \<longleftrightarrow>
     (\<forall>n. n_hub (cb rpc n) = n_hub n \<and> n_knownPeers (cb rpc n) = n_knownPeers n \<and> n_cfg (cb rpc n) = n_cfg n)"
| "beat_ok (Published ev) \<longleftrightarrow> \<not> is_heartbeat ev"

text \<open>The heartbeats of each direction: the peer and the request.\<close>

fun sent_beat :: "beat \<Rightarrow> (string \<times> append_request) list" where
  "sent_beat (Outgoing e inner i t a) = (if aq_Entries a = [] then [(i, a)] else [])"
| "sent_beat (Incoming e cb rpc) = []"
| "sent_beat (Published ev) = []"

fun received_beat :: "(string \<Rightarrow> string) \<Rightarrow> node \<Rightarrow> beat \<Rightarrow> (string \<times> append_request) list" where
  "received_beat decode n (Incoming e cb rpc) =
     (case rpc_Command rpc of
        AppendEntriesRequest req \<Rightarrow> [(leaderIDFor (rd_Order (e 1)) decode req n, req)]
      | _ \<Rightarrow> [])"
| "received_beat decode n (Outgoing e inner i t a) = []"
| "received_beat decode n (Published ev) = []"

section \<open>The accumulators\<close>

definition accumulated :: "string \<Rightarrow> (string \<times> append_request) list \<Rightarrow> hb_accum" where
  "accumulated self xs =
     (if xs = [] then newHBAccum
      else \<lparr>hb_count = length xs, hb_nodeID = self, hb_peerIDs = fst ` set xs - {[]},
            hb_lastTerm = aq_Term (snd (last xs)), hb_lastCommit = aq_LeaderCommitIndex (snd (last xs))\<rparr>)"

lemma hb_count_accumulated [simp]: "hb_count (accumulated self xs) = length xs"
  by (simp add: accumulated_def newHBAccum_def)

definition hb_state :: "node \<Rightarrow> hb_accum \<times> hb_accum \<times> event list" where
  "hb_state n = (h_hbSent (n_hub n), h_hbRecv (n_hub n), h_heartbeatHistory (n_hub n))"

lemma hb_state_broadcast: "\<not> is_heartbeat ev \<Longrightarrow> hb_state (broadcast ev n) = hb_state n"
  by (simp add: hb_state_def Broadcast_def broadcastDirect_stamped Let_def record_event_histories)

lemma hb_state_noteTerm [simp]: "hb_state (noteTerm w n) = hb_state n"
proof -
  have "\<not> is_heartbeat (term_event i w)" for i by (simp add: term_event_def is_heartbeat_def)
  then show ?thesis using hb_state_broadcast by (simp add: noteTerm_broadcast) (simp add: hb_state_def)
qed

lemma hb_state_emit: "\<not> is_heartbeat ev \<Longrightarrow> hb_state (emit e ev n) = hb_state n"
  by (simp add: emit_broadcast hb_state_broadcast)

lemma node_ID_cfg: "node_ID n = c_NodeID (n_cfg n)"
  by (simp add: node_ID_def)

lemma fold_heartbeat_accumulated:
  assumes "ev_NodeID ev = self" and "map_of data ''peer_id'' = Some (VString p)"
    and "map_of data ''term'' = Some (VU64 (aq_Term a))"
    and "map_of data ''commit_index'' = Some (VU64 (aq_LeaderCommitIndex a))"
  shows "fold_heartbeat ev data (accumulated self xs) = accumulated self (xs @ [(p, a)])"
  using assms by (auto simp: fold_heartbeat_def accumulated_def newHBAccum_def)

lemma hb_state_sent:
  assumes "hb_state n = (accumulated (node_ID n) xs, r, h)"
  shows "hb_state (emit e (heartbeat_sent_event i a) n) = (accumulated (node_ID n) (xs @ [(i, a)]), r, h)"
proof -
  have "fold_heartbeat (filled e n (heartbeat_sent_event i a))
      [(''peer_id'', VString i), (''term'', VU64 (aq_Term a)), (''commit_index'', VU64 (aq_LeaderCommitIndex a)),
       (''direction'', VString ''outgoing'')] (accumulated (node_ID n) xs) = accumulated (node_ID n) (xs @ [(i, a)])"
    by (rule fold_heartbeat_accumulated) (simp_all add: filled_def heartbeat_sent_event_def)
  then show ?thesis
    using assms
    by (simp add: hb_state_def emit_broadcast Broadcast_def accumulateHeartbeat_def)
       (simp add: filled_def heartbeat_sent_event_def)
qed

lemma hb_state_received:
  assumes "hb_state n = (s, accumulated (node_ID n) xs, h)"
  shows "hb_state (emit e (heartbeat_received_event l p a) n) = (s, accumulated (node_ID n) (xs @ [(p, a)]), h)"
proof -
  have "fold_heartbeat (filled e n (heartbeat_received_event l p a))
      [(''peer_id'', VString p), (''term'', VU64 (aq_Term a)), (''commit_index'', VU64 (aq_LeaderCommitIndex a)),
       (''direction'', VString ''incoming'')] (accumulated (node_ID n) xs) = accumulated (node_ID n) (xs @ [(p, a)])"
    by (rule fold_heartbeat_accumulated) (simp_all add: filled_def heartbeat_received_event_def)
  moreover have "is_heartbeat (heartbeat_received_event l p a)"
    by (simp add: heartbeat_received_event_def is_heartbeat_def)
  ultimately show ?thesis
    using assms
    by (simp add: hb_state_def emit_broadcast Broadcast_def accumulateHeartbeat_def)
       (simp add: filled_def heartbeat_received_event_def)
qed

text \<open>One step, for a node whose identity and known peers are those of \<open>n0\<close>.\<close>

lemma hb_state_step:
  assumes "beat_ok b" and "hb_state n = (accumulated (node_ID n) xs, accumulated (node_ID n) ys, h)"
    and "n_knownPeers n = n_knownPeers n0"
  shows "hb_state (on_beat decode b n) =
      (accumulated (node_ID n) (xs @ sent_beat b), accumulated (node_ID n) (ys @ received_beat decode n0 b), h)"
    and "n_knownPeers (on_beat decode b n) = n_knownPeers n" and "node_ID (on_beat decode b n) = node_ID n"
proof -
  have "hb_state (on_beat decode b n) =
      (accumulated (node_ID n) (xs @ sent_beat b), accumulated (node_ID n) (ys @ received_beat decode n0 b), h) \<and>
    n_knownPeers (on_beat decode b n) = n_knownPeers n \<and> node_ID (on_beat decode b n) = node_ID n"
  proof (cases b)
    case (Outgoing e inner i t a)
    have q: "\<not> is_heartbeat (append_sent_event i a)" "\<not> is_heartbeat (append_result_event i (aq_Term a) r)" for r
      by (simp_all add: append_sent_event_def append_result_event_def is_heartbeat_def)
    show ?thesis
      using assms(2) hb_state_sent [of "noteTerm (aq_Term a) n" xs _ h e i a]
      by (auto simp: Outgoing AppendEntries_def isMaintenanceRequest_def Let_def hb_state_emit q
          split: prod.split)
  next
    case (Incoming e cb rpc)
    have l: "leaderIDFor ks decode req (noteTerm w n) = leaderIDFor ks decode req n0" for ks req w
      using assms(3) by (simp add: leaderIDFor_def peerIDFromAddr_def nodeIDForRaftAddr_def Let_def)
    have cb: "hb_state (cb rpc m) = hb_state m" "n_knownPeers (cb rpc m) = n_knownPeers m" "node_ID (cb rpc m) = node_ID m" for m
      using assms(1) by (simp_all add: Incoming hb_state_def node_ID_def)
    have r: "hb_state (emit (later 2 e) (heartbeat_received_event v p a) (noteTerm w n)) =
        (accumulated (node_ID n) xs, accumulated (node_ID n) (ys @ [(p, a)]), h)" for v p a w
      using assms(2) hb_state_received [of "noteTerm w n" "accumulated (node_ID n) xs" ys h] by simp
    show ?thesis
      using assms(2) l r
      by (auto simp: Incoming heartbeat_handler_def cb Let_def split: rpc_command.split)
  next
    case (Published ev)
    then show ?thesis using assms by (simp add: hb_state_broadcast)
  qed
  then show "hb_state (on_beat decode b n) =
      (accumulated (node_ID n) (xs @ sent_beat b), accumulated (node_ID n) (ys @ received_beat decode n0 b), h)"
    and "n_knownPeers (on_beat decode b n) = n_knownPeers n" and "node_ID (on_beat decode b n) = node_ID n"
    by simp_all
qed

lemma hb_state_run:
  assumes "\<forall>b \<in> set bs. beat_ok b" and "h_hbSent (n_hub n) = newHBAccum" and "h_hbRecv (n_hub n) = newHBAccum"
  shows "hb_state (fold (on_beat decode) bs n) =
      (accumulated (node_ID n) (concat (map sent_beat bs)),
       accumulated (node_ID n) (concat (map (received_beat decode n) bs)), h_heartbeatHistory (n_hub n)) \<and>
    n_knownPeers (fold (on_beat decode) bs n) = n_knownPeers n \<and> node_ID (fold (on_beat decode) bs n) = node_ID n"
  using assms(1)
proof (induction bs rule: rev_induct)
  case Nil
  then show ?case using assms(2,3) by (simp add: hb_state_def accumulated_def)
next
  case (snoc b bs)
  then have b: "beat_ok b"
    and IH: "hb_state (fold (on_beat decode) bs n) =
      (accumulated (node_ID (fold (on_beat decode) bs n)) (concat (map sent_beat bs)),
       accumulated (node_ID (fold (on_beat decode) bs n)) (concat (map (received_beat decode n) bs)),
       h_heartbeatHistory (n_hub n))"
      "n_knownPeers (fold (on_beat decode) bs n) = n_knownPeers n" "node_ID (fold (on_beat decode) bs n) = node_ID n"
    by simp_all
  show ?case using hb_state_step [OF b IH(1,2), of decode] IH(2,3) by simp
qed

section \<open>The flush\<close>

lemma broadcastDirect_hb_history:
  "is_heartbeat e \<Longrightarrow> map unstamped (h_heartbeatHistory (broadcastDirect e h)) =
     last_n maxHBHistory (map unstamped (h_heartbeatHistory h) @ [unstamped e])"
  by (simp add: broadcastDirect_stamped Let_def record_event_histories map_last_n)

lemma flush_history:
  "map unstamped (h_heartbeatHistory (hbFlushOnce h)) = last_n maxHBHistory (map unstamped (h_heartbeatHistory h) @
     (if hb_count (h_hbSent h) = 0 then [] else [batchEvent EventHeartbeatSent (h_hbSent h)]) @
     (if hb_count (h_hbRecv h) = 0 then [] else [batchEvent EventHeartbeatReceived (h_hbRecv h)]))"
  if "length (h_heartbeatHistory h) \<le> maxHBHistory"
proof -
  have u: "unstamped (batchEvent t a) = batchEvent t a" for t a by (simp add: batchEvent_def Let_def)
  show ?thesis
    using that last_n_snoc [of maxHBHistory "map unstamped (h_heartbeatHistory h) @ [batchEvent EventHeartbeatSent (h_hbSent h)]"]
    by (auto simp: hbFlushOnce_def Let_def broadcastDirect_hb_history u maxHBHistory_def)
qed

lemma flush_resets:
  assumes "hb_count (h_hbSent h) = 0 \<Longrightarrow> h_hbSent h = newHBAccum"
    and "hb_count (h_hbRecv h) = 0 \<Longrightarrow> h_hbRecv h = newHBAccum"
  shows "h_hbSent (hbFlushOnce h) = newHBAccum \<and> h_hbRecv (hbFlushOnce h) = newHBAccum"
  using assms by (auto simp: hbFlushOnce_def Let_def broadcastDirect_stamped)

text \<open>Property C20. Whatever appends a node sends and heartbeats it receives between two flushes, in any
  mix and with other events in between, the flush turns them into at most one event per
  direction, and that event tells the truth: it counts the heartbeats of its direction,
  names every peer of theirs once and in order, and carries the term and the commit index
  of the last one.  The heartbeat history, of which the newest 10 events are kept, grows by exactly these events,
  the outgoing one first, and the accumulators are empty again.\<close>

theorem heartbeats_coalesce:
  fixes n :: node and bs :: "beat list" and decode :: "string \<Rightarrow> string"
  assumes "node_ok n" and "h_hbSent (n_hub n) = newHBAccum" and "h_hbRecv (n_hub n) = newHBAccum"
    and "\<forall>b \<in> set bs. beat_ok b"
  defines "sent \<equiv> concat (map sent_beat bs)" and "received \<equiv> concat (map (received_beat decode n) bs)"
    and "h' \<equiv> hbFlushOnce (n_hub (fold (on_beat decode) bs n))"
  shows "map unstamped (GetHeartbeatHistory h') = last_n 10 (map unstamped (GetHeartbeatHistory (n_hub n)) @
       (if sent = [] then []
        else let a = snd (last sent); targets = sorted_keys (fst ` set sent - {[]}) in
          [mk_event EventHeartbeatSent (node_ID n) (aq_Term a)
             (''Leader dispatched '' @ itoa (length sent) @ '' heartbeat(s) (AppendEntries) to ''
              @ join_with '', '' targets @ '' [Term '' @ itoa_u64 (aq_Term a) @ '']'')
             (VMap [(''count'', VInt (int (length sent))), (''term'', VU64 (aq_Term a)),
                    (''commit_index'', VU64 (aq_LeaderCommitIndex a)), (''direction'', VString ''outgoing''),
                    (''role'', VString ''Leader''), (''targets'', VStrings targets)])]) @
       (if received = [] then []
        else let a = snd (last received); sources = sorted_keys (fst ` set received - {[]}) in
          [mk_event EventHeartbeatReceived (node_ID n) (aq_Term a)
             (''Follower received '' @ itoa (length received) @ '' heartbeat(s) (AppendEntries) from ''
              @ join_with '', '' sources @ '' [Term '' @ itoa_u64 (aq_Term a) @ '', Commit ''
              @ itoa_u64 (aq_LeaderCommitIndex a) @ '']'')
             (VMap [(''count'', VInt (int (length received))), (''term'', VU64 (aq_Term a)),
                    (''commit_index'', VU64 (aq_LeaderCommitIndex a)), (''direction'', VString ''incoming''),
                    (''role'', VString ''Follower''), (''sources'', VStrings sources)])])) \<and>
     h_hbSent h' = newHBAccum \<and> h_hbRecv h' = newHBAccum"
proof -
  let ?h = "n_hub (fold (on_beat decode) bs n)"
  have s: "h_hbSent ?h = accumulated (node_ID n) sent" "h_hbRecv ?h = accumulated (node_ID n) received"
    "h_heartbeatHistory ?h = h_heartbeatHistory (n_hub n)"
    using hb_state_run [OF assms(4,2,3), of decode] by (simp_all add: hb_state_def sent_def received_def)
  have bound: "length (h_heartbeatHistory ?h) \<le> maxHBHistory"
    using assms(1) by (simp add: s node_ok_def hub_ok_def histories_ok_def)
  have "h_hbSent h' = newHBAccum \<and> h_hbRecv h' = newHBAccum"
    unfolding h'_def by (rule flush_resets) (simp_all add: s, simp_all add: accumulated_def)
  moreover have "map unstamped (GetHeartbeatHistory h') = last_n 10 (map unstamped (GetHeartbeatHistory (n_hub n)) @
      (if sent = [] then [] else [batchEvent EventHeartbeatSent (accumulated (node_ID n) sent)]) @
      (if received = [] then [] else [batchEvent EventHeartbeatReceived (accumulated (node_ID n) received)]))"
    using flush_history [OF bound] by (simp add: h'_def s GetHeartbeatHistory_def maxHBHistory_def)
  ultimately show ?thesis by (simp add: accumulated_def batchEvent_def Let_def)
qed

definition sample_beats :: "beat list" where
  "sample_beats =
     [Outgoing (\<lambda>_. sample_reading) (\<lambda>_ _ _. (None, Some ''timeout'')) ''node-3'' ''127.0.0.1:7003'' (sample_append\<lparr>aq_Entries := []\<rparr>),
      Incoming (\<lambda>_. sample_reading) (\<lambda>_ m. m)
        \<lparr>rpc_Command = AppendEntriesRequest (sample_append\<lparr>aq_Entries := [], aq_Term := 4, aq_Addr := ''127.0.0.1:7002''\<rparr>), rpc_RespChan = 0\<rparr>,
      Outgoing (\<lambda>_. sample_reading) (\<lambda>_ _ _. (None, None)) ''node-2'' ''127.0.0.1:7002'' (sample_append\<lparr>aq_Entries := []\<rparr>)]"

theorem heartbeats_coalesce_witness:
  "map (\<lambda>ev. (ev_Type ev, ev_NodeID ev, ev_Data ev))
     (map unstamped (GetHeartbeatHistory (hbFlushOnce (n_hub (fold (on_beat id) sample_beats sample_node))))) =
     [(EventHeartbeatSent, ''node-1'',
        VMap [(''count'', VInt 2), (''term'', VU64 3), (''commit_index'', VU64 4), (''direction'', VString ''outgoing''),
              (''role'', VString ''Leader''), (''targets'', VStrings [''node-2'', ''node-3''])]),
      (EventHeartbeatReceived, ''node-1'',
        VMap [(''count'', VInt 1), (''term'', VU64 4), (''commit_index'', VU64 4), (''direction'', VString ''incoming''),
              (''role'', VString ''Follower''), (''sources'', VStrings [''127.0.0.1:7002''])])]"
proof -
  have a: "h_hbSent (n_hub sample_node) = newHBAccum" "h_hbRecv (n_hub sample_node) = newHBAccum"
    "GetHeartbeatHistory (n_hub sample_node) = []" "\<forall>b \<in> set sample_beats. beat_ok b"
    by (simp_all add: sample_node_def initial_node_def NewHub_def GetHeartbeatHistory_def sample_beats_def)
  have "concat (map sent_beat sample_beats) =
      [(''node-3'', sample_append\<lparr>aq_Entries := []\<rparr>), (''node-2'', sample_append\<lparr>aq_Entries := []\<rparr>)]"
    "concat (map (received_beat id sample_node) sample_beats) =
      [(''127.0.0.1:7002'', sample_append\<lparr>aq_Entries := [], aq_Term := 4, aq_Addr := ''127.0.0.1:7002''\<rparr>)]"
    by (simp_all add: sample_beats_def leaderIDFor_def peerIDFromAddr_def nodeIDForRaftAddr_def sample_reading_def
        sample_node_def initial_node_def sample_config_def)
  moreover have "sorted_keys ({''node-3'', ''node-2''} - {[]}) = [''node-2'', ''node-3'']"
    by (rule sorted_keys_unique) auto
  moreover have "sorted_keys ({''127.0.0.1:7002''} - {[]}) = [''127.0.0.1:7002'']" by (rule sorted_keys_unique) auto
  ultimately show ?thesis
    using heartbeats_coalesce [OF sample_node_ok a(1,2,4), of id]
    by (simp add: a(3) sample_append_def Let_def) 
qed

end
