(* ===== verification/Spec2Isabelle.thy ===== *)
theory Spec2Isabelle imports Api_Invariant Api_Cluster Main_Theorems Poll_Concurrency Term_Concurrency Heartbeat_Batches begin

text \<open>
  A verification library for raft-cam, a web application that runs a small Raft cluster
  (on \<open>hashicorp/raft\<close>) with a replicated key-value store and shows what the protocol does.

  THE PROGRAM.  A process (\<open>main.go\<close>) owns one node.  The node (\<open>internal/raftnode\<close>) gives
  the raft engine three things: the key-value state machine (\<open>internal/fsm\<close>), a transport that
  wraps the TCP one and announces every RPC, and a snapshot store that announces every
  snapshot.  All that is announced, by these, by the observers of the engine and by the health
  checker, goes to the event hub (\<open>internal/events\<close>), which keeps two short histories and fans
  the events out to the subscribed clients.  The HTTP server (\<open>internal/api\<close>) reads and changes
  the cluster through the node, forwards what only a leader can do, streams the events of the
  hub, and starts and stops further node processes through the process manager
  (\<open>internal/processmgr\<close>), whose command lines \<open>main.go\<close> of the new process reads.

  WHICH THEORY MODELS WHAT.
  \<^item> \<open>Prelude\<close>, \<open>Go_Net\<close>, \<open>Go_Path\<close>: the Go types and the functions of \<open>fmt\<close>, \<open>strings\<close>,
    \<open>strconv\<close>, \<open>net\<close> and \<open>path/filepath\<close> that the code calls.
  \<^item> \<open>Go_Utf8\<close>, \<open>Go_Json_String\<close>, \<open>Go_Json\<close>: \<open>encoding/json\<close> on bytes, so that the commands in
    the log, the snapshot files and the bodies of requests are the strings the program sees.
  \<^item> \<open>Kv_Fsm\<close> (lemmas in \<open>Kv_Fsm_Props\<close>, properties in \<open>Kv_Fsm_Theorems\<close>): \<open>fsm.go\<close>.  The
    record \<open>kv_fsm\<close> is \<open>KVStoreFSM\<close> (data, history, index, callbacks); \<open>Apply\<close>, \<open>Snapshot\<close>,
    \<open>Persist\<close>, \<open>Restore\<close>, \<open>StoreConfiguration\<close> and the getters are its methods.
    \<open>Replicated_Machine\<close> is the abstract store \<open>kv_exec\<close> and the contract of consensus.
  \<^item> \<open>Event_Types\<close>: \<open>types.go\<close>.  \<open>Event_Hub\<close> (\<open>Event_Hub_Props\<close>, \<open>Event_Hub_Theorems\<close>,
    \<open>Event_Stream\<close>): \<open>hub.go\<close>.  The record \<open>hub\<close> is \<open>Hub\<close>: the channels, which of them are
    subscribed, the two histories and the heartbeat accumulator.
  \<^item> \<open>Raft_Node\<close> (\<open>Raft_Node_Props\<close>, \<open>Raft_Node_Theorems\<close>): \<open>node.go\<close> and \<open>election.go\<close>.  The
    record \<open>node\<close> is \<open>Node\<close>; it contains the hub and the state machine, and its maps are the
    fields under \<open>mu\<close>.  \<open>Term_Concurrency\<close> has the two steps of \<open>noteTerm\<close> interleaved.
  \<^item> \<open>Node_Observer\<close> (\<open>Node_Observer_Theorems\<close>): \<open>observer.go\<close>, each loop as a fold over what it
    receives; \<open>Poll_Concurrency\<close> has its two goroutines access by access.
    \<open>Transport_Observer\<close> (\<open>Transport_Observer_Theorems\<close>): \<open>transport_observer.go\<close>;
    the goroutines that wait for a vote are the relays of \<open>event_transport\<close>.
    \<open>Heartbeat_Batches\<close> follows the heartbeats from there to the hub's flush loop.
    \<open>Snapshot_Observer\<close>: \<open>snapshot_observer.go\<close>.
  \<^item> \<open>Process_Manager\<close> (\<open>Process_Theorems\<close>): \<open>manager.go\<close>.  \<open>Main_Program\<close> (\<open>Main_Theorems\<close>):
    \<open>main.go\<close> with the flag parser of the standard library.
  \<^item> \<open>Api_Handler\<close> (\<open>Api_Props\<close>, \<open>Api_Theorems\<close>, \<open>Api_Spawn\<close>, \<open>Api_Stream\<close>, \<open>Api_Invariant\<close>,
    \<open>Api_Cluster\<close>):
    \<open>handler.go\<close>: the response writer, the routing of \<open>ServeMux\<close>, the middleware and every
    handler, from the bytes of the body to the bytes of the answer.

  CONVENTIONS.  A method is a function from the state (the record) to the new state and what
  the method returns; a goroutine it starts is an entry of a returned list; an error is its
  text, and a panic is \<open>None\<close> or the flag \<open>h_crashed\<close>.  A nil map is \<open>None\<close>.  What the
  operating system, the clock, the network and the engine answer are arguments: \<open>engine\<close>,
  \<open>os\<close>, \<open>startup\<close> and \<open>api_env\<close>.  An engine gives a fresh reading at each question, since it
  moves between two questions.  What the engine asks of the state machine while a node starts is
  part of \<open>startup\<close>.  A section under a mutex is one atomic step.

  INTERFACES.
  \<^item> \<open>bounded_log\<close> (\<open>Prelude\<close>): a capped history is the newest entries of what was pushed;
    interpreted on the history of the state machine and on both histories of the hub.
  \<^item> \<open>replicated_machine\<close>: replicas that agree keep agreeing, and a snapshot of a prefix
    replaces it; interpreted on \<open>Apply\<close>.
  \<^item> \<open>event_sink\<close> (\<open>Event_Hub_Props\<close>): what whoever announces events relies on; interpreted on
    the hub and on the node.
  \<^item> \<open>wrapped_call\<close> (\<open>Transport_Observer_Theorems\<close>): a call that only announces and learns a
    term; interpreted on the calls of the transport in any mix.
  \<^item> \<open>http_handler\<close> (\<open>Api_Props\<close>), \<open>forwarded_route\<close> (\<open>Api_Theorems\<close>) and \<open>keeping_handler\<close>
    (\<open>Api_Invariant\<close>): answering with a known number of statuses, answering what the leader
    answers, and keeping the server well formed; interpreted on every handler they are about.

  WHAT THE LEMMAS SHOW.
  \<^item> State machine: any log of arbitrary bytes implements the abstract store, replicas agree
    whatever their clocks, a snapshot replaces the prefix it was taken of, and commands
    survive the log with all their fields.  Restore takes over a whole map, a nil map, or
    changes nothing, by what the JSON document holds.
  \<^item> Hub: no sequence of its operations panics or exceeds a bound, the histories are the
    newest events, heartbeats are coalesced truthfully, activations balance.
  \<^item> Node and observers: a node that starts holds what its newest snapshot held, each new highest
    term is announced once (in order when the calls do not overlap: \<open>terms_in_order\<close>, and
    \<open>terms_announced_out_of_order\<close> when they do), the cluster state names at most one leader, a proposal ends on one of its branches, and a health
    check makes the known peers the configuration and announces the differences once.
    Polling follows the clients while its goroutines do not overlap; \<open>polling_goroutines_race\<close>
    shows what happens when they do.
  \<^item> Transport: the wrapper is transparent, and in any interleaving of arriving RPCs and answers
    of the engine each answer reaches the caller it is for, once.
  \<^item> HTTP: every request is answered, once but for one kind of delete, a bad request changes nothing, a follower answers
    what its leader answers, an acknowledged write takes effect on every replica that
    applies the entry and is seen by every later read on any node until the key is touched
    again, a client that keeps up receives every event since it subscribed, in order, and
    every sequence of requests keeps the server well formed and gives back its subscriptions.
  \<^item> Processes: names and Raft addresses are fresh, a spawn request starts at most 50 nodes,
    no child survives \<open>StopAll\<close> unless its name was given away (\<open>concurrent_spawns_orphan\<close> shows
    how that happens), a spawned process runs the node its manager describes, and
    the join loop ends.

  BOUNDS AND FUEL.  The histories hold 100 entries (state machine), 50 lifecycle events and 10
  heartbeat batches (hub); a channel holds 64 events; a port is searched among 2000, a name
  among 500; a spawn request starts 1 to 50 nodes; the join loop makes 15 attempts.  The only
  fuel that is not a bound of the code is that of the JSON reader, \<open>2 * length + 2\<close> for an
  input: the theorem \<open>parse_fuel_enough\<close> shows that no larger amount changes its result.  The
  nesting limit of 10000 is that of the library.

  NOT MODELLED.
  \<^item> The engine of \<open>hashicorp/raft\<close> (log replication, elections), its TCP transport, the bolt
    and file stores, the HTTP client, the file server of the frontend and the redirect of
    \<open>ServeMux\<close> for unclean paths are not in the repository or not the program's own; they are
    arguments, and no law is assumed of them except in hypotheses a theorem states.
  \<^item> Timing: sleeps, ticker periods and time-outs.  A tick is an input.
  \<^item> Interleavings inside one method that takes a mutex more than once, apart from those of the
    event stream, of a spawn request, of \<open>noteTerm\<close>, of the vote relays and of the polling,
    which are modelled.
  \<^item> A time stamp in a command is read from the decoded string, while the library reads the raw
    bytes: one written with escape sequences, which no node writes, would be refused there.
  \<^item> Lines written to the log of the process.
  \<^item> The web frontend (JavaScript, HTML, CSS), \<open>web/embed.go\<close>, which only returns the embedded
    files, the tests, the scripts and the build files.
\<close>

end
